(* ===== verification/LLM_Prelude.thy ===== *)
theory LLM_Prelude
  imports Main "HOL-Library.AList" "HOL-Library.Multiset"
begin

text \<open>
  Shared material of the development: the names of the model's types, the integer
  conversions of Go that can change a value, Go maps as association lists together with
  the freedom of their iteration order, and generic list lemmas.

  Conventions. A Go \<^verbatim>\<open>string\<close> or \<^verbatim>\<open>[]byte\<close> is a \<^typ>\<open>string\<close> (a list of bytes).
  A Go \<^verbatim>\<open>int\<close> or \<^verbatim>\<open>int64\<close> is an \<^typ>\<open>int\<close>; conversions to a narrower type are written
  out (\<open>int32\<close> below). A time or a duration is an \<^typ>\<open>int\<close> count of nanoseconds (or of
  the unit named where it is read), and every function that calls \<^verbatim>\<open>time.Now\<close> takes
  the clock reading as an argument. A Go map that is ranged over is an association list
  with distinct keys.
\<close>

named_theorems go_simps "equations of the Go standard library model"
named_theorems inv_intros "an operation preserves the invariant of its component"

type_synonym bytes = string
type_synonym time = int
type_synonym duration = int

text \<open>\<^verbatim>\<open>time.Second\<close>, \<^verbatim>\<open>time.Minute\<close>, \<^verbatim>\<open>time.Hour\<close> and \<^verbatim>\<open>time.Millisecond\<close>.\<close>

definition millisecond :: duration where "millisecond = 1000000"
definition second :: duration where "second = 1000000000"
definition minute :: duration where "minute = 60000000000"
definition hour :: duration where "hour = 3600000000000"

lemmas duration_defs = millisecond_def second_def minute_def hour_def

lemma durations_pos [simp]: "0 < millisecond" "0 < second" "0 < minute" "0 < hour"
  by (simp_all add: duration_defs)

text \<open>The conversion \<^verbatim>\<open>int32(x)\<close>: keep the low 32 bits, read as two's complement.\<close>

definition int32 :: "int \<Rightarrow> int" where
  "int32 x = (x + 2 ^ 31) mod 2 ^ 32 - 2 ^ 31"

lemma int32_id: "- (2 ^ 31) \<le> x \<Longrightarrow> x < 2 ^ 31 \<Longrightarrow> int32 x = x"
  by (simp add: int32_def)

lemma int32_bounds: "- (2 ^ 31) \<le> int32 x" "int32 x < 2 ^ 31"
  using pos_mod_bound [of "2 ^ 32 :: int" "x + 2 ^ 31"] pos_mod_sign [of "2 ^ 32 :: int" "x + 2 ^ 31"]
  by (simp_all add: int32_def)

text \<open>
  Go's integer division and remainder truncate towards zero.
\<close>

definition go_div :: "int \<Rightarrow> int \<Rightarrow> int" where
  "go_div a b = (if (0 \<le> a) = (0 \<le> b) then \<bar>a\<bar> div \<bar>b\<bar> else - (\<bar>a\<bar> div \<bar>b\<bar>))"

lemma go_div_nonneg [simp]: "0 \<le> a \<Longrightarrow> 0 \<le> b \<Longrightarrow> go_div a b = a div b"
  by (simp add: go_div_def)

subsection \<open>Iteration order of Go maps\<close>

text \<open>
  \<^verbatim>\<open>for k, v := range m\<close> visits every entry once, in an order the language leaves open.
  A function that ranges over a map takes the order as an argument: a function that
  rearranges the entry list. \<open>range_order\<close> is what the language promises of it.
\<close>

definition range_order :: "('a list \<Rightarrow> 'a list) \<Rightarrow> bool" where
  "range_order ord \<longleftrightarrow> (\<forall>xs. mset (ord xs) = mset xs)"

lemma range_order_id [simp]: "range_order (\<lambda>xs. xs)"
  by (simp add: range_order_def)

lemma range_order_rev [simp]: "range_order rev"
  by (simp add: range_order_def)

lemma range_order_mset: "range_order ord \<Longrightarrow> mset (ord xs) = mset xs"
  by (simp add: range_order_def)

lemma range_order_set: "range_order ord \<Longrightarrow> set (ord xs) = set xs"
  by (metis range_order_mset set_mset_mset)

lemma range_order_distinct: "range_order ord \<Longrightarrow> distinct (ord xs) = distinct xs"
  by (metis mset_eq_imp_distinct_iff range_order_mset)

lemma range_order_length: "range_order ord \<Longrightarrow> length (ord xs) = length xs"
  by (metis range_order_mset size_mset)

subsection \<open>Maps as association lists\<close>

abbreviation keys_of :: "('k \<times> 'v) list \<Rightarrow> 'k list" where
  "keys_of m \<equiv> map fst m"

definition has_key :: "('k \<times> 'v) list \<Rightarrow> 'k \<Rightarrow> bool" where
  "has_key m k = (map_of m k \<noteq> None)"

lemma has_key_iff: "has_key m k \<longleftrightarrow> k \<in> fst ` set m"
  by (auto simp: has_key_def map_of_eq_None_iff)

lemma map_of_update [simp]: "map_of (AList.update k v m) = (map_of m)(k \<mapsto> v)"
  by (rule update_conv')

lemma map_of_delete [simp]: "map_of (AList.delete k m) = (map_of m)(k := None)"
  by (rule delete_conv')

lemma distinct_keys_update [simp]:
  "distinct (keys_of m) \<Longrightarrow> distinct (keys_of (AList.update k v m))"
  by (rule distinct_update)

lemma distinct_keys_delete [simp]:
  "distinct (keys_of m) \<Longrightarrow> distinct (keys_of (AList.delete k m))"
  by (rule distinct_delete)

subsection \<open>Lists\<close>

text \<open>The first index at which a predicate holds, Go's \<^verbatim>\<open>-1\<close> being \<open>None\<close>.\<close>

fun first_index :: "('a \<Rightarrow> bool) \<Rightarrow> 'a list \<Rightarrow> nat option" where
  "first_index P [] = None"
| "first_index P (x # xs) = (if P x then Some 0 else map_option Suc (first_index P xs))"

lemma first_index_Some:
  "first_index P xs = Some i \<Longrightarrow> i < length xs \<and> P (xs ! i) \<and> (\<forall>j < i. \<not> P (xs ! j))"
proof (induction xs arbitrary: i)
  case (Cons x xs)
  then show ?case
    by (cases i) (auto split: if_splits simp: nth_Cons split: nat.splits)
qed simp

lemma first_index_None: "first_index P xs = None \<longleftrightarrow> (\<forall>x \<in> set xs. \<not> P x)"
  by (induction xs) auto

lemma find_SomeD: "find P xs = Some x \<Longrightarrow> x \<in> set xs \<and> P x"
  by (induction xs) (auto split: if_splits)

lemma find_append: "find P (xs @ ys) = (case find P xs of Some x \<Rightarrow> Some x | None \<Rightarrow> find P ys)"
  by (induction xs) auto

lemma nth_update_if: "j < length xs \<Longrightarrow> xs[i := x] ! j = (if i = j then x else xs ! j)"
  by (cases "i = j") auto

lemma filter_eq_single: "distinct xs \<Longrightarrow> x \<in> set xs \<Longrightarrow> filter (\<lambda>y. y = x) xs = [x]"
  by (induction xs) (auto simp: filter_empty_conv)

lemma filter_key_single:
  "distinct (map f xs) \<Longrightarrow> x \<in> set xs \<Longrightarrow> filter (\<lambda>y. f y = f x) xs = [x]"
proof (induction xs)
  case (Cons z zs)
  show ?case
  proof (cases "z = x")
    case True
    with Cons.prems have "filter (\<lambda>y. f y = f x) zs = []"
      by (auto simp: filter_empty_conv) (metis imageI)
    with True show ?thesis by simp
  next
    case False
    with Cons.prems have "x \<in> set zs" "f z \<noteq> f x" by auto
    with Cons show ?thesis by simp
  qed
qed simp

lemma sum_list_le_card_bound:
  fixes f :: "'a \<Rightarrow> nat"
  assumes "\<And>x. x \<in> set xs \<Longrightarrow> f x \<le> b"
  shows "sum_list (map f xs) \<le> length xs * b"
  using assms by (induction xs) (auto intro: add_mono)

end
