(* ===== verification/Go_Strings.thy ===== *)
theory Go_Strings
  imports LLM_Prelude
begin

text \<open>
  The functions of Go's \<^verbatim>\<open>strings\<close>, \<^verbatim>\<open>bytes\<close> and \<^verbatim>\<open>strconv\<close> packages the program calls,
  on byte strings. Letter case and white space are those of ASCII: the bytes of a multi-byte
  UTF-8 character are left unchanged by \<open>ToLower\<close>, \<open>ToUpper\<close> and \<open>TrimSpace\<close>. The identifiers
  the program treats this way (model ids, card names, quantization names, header values)
  are ASCII.
\<close>

subsection \<open>Prefixes, suffixes and search\<close>

definition HasPrefix :: "string \<Rightarrow> string \<Rightarrow> bool" where
  "HasPrefix s p = (take (length p) s = p)"

definition HasSuffix :: "string \<Rightarrow> string \<Rightarrow> bool" where
  "HasSuffix s p = (length p \<le> length s \<and> drop (length s - length p) s = p)"

definition TrimPrefix :: "string \<Rightarrow> string \<Rightarrow> string" where
  "TrimPrefix s p = (if HasPrefix s p then drop (length p) s else s)"

definition TrimSuffix :: "string \<Rightarrow> string \<Rightarrow> string" where
  "TrimSuffix s p = (if HasSuffix s p then take (length s - length p) s else s)"

text \<open>\<^verbatim>\<open>strings.Index\<close>; \<open>None\<close> is Go's \<open>-1\<close>.\<close>

fun Index :: "string \<Rightarrow> string \<Rightarrow> nat option" where
  "Index [] sub = (if sub = [] then Some 0 else None)"
| "Index (c # cs) sub =
     (if HasPrefix (c # cs) sub then Some 0 else map_option Suc (Index cs sub))"

definition Contains :: "string \<Rightarrow> string \<Rightarrow> bool" where
  "Contains s sub = (Index s sub \<noteq> None)"

text \<open>\<^verbatim>\<open>strings.LastIndex\<close>.\<close>

fun LastIndex :: "string \<Rightarrow> string \<Rightarrow> nat option" where
  "LastIndex [] sub = (if sub = [] then Some 0 else None)"
| "LastIndex (c # cs) sub =
     (case LastIndex cs sub of
        Some i \<Rightarrow> Some (Suc i)
      | None \<Rightarrow> if HasPrefix (c # cs) sub then Some 0 else None)"

text \<open>\<^verbatim>\<open>before, after, found := strings.Cut(s, sep)\<close>.\<close>

definition Cut :: "string \<Rightarrow> string \<Rightarrow> string \<times> string \<times> bool" where
  "Cut s sep = (case Index s sep of
     None \<Rightarrow> (s, [], False)
   | Some i \<Rightarrow> (take i s, drop (i + length sep) s, True))"

lemma HasPrefix_iff: "HasPrefix s p \<longleftrightarrow> (\<exists>t. s = p @ t)"
  unfolding HasPrefix_def by (metis append_eq_conv_conj append_take_drop_id)

lemma HasPrefix_append [simp]: "HasPrefix (p @ t) p"
  by (simp add: HasPrefix_def)

lemma HasPrefix_Nil [simp]: "HasPrefix s []"
  by (simp add: HasPrefix_def)

lemma HasPrefix_length: "HasPrefix s p \<Longrightarrow> length p \<le> length s"
  by (auto simp: HasPrefix_iff)

lemma Index_prefix: "HasPrefix s sub \<Longrightarrow> Index s sub = Some 0"
  by (cases s) (auto simp: HasPrefix_def)

lemma HasSuffix_iff: "HasSuffix s p \<longleftrightarrow> (\<exists>t. s = t @ p)"
proof
  assume "HasSuffix s p"
  then have "s = take (length s - length p) s @ p"
    unfolding HasSuffix_def by (metis append_take_drop_id)
  then show "\<exists>t. s = t @ p" ..
next
  assume "\<exists>t. s = t @ p"
  then show "HasSuffix s p" by (auto simp: HasSuffix_def)
qed

lemma HasSuffix_append [simp]: "HasSuffix (t @ p) p"
  by (auto simp: HasSuffix_iff)

lemma TrimPrefix_append [simp]: "TrimPrefix (p @ t) p = t"
  by (simp add: TrimPrefix_def)

lemma TrimSuffix_append [simp]: "TrimSuffix (t @ p) p = t"
  by (simp add: TrimSuffix_def)

lemma Index_Some_split:
  "Index s sub = Some i \<Longrightarrow> s = take i s @ sub @ drop (i + length sub) s"
proof (induction s arbitrary: i)
  case Nil
  then show ?case by (auto split: if_splits)
next
  case (Cons c cs)
  show ?case
  proof (cases "HasPrefix (c # cs) sub")
    case True
    with Cons.prems have "i = 0" by simp
    with True show ?thesis
      by (auto simp: HasPrefix_iff)
  next
    case False
    with Cons.prems obtain j where j: "Index cs sub = Some j" and i: "i = Suc j"
      by auto
    from Cons.IH [OF j] i show ?thesis by simp
  qed
qed

lemma Index_bound: "Index s sub = Some i \<Longrightarrow> i + length sub \<le> length s"
proof (induction s arbitrary: i)
  case Nil
  then show ?case by (auto split: if_splits)
next
  case (Cons c cs)
  show ?case
  proof (cases "HasPrefix (c # cs) sub")
    case True
    with Cons.prems have "i = 0" by simp
    with HasPrefix_length [OF True] show ?thesis by simp
  next
    case False
    with Cons show ?thesis by auto
  qed
qed

lemma Index_append_self: "Index (u @ sub @ v) sub \<noteq> None"
proof (induction u)
  case Nil
  show ?case by (simp add: Index_prefix)
next
  case (Cons c u)
  then show ?case by auto
qed

lemma Contains_iff: "Contains s sub \<longleftrightarrow> (\<exists>u v. s = u @ sub @ v)"
  unfolding Contains_def using Index_Some_split Index_append_self by (metis not_None_eq)

lemma Contains_append1: "Contains s sub \<Longrightarrow> Contains (s @ t) sub"
  unfolding Contains_iff by (metis append.assoc)

lemma Contains_append2: "Contains t sub \<Longrightarrow> Contains (s @ t) sub"
  unfolding Contains_iff by (metis append.assoc)

lemma Index_None_first: "Index s sub = Some i \<Longrightarrow> j < i \<Longrightarrow> \<not> HasPrefix (drop j s) sub"
proof (induction s arbitrary: i j)
  case Nil
  then show ?case by (auto split: if_splits)
next
  case (Cons c cs)
  then show ?case by (cases j) (auto split: if_splits)
qed

lemma Cut_found: "Cut s sep = (a, b, True) \<Longrightarrow> s = a @ sep @ b"
  by (auto simp: Cut_def split: option.splits dest: Index_Some_split)

lemma Cut_not_found: "Cut s sep = (a, b, False) \<Longrightarrow> a = s \<and> b = [] \<and> \<not> Contains s sep"
  by (auto simp: Cut_def Contains_def split: option.splits)

lemma Index_single: "Index s [c] = first_index (\<lambda>x. x = c) s"
  by (induction s) (auto simp: HasPrefix_def)

lemma Contains_single: "Contains s [c] \<longleftrightarrow> c \<in> set s"
  by (auto simp: Contains_def Index_single first_index_None)

lemma Cut_single:
  "c \<notin> set a \<Longrightarrow> Cut (a @ c # b) [c] = (a, b, True)"
proof -
  assume "c \<notin> set a"
  then have "first_index (\<lambda>x. x = c) (a @ c # b) = Some (length a)"
    by (induction a) auto
  then show ?thesis by (simp add: Cut_def Index_single)
qed

subsection \<open>Letter case and white space\<close>

definition lower_char :: "char \<Rightarrow> char" where
  "lower_char c = (if 65 \<le> (of_char c :: nat) \<and> (of_char c :: nat) \<le> 90
     then char_of ((of_char c :: nat) + 32) else c)"

definition upper_char :: "char \<Rightarrow> char" where
  "upper_char c = (if 97 \<le> (of_char c :: nat) \<and> (of_char c :: nat) \<le> 122
     then char_of ((of_char c :: nat) - 32) else c)"

definition ToLower :: "string \<Rightarrow> string" where
  "ToLower s = map lower_char s"

definition ToUpper :: "string \<Rightarrow> string" where
  "ToUpper s = map upper_char s"

definition EqualFold :: "string \<Rightarrow> string \<Rightarrow> bool" where
  "EqualFold a b = (ToLower a = ToLower b)"

lemma lower_char_idem [simp]: "lower_char (lower_char c) = lower_char c"
  by (auto simp: lower_char_def of_char_of)

lemma ToLower_idem [simp]: "ToLower (ToLower s) = ToLower s"
  by (simp add: ToLower_def)

lemma ToLower_append [simp]: "ToLower (s @ t) = ToLower s @ ToLower t"
  by (simp add: ToLower_def)

lemma ToLower_eq_Nil [simp]: "ToLower s = [] \<longleftrightarrow> s = []"
  by (simp add: ToLower_def)

definition is_space :: "char \<Rightarrow> bool" where
  "is_space c = ((of_char c :: nat) \<in> {9, 10, 11, 12, 13, 32})"

text \<open>\<^verbatim>\<open>strings.TrimLeft\<close>, \<^verbatim>\<open>TrimRight\<close>, \<^verbatim>\<open>Trim\<close> with a cutset, and \<^verbatim>\<open>TrimSpace\<close>.\<close>

definition trim_right :: "(char \<Rightarrow> bool) \<Rightarrow> string \<Rightarrow> string" where
  "trim_right p s = rev (dropWhile p (rev s))"

definition TrimRight :: "string \<Rightarrow> string \<Rightarrow> string" where
  "TrimRight s cutset = trim_right (\<lambda>c. c \<in> set cutset) s"

definition Trim :: "string \<Rightarrow> string \<Rightarrow> string" where
  "Trim s cutset = trim_right (\<lambda>c. c \<in> set cutset) (dropWhile (\<lambda>c. c \<in> set cutset) s)"

definition TrimSpace :: "string \<Rightarrow> string" where
  "TrimSpace s = trim_right is_space (dropWhile is_space s)"

lemma trim_right_split: "\<exists>t. s = trim_right p s @ t \<and> (\<forall>c \<in> set t. p c)"
proof -
  have "s = rev (takeWhile p (rev s) @ dropWhile p (rev s))" by simp
  then have "s = trim_right p s @ rev (takeWhile p (rev s))"
    by (simp only: rev_append trim_right_def)
  moreover have "\<forall>c \<in> set (rev (takeWhile p (rev s))). p c"
    by (auto dest: set_takeWhileD)
  ultimately show ?thesis by blast
qed

lemma trim_right_last: "trim_right p s \<noteq> [] \<Longrightarrow> \<not> p (last (trim_right p s))"
  by (simp add: trim_right_def last_rev hd_dropWhile)

lemma trim_right_id: "s = [] \<or> \<not> p (last s) \<Longrightarrow> trim_right p s = s"
  by (cases s rule: rev_cases) (auto simp: trim_right_def)

lemma trim_right_idem [simp]: "trim_right p (trim_right p s) = trim_right p s"
  by (cases "trim_right p s = []") (auto intro: trim_right_id dest: trim_right_last)

lemma trim_right_append_out: "\<forall>c \<in> set t. p c \<Longrightarrow> trim_right p (s @ t) = trim_right p s"
  by (simp add: trim_right_def dropWhile_append)

lemma set_TrimSpace: "set (TrimSpace s) \<subseteq> set s"
  by (auto simp: TrimSpace_def trim_right_def dest!: set_dropWhileD)

subsection \<open>Splitting and joining\<close>

text \<open>\<^verbatim>\<open>strings.ReplaceAll\<close> for a non-empty pattern: left to right, without overlaps.\<close>

function ReplaceAll :: "string \<Rightarrow> string \<Rightarrow> string \<Rightarrow> string" where
  "ReplaceAll s old new =
     (if old = [] \<or> s = [] then s
      else if HasPrefix s old then new @ ReplaceAll (drop (length old) s) old new
      else hd s # ReplaceAll (tl s) old new)"
  by pat_completeness auto
termination
  by (relation "measure (\<lambda>(s, old, new). length s)") (auto intro!: diff_less)

declare ReplaceAll.simps [simp del]

text \<open>\<^verbatim>\<open>strings.Split\<close> on a one-byte separator, \<^verbatim>\<open>strings.Join\<close>, \<^verbatim>\<open>strings.FieldsFunc\<close>.\<close>

fun split_where :: "(char \<Rightarrow> bool) \<Rightarrow> string \<Rightarrow> string \<Rightarrow> string list" where
  "split_where p acc [] = [acc]"
| "split_where p acc (c # cs) =
     (if p c then acc # split_where p [] cs else split_where p (acc @ [c]) cs)"

definition Split :: "string \<Rightarrow> char \<Rightarrow> string list" where
  "Split s sep = split_where (\<lambda>c. c = sep) [] s"

definition FieldsFunc :: "string \<Rightarrow> (char \<Rightarrow> bool) \<Rightarrow> string list" where
  "FieldsFunc s p = filter (\<lambda>f. f \<noteq> []) (split_where p [] s)"

fun Join :: "string list \<Rightarrow> string \<Rightarrow> string" where
  "Join [] sep = []"
| "Join [s] sep = s"
| "Join (s # t # ts) sep = s @ sep @ Join (t # ts) sep"

lemma split_where_nonempty: "split_where p acc s \<noteq> []"
  by (induction p acc s rule: split_where.induct) auto

lemma Join_Cons: "ts \<noteq> [] \<Longrightarrow> Join (s # ts) sep = s @ sep @ Join ts sep"
  by (cases ts) auto

lemma Join_split_where: "Join (split_where (\<lambda>c. c = sep) acc s) [sep] = acc @ s"
  by (induction s arbitrary: acc) (auto simp: Join_Cons split_where_nonempty)

lemma Join_Split [simp]: "Join (Split s sep) [sep] = s"
  by (simp add: Split_def Join_split_where)

lemma split_where_no_sep:
  "\<forall>c \<in> set acc. \<not> p c \<Longrightarrow> f \<in> set (split_where p acc s) \<Longrightarrow> \<forall>c \<in> set f. \<not> p c"
proof (induction s arbitrary: acc)
  case (Cons c cs)
  show ?case
  proof (cases "p c")
    case True
    with Cons.prems(2) consider "f = acc" | "f \<in> set (split_where p [] cs)" by auto
    then show ?thesis
    proof cases
      case 1
      with Cons.prems(1) show ?thesis by blast
    next
      case 2
      show ?thesis by (rule Cons.IH [OF _ 2]) simp
    qed
  next
    case False
    then have "\<forall>d \<in> set (acc @ [c]). \<not> p d" and "f \<in> set (split_where p (acc @ [c]) cs)"
      using Cons.prems by auto
    then show ?thesis by (rule Cons.IH)
  qed
qed simp

subsection \<open>Decimal numbers\<close>

definition digit_char :: "nat \<Rightarrow> char" where
  "digit_char d = char_of (48 + d)"

fun nat_digits :: "nat \<Rightarrow> string" where
  "nat_digits n = (if n < 10 then [digit_char n] else nat_digits (n div 10) @ [digit_char (n mod 10)])"

declare nat_digits.simps [simp del]

text \<open>\<^verbatim>\<open>strconv.Itoa\<close>, and \<^verbatim>\<open>%d\<close> of \<^verbatim>\<open>fmt.Sprintf\<close>.\<close>

definition Itoa :: "int \<Rightarrow> string" where
  "Itoa i = (if i < 0 then CHR ''-'' # nat_digits (nat (- i)) else nat_digits (nat i))"

text \<open>The same digits computed on integers, which evaluate in binary.\<close>

function int_digits :: "int \<Rightarrow> string" where
  "int_digits n =
     (if n < 10 then [digit_char (nat n)] else int_digits (n div 10) @ [digit_char (nat (n mod 10))])"
  by auto
termination by (relation "measure nat") auto

declare int_digits.simps [simp del]

lemma int_digits_nat: "int_digits (int n) = nat_digits n"
proof (induction n rule: nat_digits.induct)
  case (1 n)
  show ?case
  proof (cases "n < 10")
    case False
    then have "int_digits (int n div 10) = nat_digits (n div 10)"
      using 1 by (simp add: zdiv_int)
    moreover have "nat (int n mod 10) = n mod 10" by (simp add: nat_mod_distrib)
    ultimately show ?thesis
      using False by (subst int_digits.simps, subst nat_digits.simps) simp
  qed (simp add: int_digits.simps [of "int n"] nat_digits.simps [of n])
qed

lemma Itoa_code [code]: "Itoa i = (if i < 0 then CHR ''-'' # int_digits (- i) else int_digits i)"
  using int_digits_nat [of "nat i"] int_digits_nat [of "nat (- i)"] by (auto simp: Itoa_def)

definition is_digit :: "char \<Rightarrow> bool" where
  "is_digit c = (48 \<le> (of_char c :: nat) \<and> (of_char c :: nat) \<le> 57)"

fun digits_value :: "nat \<Rightarrow> string \<Rightarrow> nat option" where
  "digits_value acc [] = Some acc"
| "digits_value acc (c # cs) =
     (if is_digit c then digits_value (acc * 10 + (of_char c - 48)) cs else None)"

text \<open>
  \<^verbatim>\<open>strconv.Atoi\<close> and \<^verbatim>\<open>ParseInt(s, 10, 64)\<close>: the value and whether \<^verbatim>\<open>err\<close> is nil. A syntax
  error gives 0, an out-of-range number the nearest limit.
\<close>

definition max_int64 :: int where "max_int64 = 2 ^ 63 - 1"
definition min_int64 :: int where "min_int64 = - (2 ^ 63)"

definition Atoi :: "string \<Rightarrow> int \<times> bool" where
  "Atoi s =
     (let neg = (s \<noteq> [] \<and> hd s = CHR ''-'');
          body = (if s \<noteq> [] \<and> (hd s = CHR ''-'' \<or> hd s = CHR ''+'') then tl s else s)
      in if body = [] then (0, False)
         else case digits_value 0 body of
           None \<Rightarrow> (0, False)
         | Some n \<Rightarrow>
             let v = (if neg then - int n else int n)
             in if v > max_int64 then (max_int64, False)
                else if v < min_int64 then (min_int64, False)
                else (v, True))"

lemma of_char_digit: "d < 10 \<Longrightarrow> of_char (digit_char d) = 48 + d"
  by (simp add: digit_char_def of_char_of)

lemma is_digit_digit_char [simp]: "d < 10 \<Longrightarrow> is_digit (digit_char d)"
  by (simp add: is_digit_def of_char_digit)

lemma digits_value_append:
  "digits_value acc (s @ t) = Option.bind (digits_value acc s) (\<lambda>v. digits_value v t)"
  by (induction s arbitrary: acc) auto

lemma digits_value_nat_digits: "digits_value 0 (nat_digits n) = Some n"
proof (induction n rule: nat_digits.induct)
  case (1 n)
  show ?case
  proof (cases "n < 10")
    case True
    then show ?thesis by (simp add: nat_digits.simps [of n] of_char_digit)
  next
    case False
    with 1 have "digits_value 0 (nat_digits (n div 10)) = Some (n div 10)" by simp
    with False show ?thesis
      by (simp add: nat_digits.simps [of n] digits_value_append of_char_digit)
  qed
qed

lemma nat_digits_all_digits: "\<forall>c \<in> set (nat_digits n). is_digit c"
proof (induction n rule: nat_digits.induct)
  case (1 n)
  then show ?case by (cases "n < 10") (auto simp: nat_digits.simps [of n])
qed

lemma nat_digits_nonempty [simp]: "nat_digits n \<noteq> []"
  by (subst nat_digits.simps) simp

lemma nat_digits_hd_digit: "is_digit (hd (nat_digits n))"
  using nat_digits_all_digits [of n] by (auto simp: hd_in_set)

lemma not_digit_sign [simp]: "\<not> is_digit CHR ''-''" "\<not> is_digit CHR ''+''"
  by (simp_all add: is_digit_def)

text \<open>Printing a number of the machine range and reading it back gives the number.\<close>

lemma Atoi_Itoa: "min_int64 \<le> i \<Longrightarrow> i \<le> max_int64 \<Longrightarrow> Atoi (Itoa i) = (i, True)"
proof -
  assume range: "min_int64 \<le> i" "i \<le> max_int64"
  show ?thesis
  proof (cases "i < 0")
    case True
    with range show ?thesis
      by (simp add: Atoi_def Itoa_def Let_def digits_value_nat_digits)
  next
    case False
    have "hd (nat_digits (nat i)) \<noteq> CHR ''-''" "hd (nat_digits (nat i)) \<noteq> CHR ''+''"
      using nat_digits_hd_digit [of "nat i"] not_digit_sign by metis+
    with False range show ?thesis
      by (simp add: Atoi_def Itoa_def Let_def digits_value_nat_digits)
  qed
qed

end
