(* ===== verification/Go_Files.thy ===== *)
theory Go_Files
  imports Go_Strings
begin

text \<open>
  Paths and one directory of a file system: the functions of \<^verbatim>\<open>path/filepath\<close> (on Unix) the
  program calls, and a directory as the listing \<^verbatim>\<open>os.ReadDir\<close> returns, with the operations
  \<^verbatim>\<open>os.ReadFile\<close>, \<^verbatim>\<open>os.WriteFile\<close>, \<^verbatim>\<open>os.Rename\<close> and \<^verbatim>\<open>os.Remove\<close> inside it.
\<close>

subsection \<open>Paths\<close>

definition IsAbs :: "string \<Rightarrow> bool" where
  "IsAbs p = HasPrefix p ''/''"

text \<open>
  \<^verbatim>\<open>filepath.Clean\<close>: empty and \<^verbatim>\<open>.\<close> elements disappear, \<^verbatim>\<open>..\<close> removes the element before it,
  and is dropped at the root but kept at the front of a relative path. The stack holds the
  elements kept so far, the last one first.
\<close>

fun clean_elems :: "bool \<Rightarrow> string list \<Rightarrow> string list \<Rightarrow> string list" where
  "clean_elems rooted stack [] = rev stack"
| "clean_elems rooted stack (e # es) =
     (if e = [] \<or> e = ''.'' then clean_elems rooted stack es
      else if e = ''..'' then
        (case stack of
           [] \<Rightarrow> clean_elems rooted (if rooted then [] else [e]) es
         | t # ts \<Rightarrow> if t = ''..'' then clean_elems rooted (e # stack) es
                    else clean_elems rooted ts es)
      else clean_elems rooted (e # stack) es)"

definition Clean :: "string \<Rightarrow> string" where
  "Clean p =
     (let rooted = IsAbs p;
          body = Join (clean_elems rooted [] (Split p CHR ''/'')) ''/''
      in if rooted then CHR ''/'' # body else if body = [] then ''.'' else body)"

text \<open>\<^verbatim>\<open>filepath.Join\<close> of two elements; empty elements are ignored.\<close>

definition path_join :: "string \<Rightarrow> string \<Rightarrow> string" where
  "path_join a b =
     (if a = [] then (if b = [] then [] else Clean b)
      else if b = [] then Clean a else Clean (a @ ''/'' @ b))"

text \<open>\<^verbatim>\<open>filepath.Dir\<close>: everything up to the last slash, cleaned.\<close>

definition path_dir :: "string \<Rightarrow> string" where
  "path_dir p = (case LastIndex p ''/'' of None \<Rightarrow> ''.'' | Some i \<Rightarrow> Clean (take (Suc i) p))"

lemma Split_no_sep: "sep \<notin> set s \<Longrightarrow> Split s sep = [s]"
proof -
  have "sep \<notin> set s \<Longrightarrow> split_where (\<lambda>c. c = sep) acc s = [acc @ s]" for acc
    by (induction s arbitrary: acc) auto
  then show "sep \<notin> set s \<Longrightarrow> Split s sep = [s]" by (simp add: Split_def)
qed

lemma split_where_append:
  "P sep \<Longrightarrow>
   split_where P acc (a @ sep # b) = split_where P acc a @ split_where P [] b"
  by (induction a arbitrary: acc) auto

lemma Split_append: "Split (a @ sep # b) sep = Split a sep @ Split b sep"
  unfolding Split_def by (rule split_where_append) auto

lemma clean_elems_snoc_plain:
  assumes "e \<noteq> []" and "e \<noteq> ''.''" and "e \<noteq> ''..''"
  shows "clean_elems r st (es @ [e]) = clean_elems r st es @ [e]"
  using assms by (induction r st es rule: clean_elems.induct) (auto split: list.splits)

text \<open>Joining a directory and a plain file name appends the name to the cleaned directory.\<close>

lemma path_join_plain:
  assumes "d \<noteq> []" and "CHR ''/'' \<notin> set n" and "n \<noteq> []" and "n \<noteq> ''.''" and "n \<noteq> ''..''"
  shows "path_join d n =
     (let es = clean_elems (IsAbs d) [] (Split d CHR ''/'') @ [n]
      in if IsAbs d then CHR ''/'' # Join es ''/'' else Join es ''/'')"
proof -
  have abs: "IsAbs (d @ CHR ''/'' # n) = IsAbs d"
    using assms(1) by (cases d) (auto simp: IsAbs_def HasPrefix_def)
  have "Join (xs @ [n]) ''/'' \<noteq> []" for xs
    using assms(3) by (cases xs) (auto simp: Join_Cons)
  with assms abs show ?thesis
    by (simp add: path_join_def Clean_def Split_append Split_no_sep clean_elems_snoc_plain Let_def)
qed

lemma Join_snoc: "xs \<noteq> [] \<Longrightarrow> Join (xs @ [y]) sep = Join xs sep @ sep @ y"
proof (induction xs)
  case (Cons x xs)
  then show ?case by (cases xs) (auto simp: Join_Cons)
qed simp

lemma path_join_plain_inj:
  assumes "d \<noteq> []"
    and "CHR ''/'' \<notin> set n" and "n \<noteq> []" and "n \<noteq> ''.''" and "n \<noteq> ''..''"
    and "CHR ''/'' \<notin> set k" and "k \<noteq> []" and "k \<noteq> ''.''" and "k \<noteq> ''..''"
    and "path_join d n = path_join d k"
  shows "n = k"
proof -
  let ?c = "clean_elems (IsAbs d) [] (Split d CHR ''/'')"
  have "Join (?c @ [n]) ''/'' = Join (?c @ [k]) ''/''"
    using assms(10) path_join_plain [OF assms(1-5)] path_join_plain [OF assms(1,6-9)]
    by (auto simp: Let_def split: if_splits)
  then show ?thesis by (cases "?c = []") (auto simp: Join_snoc)
qed

subsection \<open>One directory\<close>

text \<open>
  An entry is a file that can be read, a file that cannot, or a subdirectory. A listing has
  the entries by name; \<^verbatim>\<open>os.ReadDir\<close> sorts them, and the order is part of the listing.
\<close>

datatype dentry = File bytes | Unreadable | Subdir

type_synonym listing = "(string \<times> dentry) list"

datatype dir_state = Missing | ReadError string | Listing listing

text \<open>\<^verbatim>\<open>os.ReadFile(filepath.Join(dir, name))\<close>; \<open>None\<close> is an error.\<close>

definition read_file :: "listing \<Rightarrow> string \<Rightarrow> bytes option" where
  "read_file ls name = (case map_of ls name of Some (File raw) \<Rightarrow> Some raw | _ \<Rightarrow> None)"

text \<open>Write a temporary file and rename it over \<open>name\<close>: the entry is replaced in one step.\<close>

definition install_file :: "listing \<Rightarrow> string \<Rightarrow> bytes \<Rightarrow> listing" where
  "install_file ls name raw = AList.update name (File raw) (AList.delete (name @ ''.tmp'') ls)"

definition remove_file :: "listing \<Rightarrow> string \<Rightarrow> listing" where
  "remove_file ls name = AList.delete name ls"

lemma read_file_install [simp]: "read_file (install_file ls n raw) n = Some raw"
  by (simp add: read_file_def install_file_def)

lemma read_file_install_other [simp]:
  "k \<noteq> n \<Longrightarrow> k \<noteq> n @ ''.tmp'' \<Longrightarrow> read_file (install_file ls n raw) k = read_file ls k"
  by (simp add: read_file_def install_file_def)

lemma read_file_remove: "read_file (remove_file ls n) k = (if k = n then None else read_file ls k)"
  by (simp add: read_file_def remove_file_def)

lemma read_file_Some_key: "read_file ls n = Some raw \<Longrightarrow> n \<in> fst ` set ls"
  unfolding read_file_def by (auto split: option.splits dest!: map_of_SomeD intro: rev_image_eqI)

end
