(* ===== verification/Go_Float.thy ===== *)
theory Go_Float
  imports LLM_Prelude Complex_Main "HOL-Library.Log_Nat"
begin

text \<open>
  Go's \<^verbatim>\<open>float64\<close> as the rational it denotes, with the rounding of IEEE 754 binary64 written
  out: every arithmetic operation is the exact rational result rounded by \<open>fl64\<close> to the
  nearest multiple of the spacing at its magnitude (53 significant bits, ties to the even
  multiple, spacing never below $2^{-1074}$). Infinities and NaN are not values of the
  model: a division whose divisor may be zero is guarded where it is modelled, and results
  beyond the largest finite float64 do not occur for the token counts, byte counts and
  prices the program handles.

  The locale \<open>float_rounding\<close> states what the clients of the arithmetic (the load
  comparison of the pool, billing, the planner) use of it; \<open>f64\<close> interprets it on \<open>fl64\<close>.
\<close>

subsection \<open>Powers of two and the binary exponent of a rational\<close>

definition pow2 :: "int \<Rightarrow> rat" where
  "pow2 k = (if 0 \<le> k then 2 ^ nat k else 1 / 2 ^ nat (- k))"

lemma pow2_powi: "pow2 k = 2 powi k"
  by (simp add: pow2_def power_int_def field_simps)

lemma pow2_pos [simp]: "0 < pow2 k"
  by (simp add: pow2_def)

lemma pow2_nonneg [simp]: "0 \<le> pow2 k"
  by (rule less_imp_le) simp

lemma pow2_nz [simp]: "pow2 k \<noteq> 0"
  using pow2_pos [of k] by linarith

lemma pow2_0 [simp]: "pow2 0 = 1"
  by (simp add: pow2_def)

lemma pow2_add: "pow2 (a + b) = pow2 a * pow2 b"
  by (simp add: pow2_powi power_int_add)

lemma pow2_diff: "pow2 (a - b) = pow2 a / pow2 b"
  by (simp add: pow2_powi power_int_diff)

lemma pow2_less_iff [simp]: "pow2 a < pow2 b \<longleftrightarrow> a < b"
proof -
  have "a < b \<Longrightarrow> pow2 a < pow2 b" for a b
    by (simp add: pow2_powi power_int_strict_increasing)
  then show ?thesis by (metis linorder_neqE_linordered_idom order_less_asym)
qed

lemma pow2_le_iff [simp]: "pow2 a \<le> pow2 b \<longleftrightarrow> a \<le> b"
  by (simp flip: linorder_not_less)

lemma pow2_int: "0 \<le> k \<Longrightarrow> pow2 k = of_int (2 ^ nat k)"
  by (simp add: pow2_def)

text \<open>\<open>flog2 x\<close> is the exponent $k$ with $2^k \le x < 2^{k+1}$.\<close>

definition flog2 :: "rat \<Rightarrow> int" where
  "flog2 x = (case quotient_of x of (p, q) \<Rightarrow>
     let k = bitlen p - bitlen q in if pow2 k \<le> x then k else k - 1)"

lemma bitlen_pow2_bounds:
  assumes "0 < n"
  shows "pow2 (bitlen n - 1) \<le> of_int n" and "of_int n < pow2 (bitlen n)"
proof -
  have b: "2 ^ nat (bitlen n - 1) \<le> n" "n < 2 ^ nat (bitlen n)"
    using bitlen_bounds [OF assms] by auto
  have p: "0 < bitlen n" using assms bitlen_nonneg [of n] bitlen_eq_zero_iff [of n] by linarith
  have "pow2 (bitlen n - 1) = of_int (2 ^ nat (bitlen n - 1))"
    using p by (intro pow2_int) simp
  also have "\<dots> \<le> of_int n" using b(1) by (subst of_int_le_iff)
  finally show "pow2 (bitlen n - 1) \<le> of_int n" .
  have "(of_int n :: rat) < of_int (2 ^ nat (bitlen n))" using b(2) by (subst of_int_less_iff)
  also have "\<dots> = pow2 (bitlen n)" using p by (intro pow2_int [symmetric]) simp
  finally show "of_int n < pow2 (bitlen n)" .
qed

lemma flog2_bounds:
  assumes "0 < x"
  shows "pow2 (flog2 x) \<le> x \<and> x < pow2 (flog2 x + 1)"
proof -
  obtain p q where pq: "quotient_of x = (p, q)" by fastforce
  have q: "0 < q" and x: "x = of_int p / of_int q"
    using quotient_of_denom_pos [OF pq] quotient_of_div [OF pq] by auto
  with assms have p: "0 < p" by (simp add: zero_less_divide_iff)
  let ?k = "bitlen p - bitlen q"
  have "of_int p / of_int q < pow2 (bitlen p) / pow2 (bitlen q - 1)"
    using bitlen_pow2_bounds [OF p] bitlen_pow2_bounds [OF q] p
    by (intro frac_less) auto
  then have up: "x < pow2 (?k + 1)"
    using x by (simp add: pow2_diff [symmetric] algebra_simps)
  have "pow2 (bitlen p - 1) / pow2 (bitlen q) < of_int p / of_int q"
    using bitlen_pow2_bounds [OF p] bitlen_pow2_bounds [OF q] q
    by (intro frac_less2) auto
  then have lo: "pow2 (?k - 1) < x"
    using x by (simp add: pow2_diff [symmetric] algebra_simps)
  show ?thesis using up lo by (auto simp: flog2_def pq Let_def)
qed

lemma flog2_unique:
  assumes "pow2 k \<le> x" and "x < pow2 (k + 1)"
  shows "flog2 x = k"
proof -
  have "0 < x" using assms(1) pow2_pos [of k] by linarith
  from flog2_bounds [OF this] assms have "pow2 k < pow2 (flog2 x + 1)" "pow2 (flog2 x) < pow2 (k + 1)"
    by linarith+
  then show ?thesis by simp
qed

lemma flog2_mono: "0 < x \<Longrightarrow> x \<le> y \<Longrightarrow> flog2 x \<le> flog2 y"
proof -
  assume "0 < x" "x \<le> y"
  then have "pow2 (flog2 x) < pow2 (flog2 y + 1)"
    using flog2_bounds [of x] flog2_bounds [of y] by linarith
  then show ?thesis by simp
qed

subsection \<open>Rounding\<close>

text \<open>Round to the nearest integer, ties to the even one.\<close>

definition rne :: "rat \<Rightarrow> int" where
  "rne x = (let n = \<lfloor>x\<rfloor>; d = x - of_int n in
     if d < 1 / 2 then n else if 1 / 2 < d then n + 1 else if even n then n else n + 1)"

lemma rne_of_int [simp]: "rne (of_int n) = n"
  by (simp add: rne_def)

lemma rne_bounds: "\<lfloor>x\<rfloor> \<le> rne x \<and> rne x \<le> \<lfloor>x\<rfloor> + 1"
  by (simp add: rne_def Let_def)

lemma rne_mono: "x \<le> y \<Longrightarrow> rne x \<le> rne y"
proof -
  assume xy: "x \<le> y"
  then have "\<lfloor>x\<rfloor> \<le> \<lfloor>y\<rfloor>" by (rule floor_mono)
  then consider "\<lfloor>x\<rfloor> = \<lfloor>y\<rfloor>" | "\<lfloor>x\<rfloor> + 1 \<le> \<lfloor>y\<rfloor>" by linarith
  then show ?thesis
  proof cases
    case 1
    with xy show ?thesis by (auto simp: rne_def Let_def)
  next
    case 2
    with rne_bounds [of x] rne_bounds [of y] show ?thesis by linarith
  qed
qed

lemma rne_nearest: "\<bar>of_int (rne x) - x\<bar> \<le> 1 / 2"
proof -
  have "of_int \<lfloor>x\<rfloor> \<le> x" "x < of_int \<lfloor>x\<rfloor> + 1"
    by linarith+
  then show ?thesis unfolding rne_def Let_def
    by (auto simp: abs_le_iff field_simps)
qed

text \<open>The spacing of float64 values around a positive \<open>x\<close> is $2^{\mathit{fexp}\,x}$.\<close>

definition fexp :: "rat \<Rightarrow> int" where
  "fexp x = max (flog2 x - 52) (-1074)"

definition round_pos :: "rat \<Rightarrow> rat" where
  "round_pos x = of_int (rne (x / pow2 (fexp x))) * pow2 (fexp x)"

definition fl64 :: "rat \<Rightarrow> rat" where
  "fl64 x = (if x = 0 then 0 else if 0 < x then round_pos x else - round_pos (- x))"

lemma fl64_0 [simp]: "fl64 0 = 0"
  by (simp add: fl64_def)

lemma fl64_minus: "fl64 (- x) = - fl64 x"
  by (simp add: fl64_def)

lemma round_pos_le:
  assumes "x \<le> of_int n * pow2 (fexp x)"
  shows "round_pos x \<le> of_int n * pow2 (fexp x)"
proof -
  have "x / pow2 (fexp x) \<le> of_int n" using assms by (simp add: pos_divide_le_eq)
  then have "rne (x / pow2 (fexp x)) \<le> n" using rne_mono rne_of_int by metis
  then show ?thesis by (simp add: round_pos_def)
qed

lemma round_pos_ge:
  assumes "of_int n * pow2 (fexp x) \<le> x"
  shows "of_int n * pow2 (fexp x) \<le> round_pos x"
proof -
  have "of_int n \<le> x / pow2 (fexp x)" using assms by (simp add: pos_le_divide_eq)
  then have "n \<le> rne (x / pow2 (fexp x))" using rne_mono rne_of_int by metis
  then show ?thesis by (simp add: round_pos_def)
qed

lemma round_pos_nonneg: "0 < x \<Longrightarrow> 0 \<le> round_pos x"
  using round_pos_ge [of 0 x] by simp

lemma round_pos_mono:
  assumes "0 < x" and "x \<le> y"
  shows "round_pos x \<le> round_pos y"
proof (cases "fexp x = fexp y")
  case True
  have "rne (x / pow2 (fexp x)) \<le> rne (y / pow2 (fexp y))"
    using assms True by (metis divide_right_mono less_imp_le pow2_pos rne_mono)
  then show ?thesis by (simp add: round_pos_def True)
next
  case False
  have le: "flog2 x \<le> flog2 y" using assms by (rule flog2_mono)
  with False have ey: "fexp y = flog2 y - 52" and ex: "fexp x < flog2 y - 52" and lt: "flog2 x < flog2 y"
    by (auto simp: fexp_def max_def split: if_splits)
  have "x \<le> pow2 (flog2 y)"
  proof -
    have "x < pow2 (flog2 x + 1)" using flog2_bounds [OF assms(1)] by simp
    also have "\<dots> \<le> pow2 (flog2 y)" using lt by simp
    finally show ?thesis by simp
  qed
  moreover have X: "pow2 (flog2 y) = of_int (2 ^ nat (flog2 y - fexp x)) * pow2 (fexp x)"
    using ex by (subst pow2_int [symmetric]) (auto simp: pow2_add [symmetric])
  ultimately have "round_pos x \<le> pow2 (flog2 y)"
    using round_pos_le [of x "2 ^ nat (flog2 y - fexp x)"] by simp
  also have Y: "pow2 (flog2 y) = of_int (2 ^ 52) * pow2 (fexp y)"
    unfolding ey by (subst pow2_diff) (simp add: pow2_def)
  also have "\<dots> \<le> round_pos y"
  proof (rule round_pos_ge)
    have "0 < y" using assms by linarith
    then show "of_int (2 ^ 52) * pow2 (fexp y) \<le> y"
      using flog2_bounds [of y] Y by simp
  qed
  finally show ?thesis .
qed

lemma fl64_mono: "x \<le> y \<Longrightarrow> fl64 x \<le> fl64 y"
proof -
  assume xy: "x \<le> y"
  consider "0 < x" | "x \<le> 0" "0 \<le> y" | "y < 0" by linarith
  then show ?thesis
  proof cases
    case 1
    with xy show ?thesis by (simp add: fl64_def round_pos_mono)
  next
    case 2
    then have "fl64 x \<le> 0" "0 \<le> fl64 y"
      using round_pos_nonneg [of "- x"] round_pos_nonneg [of y] by (auto simp: fl64_def)
    then show ?thesis by simp
  next
    case 3
    with xy show ?thesis using round_pos_mono [of "- y" "- x"] by (simp add: fl64_def)
  qed
qed

text \<open>Every number with at most 53 significant bits above the smallest spacing is exact.\<close>

lemma round_pos_exact:
  assumes "0 < m" and "m \<le> 2 ^ 53" and "-1074 \<le> k"
  shows "round_pos (of_int m * pow2 k) = of_int m * pow2 k"
proof -
  let ?x = "of_int m * pow2 k"
  have "\<exists>z. ?x = of_int z * pow2 (fexp ?x)"
  proof (cases "m = 2 ^ 53")
    case True
    then have x: "?x = pow2 (53 + k)" by (simp add: pow2_add) (simp add: pow2_def)
    then have "flog2 ?x = 53 + k" by (intro flog2_unique) auto
    then have "fexp ?x = k + 1" using assms(3) by (simp add: fexp_def)
    moreover have "pow2 (53 + k) = of_int (2 ^ 52) * pow2 (k + 1)"
      by (simp add: pow2_add) (simp add: pow2_def)
    ultimately show ?thesis using x by metis
  next
    case False
    with assms have "of_int m < (of_int (2 ^ 53) :: rat)"
      by (subst of_int_less_iff) linarith
    then have "of_int m < pow2 53" by (simp add: pow2_def)
    then have "?x < pow2 53 * pow2 k" by (rule mult_strict_right_mono) simp
    then have lt: "?x < pow2 (53 + k)" by (simp add: pow2_add)
    have "0 < ?x" using assms(1) by simp
    then have "pow2 (flog2 ?x) < pow2 (53 + k)" using flog2_bounds [of ?x] lt by linarith
    then have fe: "fexp ?x \<le> k" using assms(3) by (simp add: fexp_def)
    then have "pow2 k = of_int (2 ^ nat (k - fexp ?x)) * pow2 (fexp ?x)"
      by (subst pow2_int [symmetric]) (auto simp: pow2_add [symmetric])
    then have "?x = of_int (m * 2 ^ nat (k - fexp ?x)) * pow2 (fexp ?x)"
      by (metis (no_types) mult.assoc of_int_mult)
    then show ?thesis by blast
  qed
  then obtain z where z: "?x = of_int z * pow2 (fexp ?x)" by blast
  then have "?x / pow2 (fexp ?x) = of_int z" by (simp add: nonzero_divide_eq_eq)
  then show ?thesis unfolding round_pos_def using z by simp
qed

lemma fl64_exact:
  assumes "\<bar>m\<bar> \<le> 2 ^ 53" and "-1074 \<le> k"
  shows "fl64 (of_int m * pow2 k) = of_int m * pow2 k"
proof -
  consider "m = 0" | "0 < m" | "m < 0" by linarith
  then show ?thesis
  proof cases
    case 2
    with assms show ?thesis by (simp add: fl64_def round_pos_exact)
  next
    case 3
    have "round_pos (of_int (- m) * pow2 k) = of_int (- m) * pow2 k"
      using 3 assms by (intro round_pos_exact) auto
    moreover have "of_int m * pow2 k < 0" using 3 by (intro mult_neg_pos) auto
    ultimately show ?thesis by (simp add: fl64_def)
  qed simp
qed

lemma fl64_of_int: "\<bar>n\<bar> \<le> 2 ^ 53 \<Longrightarrow> fl64 (of_int n) = of_int n"
  using fl64_exact [of n 0] by simp

text \<open>The relative error of one operation on a normal number is at most $2^{-53}$.\<close>

definition ulp_half :: rat where
  "ulp_half = pow2 (-53)"

definition normal_or_zero :: "rat \<Rightarrow> bool" where
  "normal_or_zero x \<longleftrightarrow> x = 0 \<or> pow2 (-1022) \<le> x"

lemma ulp_half_bounds: "0 < ulp_half" "ulp_half < 1"
  by (simp_all add: ulp_half_def) (simp add: pow2_def)

lemma fl64_relative:
  assumes "normal_or_zero x"
  shows "x * (1 - ulp_half) \<le> fl64 x \<and> fl64 x \<le> x * (1 + ulp_half)"
proof (cases "x = 0")
  case False
  with assms have nx: "pow2 (-1022) \<le> x" by (simp add: normal_or_zero_def)
  have x: "0 < x" using nx pow2_pos [of "-1022"] by linarith
  note b = flog2_bounds [OF x]
  have "pow2 (-1022) < pow2 (flog2 x + 1)" using nx b by linarith
  then have e: "fexp x = flog2 x - 52" by (simp add: fexp_def)
  let ?s = "pow2 (fexp x)"
  have "?s / 2 = pow2 (flog2 x) * ulp_half"
    unfolding e ulp_half_def by (simp add: pow2_diff) (simp add: pow2_def)
  also have "\<dots> \<le> x * ulp_half" using b ulp_half_bounds by (intro mult_right_mono) auto
  finally have half: "?s / 2 \<le> x * ulp_half" .
  let ?r = "of_int (rne (x / ?s)) :: rat"
  have near: "?r - x / ?s \<le> 1 / 2" "x / ?s - ?r \<le> 1 / 2" using rne_nearest [of "x / ?s"] by linarith+
  have "(?r - x / ?s) * ?s \<le> 1 / 2 * ?s" "(x / ?s - ?r) * ?s \<le> 1 / 2 * ?s"
    using mult_right_mono [OF near(1), of ?s] mult_right_mono [OF near(2), of ?s] by (simp_all add: less_imp_le)
  then have "?r * ?s - x \<le> ?s / 2" "x - ?r * ?s \<le> ?s / 2"
    by (simp_all add: left_diff_distrib)
  with half x show ?thesis by (simp add: fl64_def round_pos_def algebra_simps)
qed simp

lemma normal_fl64: "normal_or_zero x \<Longrightarrow> normal_or_zero (fl64 x)"
proof -
  assume "normal_or_zero x"
  then consider "x = 0" | "pow2 (-1022) \<le> x" by (auto simp: normal_or_zero_def)
  then show ?thesis
  proof cases
    case 2
    then have "fl64 (pow2 (-1022)) \<le> fl64 x" by (rule fl64_mono)
    moreover have "fl64 (pow2 (-1022)) = pow2 (-1022)" using fl64_exact [of 1 "-1022"] by simp
    ultimately show ?thesis by (simp add: normal_or_zero_def)
  qed (simp add: normal_or_zero_def)
qed

text \<open>A rounded number is a float64, so rounding it again leaves it as it is.\<close>

lemma fl64_idem: "fl64 (fl64 x) = fl64 x"
proof -
  have pos: "\<exists>m k. round_pos x = of_int m * pow2 k \<and> \<bar>m\<bar> \<le> 2 ^ 53 \<and> -1074 \<le> k" if x: "0 < x" for x
  proof -
    have "x < pow2 (flog2 x + 1)" using flog2_bounds [OF x] by simp
    also have "\<dots> \<le> pow2 (53 + fexp x)" by (simp add: fexp_def)
    finally have "x / pow2 (fexp x) < pow2 53" by (simp add: pow2_add pos_divide_less_eq)
    then have "x / pow2 (fexp x) \<le> of_int (2 ^ 53)" by (simp add: pow2_def)
    then have "rne (x / pow2 (fexp x)) \<le> 2 ^ 53" using rne_mono rne_of_int by metis
    moreover have "0 \<le> rne (x / pow2 (fexp x))"
      using rne_mono [of 0 "x / pow2 (fexp x)"] rne_of_int [of 0] x by simp
    ultimately show ?thesis
      by (intro exI [of _ "rne (x / pow2 (fexp x))"] exI [of _ "fexp x"]) (simp add: round_pos_def fexp_def)
  qed
  consider "x = 0" | "0 < x" | "0 < - x" by linarith
  then show ?thesis
  proof cases
    case 2
    with pos [OF this] show ?thesis by (metis fl64_def fl64_exact less_irrefl)
  next
    case 3
    then have "fl64 x = - round_pos (- x)" by (simp add: fl64_def)
    with pos [OF 3] show ?thesis by (metis fl64_exact fl64_minus)
  qed simp
qed

subsection \<open>What the clients rely on\<close>

locale float_rounding =
  fixes rnd :: "rat \<Rightarrow> rat"
  assumes rnd_mono: "x \<le> y \<Longrightarrow> rnd x \<le> rnd y"
    and rnd_zero: "rnd 0 = 0"
    and rnd_minus: "rnd (- x) = - rnd x"
    and rnd_int: "\<bar>n\<bar> \<le> 2 ^ 53 \<Longrightarrow> rnd (of_int n) = of_int n"
begin

lemma rnd_nonneg: "0 \<le> x \<Longrightarrow> 0 \<le> rnd x"
  using rnd_mono [of 0 x] by (simp add: rnd_zero)

lemma rnd_nonpos: "x \<le> 0 \<Longrightarrow> rnd x \<le> 0"
  using rnd_mono [of x 0] by (simp add: rnd_zero)

lemma add_mono: "a \<le> a' \<Longrightarrow> b \<le> b' \<Longrightarrow> rnd (a + b) \<le> rnd (a' + b')"
  by (rule rnd_mono) (rule add_mono)

lemma add_nonneg: "0 \<le> a \<Longrightarrow> 0 \<le> b \<Longrightarrow> 0 \<le> rnd (a + b)"
  by (simp add: rnd_nonneg)

lemma mult_mono: "a \<le> a' \<Longrightarrow> 0 \<le> b \<Longrightarrow> rnd (a * b) \<le> rnd (a' * b)"
  by (rule rnd_mono) (rule mult_right_mono)

lemma mult_nonneg: "0 \<le> a \<Longrightarrow> 0 \<le> b \<Longrightarrow> 0 \<le> rnd (a * b)"
  by (simp add: rnd_nonneg)

lemma of_int_nonneg: "0 \<le> n \<Longrightarrow> 0 \<le> rnd (of_int n)"
  by (simp add: rnd_nonneg)

lemma of_int_mono: "m \<le> n \<Longrightarrow> rnd (of_int m) \<le> rnd (of_int n)"
  by (rule rnd_mono) simp

lemma le_int_rnd: "of_int n \<le> x \<Longrightarrow> \<bar>n\<bar> \<le> 2 ^ 53 \<Longrightarrow> of_int n \<le> rnd x"
  using rnd_mono [of "of_int n" x] by (simp add: rnd_int)

lemma rnd_le_int: "x \<le> of_int n \<Longrightarrow> \<bar>n\<bar> \<le> 2 ^ 53 \<Longrightarrow> rnd x \<le> of_int n"
  using rnd_mono [of x "of_int n"] by (simp add: rnd_int)

end

interpretation f64: float_rounding fl64
  by unfold_locales (auto intro: fl64_mono fl64_of_int simp: fl64_minus)

subsection \<open>The operations\<close>

definition f_of_int :: "int \<Rightarrow> rat" where "f_of_int n = fl64 (of_int n)"
definition f_add :: "rat \<Rightarrow> rat \<Rightarrow> rat" where "f_add a b = fl64 (a + b)"
definition f_sub :: "rat \<Rightarrow> rat \<Rightarrow> rat" where "f_sub a b = fl64 (a - b)"
definition f_mul :: "rat \<Rightarrow> rat \<Rightarrow> rat" where "f_mul a b = fl64 (a * b)"
definition f_div :: "rat \<Rightarrow> rat \<Rightarrow> rat" where "f_div a b = fl64 (a / b)"

lemmas f_defs = f_of_int_def f_add_def f_sub_def f_mul_def f_div_def

text \<open>The conversion \<^verbatim>\<open>int64(x)\<close> of a float64 drops the fraction.\<close>

definition f_trunc :: "rat \<Rightarrow> int" where
  "f_trunc x = (if 0 \<le> x then \<lfloor>x\<rfloor> else \<lceil>x\<rceil>)"

lemma f_trunc_of_int [simp]: "f_trunc (of_int n) = n"
  by (simp add: f_trunc_def)

lemma f_trunc_mono:
  assumes "x \<le> y"
  shows "f_trunc x \<le> f_trunc y"
proof -
  consider "0 \<le> x" | "x < 0" "0 \<le> y" | "y < 0" by linarith
  then show ?thesis
  proof cases
    case 2
    then have "\<lceil>x\<rceil> \<le> 0" "0 \<le> \<lfloor>y\<rfloor>" by (simp_all add: ceiling_le_iff)
    then have "\<lceil>x\<rceil> \<le> \<lfloor>y\<rfloor>" by (rule order_trans)
    with 2 show ?thesis by (simp add: f_trunc_def)
  qed (use assms in \<open>auto simp: f_trunc_def intro: floor_mono ceiling_mono\<close>)
qed

lemma f_trunc_nonneg: "0 \<le> x \<Longrightarrow> 0 \<le> f_trunc x"
  by (simp add: f_trunc_def)

end
