(* ===== verification/Gateway_Config.thy ===== *)
theory Gateway_Config
  imports Go_Files Go_Float
begin

text \<open>
  The configuration (\<^verbatim>\<open>src/internal/config\<close>): the data read from YAML, its defaults, its
  validation, loading it together with the model directory, and the model files the admin UI
  writes and removes. The YAML library, the environment and the URL parser are arguments:
  \<open>decode\<close> and \<open>encode\<close> for one model document, \<open>env\<close> for \<^verbatim>\<open>os.Getenv\<close>, \<open>absolute_url\<close> for
  \<^verbatim>\<open>url.Parse\<close> succeeding with a scheme and a host.
\<close>

subsection \<open>Data\<close>

record Node =
  n_Name :: string
  n_URL :: string
  n_Token :: string
  n_MaxConcurrency :: int
  n_Weight :: int

record Provider =
  p_Slug :: string
  p_DisplayName :: string
  p_PublicURL :: string

record Server =
  s_Listen :: string
  s_AdminListen :: string
  s_AdminToken :: string
  s_DBPath :: string
  s_ReadTimeout :: duration
  s_KeepAliveInterval :: duration
  s_RawRetentionDays :: int
  s_SiteDir :: string
  s_ModelDir :: string

record Backend_cfg =
  bc_Name :: string
  bc_BaseURL :: string
  bc_APIKey :: string
  bc_MaxConcurrency :: int
  bc_Timeout :: duration
  bc_Weight :: int

record Pricing =
  pr_Prompt :: string
  pr_Completion :: string
  pr_CachedPrompt :: string
  pr_CacheWrite :: string
  pr_InternalReasoning :: string
  pr_ImagePrompt :: string

record Capacity =
  cap_PromptTPM :: int
  cap_CachedPromptTPM :: int
  cap_CompletionTPM :: int
  cap_RequestsPerMin :: int
  cap_Concurrency :: int

record Features =
  f_Tools :: bool
  f_StructuredOutputs :: bool
  f_Reasoning :: bool
  f_ResponseFormat :: bool
  f_Logprobs :: bool
  f_Seed :: bool

record Vision =
  v_MaxImageBytes :: int
  v_Formats :: "string list"

record Datacenter =
  dc_CountryCode :: string
  dc_Region :: string

record Compliance =
  co_ZDR :: bool
  co_HIPAA :: bool

record Model =
  m_ID :: string
  m_Name :: string
  m_UpstreamModel :: string
  m_Backends :: "string list"
  m_HuggingFaceID :: string
  m_Created :: string
  m_Quantization :: string
  m_Tokenizer :: string
  m_Description :: string
  m_ContextLength :: int
  m_MaxOutputTokens :: int
  m_Pricing :: Pricing
  m_Capacity :: Capacity
  m_Features :: Features
  m_Vision :: "Vision option"
  m_Datacenters :: "Datacenter list"
  m_Compliance :: Compliance
  m_IsReady :: "bool option"
  m_IsFree :: bool
  m_DiscountToUser :: rat
  m_DeprecationDate :: string
  m_OpenRouterSlug :: string

record Config =
  c_Provider :: Provider
  c_Server :: Server
  c_Backends :: "Backend_cfg list"
  c_Nodes :: "Node list"
  c_Models :: "Model list"

datatype config_error =
    ReadFailed string
  | ParseFailed string
  | ReadDirFailed string
  | SlugRequired
  | NoBackendOrNode
  | NodeNameRequired
  | DuplicateNode string
  | NodeURLNotAbsolute string string
  | BackendNameRequired
  | DuplicateBackend string
  | BackendURLNotAbsolute string string
  | ModelIDRequired
  | DuplicateModel string
  | ContextLengthNotPositive string
  | NoModelBackend string
  | UnknownBackend string string
  | DiscountTooLarge string
  | ModelDirNotConfigured
  | ModelNotDeclared string
  | IOFailed string

subsection \<open>Defaults\<close>

definition resolveSecret :: "(string \<Rightarrow> string) \<Rightarrow> string \<Rightarrow> string" where
  "resolveSecret env v =
     (if \<not> HasPrefix v ''$'' then v
      else let name = TrimPrefix v ''$'';
               name = TrimPrefix (TrimSuffix name ''}'') ''{''
           in env name)"

definition default_server :: "(string \<Rightarrow> string) \<Rightarrow> Server \<Rightarrow> Server" where
  "default_server env s =
     s\<lparr>s_Listen := (if s_Listen s = [] then '':8080'' else s_Listen s),
       s_AdminListen := (if s_AdminListen s = [] then '':8081'' else s_AdminListen s),
       s_DBPath := (if s_DBPath s = [] then ''llmfast.db'' else s_DBPath s),
       s_ReadTimeout := (if s_ReadTimeout s = 0 then 60 * second else s_ReadTimeout s),
       s_KeepAliveInterval :=
         (if s_KeepAliveInterval s = 0 then 10 * second else s_KeepAliveInterval s),
       s_RawRetentionDays := (if s_RawRetentionDays s = 0 then 30 else s_RawRetentionDays s),
       s_AdminToken :=
         (let token = resolveSecret env (s_AdminToken s)
          in if token = [] then env ''LLMFAST_ADMIN_TOKEN'' else token)\<rparr>"

definition default_node :: "(string \<Rightarrow> string) \<Rightarrow> Node \<Rightarrow> Node" where
  "default_node env n =
     (let n = (if n_MaxConcurrency n \<le> 0 then n\<lparr>n_MaxConcurrency := 64\<rparr> else n);
          n = (if n_Weight n \<le> 0 then n\<lparr>n_Weight := 1\<rparr> else n)
      in n\<lparr>n_Token := resolveSecret env (n_Token n)\<rparr>)"

definition default_backend :: "(string \<Rightarrow> string) \<Rightarrow> Backend_cfg \<Rightarrow> Backend_cfg" where
  "default_backend env b =
     (let b = (if bc_MaxConcurrency b \<le> 0 then b\<lparr>bc_MaxConcurrency := 64\<rparr> else b);
          b = (if bc_Timeout b = 0 then b\<lparr>bc_Timeout := 10 * minute\<rparr> else b);
          b = (if bc_Weight b \<le> 0 then b\<lparr>bc_Weight := 1\<rparr> else b)
      in b\<lparr>bc_APIKey := resolveSecret env (bc_APIKey b)\<rparr>)"

definition default_model :: "Model \<Rightarrow> Model" where
  "default_model m =
     m\<lparr>m_UpstreamModel := (if m_UpstreamModel m = [] then m_ID m else m_UpstreamModel m),
       m_Name := (if m_Name m = [] then m_ID m else m_Name m),
       m_MaxOutputTokens :=
         (if m_MaxOutputTokens m = 0 then m_ContextLength m else m_MaxOutputTokens m)\<rparr>"

definition applyDefaults :: "(string \<Rightarrow> string) \<Rightarrow> Config \<Rightarrow> Config" where
  "applyDefaults env c =
     c\<lparr>c_Server := default_server env (c_Server c),
       c_Nodes := map (default_node env) (c_Nodes c),
       c_Backends := map (default_backend env) (c_Backends c),
       c_Models := map default_model (c_Models c)\<rparr>"

subsection \<open>Validation\<close>

text \<open>The three loops; each carries the names seen so far and stops at the first error.\<close>

fun validate_nodes :: "(string \<Rightarrow> bool) \<Rightarrow> string list \<Rightarrow> Node list \<Rightarrow> config_error + string list" where
  "validate_nodes absolute_url names [] = Inr names"
| "validate_nodes absolute_url names (n # ns) =
     (if n_Name n = [] then Inl NodeNameRequired
      else if n_Name n \<in> set names then Inl (DuplicateNode (n_Name n))
      else if \<not> absolute_url (n_URL n) then Inl (NodeURLNotAbsolute (n_Name n) (n_URL n))
      else validate_nodes absolute_url (names @ [n_Name n]) ns)"

fun validate_backends ::
  "(string \<Rightarrow> bool) \<Rightarrow> string list \<Rightarrow> Backend_cfg list \<Rightarrow> config_error + string list" where
  "validate_backends absolute_url known [] = Inr known"
| "validate_backends absolute_url known (b # bs) =
     (if bc_Name b = [] then Inl BackendNameRequired
      else if bc_Name b \<in> set known then Inl (DuplicateBackend (bc_Name b))
      else if \<not> absolute_url (bc_BaseURL b) then
        Inl (BackendURLNotAbsolute (bc_Name b) (bc_BaseURL b))
      else validate_backends absolute_url (known @ [bc_Name b]) bs)"

fun validate_models ::
  "string list \<Rightarrow> string list \<Rightarrow> string list \<Rightarrow> Model list \<Rightarrow> config_error option" where
  "validate_models nodeNames known seen [] = None"
| "validate_models nodeNames known seen (m # ms) =
     (if m_ID m = [] then Some ModelIDRequired
      else if m_ID m \<in> set seen then Some (DuplicateModel (m_ID m))
      else if m_ContextLength m \<le> 0 then Some (ContextLengthNotPositive (m_ID m))
      else if m_Backends m = [] then Some (NoModelBackend (m_ID m))
      else case find (\<lambda>name. name \<notin> set known \<and> name \<notin> set nodeNames) (m_Backends m) of
        Some name \<Rightarrow> Some (UnknownBackend (m_ID m) name)
      | None \<Rightarrow>
          if m_DiscountToUser m \<ge> 1 then Some (DiscountTooLarge (m_ID m))
          else validate_models nodeNames known (seen @ [m_ID m]) ms)"

definition Validate :: "(string \<Rightarrow> bool) \<Rightarrow> Config \<Rightarrow> config_error option" where
  "Validate absolute_url c =
     (if p_Slug (c_Provider c) = [] then Some SlugRequired
      else if c_Backends c = [] \<and> c_Nodes c = [] then Some NoBackendOrNode
      else case validate_nodes absolute_url [] (c_Nodes c) of
        Inl e \<Rightarrow> Some e
      | Inr nodeNames \<Rightarrow>
          (case validate_backends absolute_url [] (c_Backends c) of
             Inl e \<Rightarrow> Some e
           | Inr known \<Rightarrow> validate_models nodeNames known [] (c_Models c)))"

definition find_model :: "Config \<Rightarrow> string \<Rightarrow> Model option" where
  "find_model c mid = find (\<lambda>m. m_ID m = mid) (c_Models c)"

subsection \<open>Loading\<close>

definition is_yaml_name :: "string \<Rightarrow> bool" where
  "is_yaml_name name = (HasSuffix name ''.yaml'' \<or> HasSuffix name ''.yml'')"

text \<open>
  The loop over the directory entries: directories and other files are skipped, the first
  file that cannot be read or does not decode ends the load.
\<close>

fun load_models ::
  "(bytes \<Rightarrow> string + Model) \<Rightarrow> listing \<Rightarrow> Model list \<Rightarrow> config_error + Model list" where
  "load_models decode [] acc = Inr acc"
| "load_models decode ((name, e) # es) acc =
     (if e = Subdir \<or> \<not> is_yaml_name name then load_models decode es acc
      else case e of
        File raw \<Rightarrow>
          (case decode raw of
             Inl _ \<Rightarrow> Inl (ParseFailed name)
           | Inr m \<Rightarrow> load_models decode es (acc @ [m]))
      | _ \<Rightarrow> Inl (ReadFailed name))"

definition ModelDirPath :: "Config \<Rightarrow> string \<Rightarrow> string" where
  "ModelDirPath c configPath =
     (let dir = s_ModelDir (c_Server c)
      in if dir = [] then [] else if IsAbs dir then dir else path_join (path_dir configPath) dir)"

definition loadModelDir ::
  "(bytes \<Rightarrow> string + Model) \<Rightarrow> (string \<Rightarrow> dir_state) \<Rightarrow> string \<Rightarrow> Config \<Rightarrow> config_error + Config" where
  "loadModelDir decode readDir base c =
     (let dir = s_ModelDir (c_Server c)
      in if dir = [] then Inr c
         else let dir = (if IsAbs dir then dir else path_join base dir)
              in case readDir dir of
                   Missing \<Rightarrow> Inr c
                 | ReadError _ \<Rightarrow> Inl (ReadDirFailed dir)
                 | Listing es \<Rightarrow>
                     (case load_models decode es (c_Models c) of
                        Inl e \<Rightarrow> Inl e
                      | Inr ms \<Rightarrow> Inr (c\<lparr>c_Models := ms\<rparr>)))"

text \<open>
  \<^verbatim>\<open>Load\<close> returns the configuration together with the validation error; the callers use it
  only when the error is nil, so the model returns one or the other.
\<close>

definition Load ::
  "(string \<Rightarrow> string) \<Rightarrow> (string \<Rightarrow> bool) \<Rightarrow> (string \<Rightarrow> bytes option) \<Rightarrow> (bytes \<Rightarrow> string + Config) \<Rightarrow>
   (bytes \<Rightarrow> string + Model) \<Rightarrow> (string \<Rightarrow> dir_state) \<Rightarrow> string \<Rightarrow> config_error + Config" where
  "Load env absolute_url readFile decodeConfig decode readDir path =
     (case readFile path of
        None \<Rightarrow> Inl (ReadFailed path)
      | Some raw \<Rightarrow>
          (case decodeConfig raw of
             Inl _ \<Rightarrow> Inl (ParseFailed path)
           | Inr c \<Rightarrow>
               (case loadModelDir decode readDir (path_dir path) (applyDefaults env c) of
                  Inl e \<Rightarrow> Inl e
                | Inr c \<Rightarrow>
                    let c = applyDefaults env c
                    in case Validate absolute_url c of Some e \<Rightarrow> Inl e | None \<Rightarrow> Inr c)))"

subsection \<open>Model files\<close>

definition file_char :: "char \<Rightarrow> char" where
  "file_char r =
     (if (97 \<le> (of_char r :: nat) \<and> (of_char r :: nat) \<le> 122) \<or> is_digit r \<or> r = CHR ''-'' \<or> r = CHR ''.''
      then r else CHR ''_'')"

definition ModelFileName :: "string \<Rightarrow> string" where
  "ModelFileName mid = map file_char (ToLower mid) @ ''.yaml''"

text \<open>
  The names tried: the canonical one, then the directory's entries. The canonical name has no
  slash and ends in \<^verbatim>\<open>.yaml\<close>, so it is the base of its own path.
\<close>

definition candidate_names :: "listing \<Rightarrow> string \<Rightarrow> string list" where
  "candidate_names es mid =
     ModelFileName mid # filter (\<lambda>n. n \<noteq> ModelFileName mid) (map fst es)"

definition declares :: "(bytes \<Rightarrow> string + Model) \<Rightarrow> listing \<Rightarrow> string \<Rightarrow> string \<Rightarrow> bool" where
  "declares decode es mid name =
     (is_yaml_name name \<and>
      (case read_file es name of
         None \<Rightarrow> False
       | Some raw \<Rightarrow> (case decode raw of Inl _ \<Rightarrow> False | Inr m \<Rightarrow> m_ID m = mid)))"

text \<open>\<^verbatim>\<open>FindModelFile\<close> gives the name inside the directory; \<open>None\<close> is the empty path.\<close>

definition FindModelFile ::
  "(bytes \<Rightarrow> string + Model) \<Rightarrow> dir_state \<Rightarrow> string \<Rightarrow> config_error + string option" where
  "FindModelFile decode d mid =
     (case d of
        Missing \<Rightarrow> Inr None
      | ReadError msg \<Rightarrow> Inl (ReadDirFailed msg)
      | Listing es \<Rightarrow> Inr (find (declares decode es mid) (candidate_names es mid)))"

definition model_file_header :: string where
  "model_file_header =
     ''# Managed by the LLMFast admin UI.'' @ [CHR 0x0A] @
     ''# Edit freely; it is plain config and is reloaded on SIGHUP.'' @ [CHR 0x0A] @
     ''# Delete this file to remove the model from the catalog.'' @ [CHR 0x0A, CHR 0x0A]"

text \<open>
  \<^verbatim>\<open>WriteModel\<close> on the state of the model directory. The failures of the operating system are
  arguments: \<open>mkdir_ok\<close>, \<open>write_ok\<close> and \<open>rename_ok\<close>; a failed write leaves no file the
  readers of the directory consider. The result is the name written, with the directory after
  the call.
\<close>

definition WriteModel ::
  "(bytes \<Rightarrow> string + Model) \<Rightarrow> (Model \<Rightarrow> string + bytes) \<Rightarrow> bool \<Rightarrow> bool \<Rightarrow> bool \<Rightarrow>
   string \<Rightarrow> dir_state \<Rightarrow> Model \<Rightarrow> (config_error + string) \<times> dir_state" where
  "WriteModel decode encode mkdir_ok write_ok rename_ok dir d m =
     (if dir = [] then (Inl ModelDirNotConfigured, d)
      else if m_ID m = [] then (Inl ModelIDRequired, d)
      else if \<not> mkdir_ok then (Inl (IOFailed ''create model dir''), d)
      else
        let d = (case d of Missing \<Rightarrow> Listing [] | _ \<Rightarrow> d);
            name = (case FindModelFile decode d (m_ID m) of
                      Inr (Some existing) \<Rightarrow> existing
                    | _ \<Rightarrow> ModelFileName (m_ID m))
        in case encode m of
             Inl e \<Rightarrow> (Inl (IOFailed ''encode model''), d)
           | Inr doc \<Rightarrow>
               if \<not> write_ok then (Inl (IOFailed ''write''), d)
               else
                 let raw = model_file_header @ doc;
                     tmp = name @ ''.tmp''
                 in case d of
                      Listing es \<Rightarrow>
                        if rename_ok then (Inr name, Listing (install_file es name raw))
                        else (Inl (IOFailed ''install''), Listing (AList.update tmp (File raw) es))
                    | _ \<Rightarrow> (if rename_ok then Inr name else Inl (IOFailed ''install''), d))"

definition RemoveModel ::
  "(bytes \<Rightarrow> string + Model) \<Rightarrow> string \<Rightarrow> dir_state \<Rightarrow> string \<Rightarrow> config_error option \<times> dir_state" where
  "RemoveModel decode dir d mid =
     (if dir = [] then (Some ModelDirNotConfigured, d)
      else case FindModelFile decode d mid of
        Inl e \<Rightarrow> (Some e, d)
      | Inr None \<Rightarrow> (Some (ModelNotDeclared mid), d)
      | Inr (Some name) \<Rightarrow>
          (case d of
             Listing es \<Rightarrow> (None, Listing (remove_file es name))
           | _ \<Rightarrow> (None, d)))"

subsection \<open>What validation promises\<close>

definition config_ok :: "(string \<Rightarrow> bool) \<Rightarrow> Config \<Rightarrow> bool" where
  "config_ok absolute_url c \<longleftrightarrow>
     p_Slug (c_Provider c) \<noteq> [] \<and> (c_Backends c \<noteq> [] \<or> c_Nodes c \<noteq> []) \<and>
     distinct (map n_Name (c_Nodes c)) \<and>
     (\<forall>n \<in> set (c_Nodes c). n_Name n \<noteq> [] \<and> absolute_url (n_URL n)) \<and>
     distinct (map bc_Name (c_Backends c)) \<and>
     (\<forall>b \<in> set (c_Backends c). bc_Name b \<noteq> [] \<and> absolute_url (bc_BaseURL b)) \<and>
     distinct (map m_ID (c_Models c)) \<and>
     (\<forall>m \<in> set (c_Models c). m_ID m \<noteq> [] \<and> 0 < m_ContextLength m \<and> m_Backends m \<noteq> [] \<and>
        m_DiscountToUser m < 1 \<and>
        (\<forall>name \<in> set (m_Backends m).
           name \<in> bc_Name ` set (c_Backends c) \<or> name \<in> n_Name ` set (c_Nodes c)))"

lemma validate_nodes_Inr:
  "validate_nodes au names ns = Inr names' \<longleftrightarrow>
     names' = names @ map n_Name ns \<and> distinct (map n_Name ns) \<and>
     set names \<inter> n_Name ` set ns = {} \<and> (\<forall>n \<in> set ns. n_Name n \<noteq> [] \<and> au (n_URL n))"
  by (induction ns arbitrary: names) auto

lemma validate_backends_Inr:
  "validate_backends au names bs = Inr names' \<longleftrightarrow>
     names' = names @ map bc_Name bs \<and> distinct (map bc_Name bs) \<and>
     set names \<inter> bc_Name ` set bs = {} \<and> (\<forall>b \<in> set bs. bc_Name b \<noteq> [] \<and> au (bc_BaseURL b))"
  by (induction bs arbitrary: names) auto

lemma validate_models_None:
  "validate_models nodes known seen ms = None \<longleftrightarrow>
     distinct (map m_ID ms) \<and> set seen \<inter> m_ID ` set ms = {} \<and>
     (\<forall>m \<in> set ms. m_ID m \<noteq> [] \<and> 0 < m_ContextLength m \<and> m_Backends m \<noteq> [] \<and>
        m_DiscountToUser m < 1 \<and> (\<forall>name \<in> set (m_Backends m). name \<in> set known \<or> name \<in> set nodes))"
proof (induction ms arbitrary: seen)
  case (Cons m ms)
  show ?case
    by (auto simp: Cons.IH find_None_iff not_less not_le split: option.splits dest!: find_SomeD)
qed simp

lemma Validate_None: "Validate au c = None \<longleftrightarrow> config_ok au c"
proof (cases "validate_nodes au [] (c_Nodes c)")
  case (Inl e)
  then have "\<not> config_ok au c"
    using validate_nodes_Inr [of au "[]" "c_Nodes c" "map n_Name (c_Nodes c)"]
    by (auto simp: config_ok_def)
  with Inl show ?thesis by (simp add: Validate_def)
next
  case nodes: (Inr nn)
  show ?thesis
  proof (cases "validate_backends au [] (c_Backends c)")
    case (Inl e)
    then have "\<not> config_ok au c"
      using validate_backends_Inr [of au "[]" "c_Backends c" "map bc_Name (c_Backends c)"]
      by (auto simp: config_ok_def)
    with Inl nodes show ?thesis by (simp add: Validate_def)
  next
    case (Inr bb)
    with nodes show ?thesis
      unfolding validate_nodes_Inr validate_backends_Inr
      by (simp add: Validate_def validate_models_None config_ok_def nodes Inr)
  qed
qed

subsection \<open>What the defaults establish\<close>

definition limits_ok :: "Config \<Rightarrow> bool" where
  "limits_ok c \<longleftrightarrow>
     s_Listen (c_Server c) \<noteq> [] \<and> s_AdminListen (c_Server c) \<noteq> [] \<and> s_DBPath (c_Server c) \<noteq> [] \<and>
     s_ReadTimeout (c_Server c) \<noteq> 0 \<and> s_KeepAliveInterval (c_Server c) \<noteq> 0 \<and>
     s_RawRetentionDays (c_Server c) \<noteq> 0 \<and>
     (\<forall>n \<in> set (c_Nodes c). 0 < n_MaxConcurrency n \<and> 0 < n_Weight n) \<and>
     (\<forall>b \<in> set (c_Backends c). 0 < bc_MaxConcurrency b \<and> 0 < bc_Weight b \<and> bc_Timeout b \<noteq> 0) \<and>
     (\<forall>m \<in> set (c_Models c). (m_ID m \<noteq> [] \<longrightarrow> m_UpstreamModel m \<noteq> [] \<and> m_Name m \<noteq> []) \<and>
        (m_MaxOutputTokens m = 0 \<longrightarrow> m_ContextLength m = 0))"

lemma default_model_sel:
  "m_ID (default_model m) = m_ID m"
  "m_ContextLength (default_model m) = m_ContextLength m"
  "m_UpstreamModel (default_model m) = (if m_UpstreamModel m = [] then m_ID m else m_UpstreamModel m)"
  "m_Name (default_model m) = (if m_Name m = [] then m_ID m else m_Name m)"
  "m_MaxOutputTokens (default_model m) =
     (if m_MaxOutputTokens m = 0 then m_ContextLength m else m_MaxOutputTokens m)"
  by (simp_all add: default_model_def)

lemma default_node_pos: "0 < n_MaxConcurrency (default_node env n) \<and> 0 < n_Weight (default_node env n)"
  by (simp add: default_node_def Let_def)

lemma default_backend_pos:
  "0 < bc_MaxConcurrency (default_backend env b) \<and> 0 < bc_Weight (default_backend env b) \<and>
   bc_Timeout (default_backend env b) \<noteq> 0"
  by (simp add: default_backend_def Let_def duration_defs)

lemma limits_ok_applyDefaults: "limits_ok (applyDefaults env c)"
  by (simp add: limits_ok_def applyDefaults_def default_server_def default_node_pos
      default_backend_pos default_model_sel duration_defs)

lemma resolveSecret_plain: "\<not> HasPrefix v ''$'' \<Longrightarrow> resolveSecret env v = v"
  by (simp add: resolveSecret_def)

lemma resolveSecret_idem:
  "(\<And>x. \<not> HasPrefix (env x) ''$'') \<Longrightarrow> resolveSecret env (resolveSecret env v) = resolveSecret env v"
  by (simp add: resolveSecret_def Let_def)

lemma default_node_idem:
  "(\<And>x. \<not> HasPrefix (env x) ''$'') \<Longrightarrow> default_node env (default_node env n) = default_node env n"
  by (simp add: default_node_def Let_def resolveSecret_idem)

lemma default_backend_idem:
  "(\<And>x. \<not> HasPrefix (env x) ''$'') \<Longrightarrow>
   default_backend env (default_backend env b) = default_backend env b"
  by (simp add: default_backend_def Let_def resolveSecret_idem duration_defs)

lemma default_model_idem: "default_model (default_model m) = default_model m"
  by (simp add: default_model_def)

lemma default_server_idem:
  "(\<And>x. \<not> HasPrefix (env x) ''$'') \<Longrightarrow>
   default_server env (default_server env s) = default_server env s"
  by (simp add: default_server_def Let_def resolveSecret_idem resolveSecret_plain duration_defs)

text \<open>
  C25: once a configuration loads, every name it declares is unique and not empty, every model
  refers only to declared backends or nodes and has a positive context length, and the
  defaults have made every admission limit and weight positive, whatever the environment,
  the YAML decoder and the file system return.
\<close>

theorem Load_ok:
  assumes "Load env absolute_url readFile decodeConfig decode readDir path = Inr c"
  shows "config_ok absolute_url c \<and> limits_ok c"
proof -
  from assms obtain c' where "c = applyDefaults env c'" and "Validate absolute_url c = None"
    by (auto simp: Load_def Let_def split: option.splits sum.splits)
  then show ?thesis by (simp add: Validate_None limits_ok_applyDefaults)
qed

text \<open>
  Applying the defaults a second time, as \<^verbatim>\<open>Load\<close> does after reading the model directory,
  changes nothing, provided no environment variable holds a value that itself starts with a
  dollar sign.
\<close>

theorem applyDefaults_idem:
  assumes "\<And>x. \<not> HasPrefix (env x) ''$''"
  shows "applyDefaults env (applyDefaults env c) = applyDefaults env c"
  using assms
  by (simp add: applyDefaults_def default_node_idem default_backend_idem default_model_idem
      default_server_idem o_def)

subsection \<open>Model files: writing, finding, removing\<close>

lemma HasSuffix_last: "HasSuffix s p \<Longrightarrow> p \<noteq> [] \<Longrightarrow> last s = last p"
  by (auto simp: HasSuffix_iff)

lemma tmp_not_yaml [simp]: "\<not> is_yaml_name (n @ ''.tmp'')"
  by (auto simp: is_yaml_name_def dest!: HasSuffix_last)

lemma is_yaml_ModelFileName [simp]: "is_yaml_name (ModelFileName mid)"
  by (simp add: is_yaml_name_def ModelFileName_def del: append.simps)

lemma ModelFileName_neq_tmp: "ModelFileName mid \<noteq> n @ ''.tmp''"
  by (metis is_yaml_ModelFileName tmp_not_yaml)

lemma declares_install_other:
  "k \<noteq> n \<Longrightarrow> declares decode (install_file es n raw) mid k = declares decode es mid k"
  by (cases "k = n @ ''.tmp''") (simp_all add: declares_def)

lemma find_filter_mono:
  assumes "find P xs = Some n" and "P' n" and "Q n" and "\<And>k. k \<noteq> n \<Longrightarrow> P' k \<Longrightarrow> P k"
  shows "find P' (filter Q xs) = Some n"
  using assms by (induction xs) (auto split: if_splits)

lemma keys_install:
  "map fst (install_file es n raw) =
     (let ks = filter (\<lambda>k. k \<noteq> n @ ''.tmp'') (map fst es) in if n \<in> set ks then ks else ks @ [n])"
proof -
  have "map fst (AList.delete k es) = filter (\<lambda>x. x \<noteq> k) (map fst es)" for k
    by (induction es) auto
  then show ?thesis by (simp add: install_file_def update_keys Let_def)
qed

lemma FindModelFile_name:
  assumes "find (declares decode es mid) (candidate_names es mid) = Some n"
  shows "is_yaml_name n" and "n \<in> fst ` set es"
proof -
  have d: "declares decode es mid n" using find_SomeD [OF assms] by simp
  then show "is_yaml_name n" by (simp add: declares_def)
  from d obtain raw where "read_file es n = Some raw"
    by (auto simp: declares_def split: option.splits)
  then show "n \<in> fst ` set es" by (rule read_file_Some_key)
qed

text \<open>The name \<open>WriteModel\<close> chooses, and what the directory finds after the write.\<close>

definition target_name :: "(bytes \<Rightarrow> string + Model) \<Rightarrow> listing \<Rightarrow> string \<Rightarrow> string" where
  "target_name decode es mid =
     (case find (declares decode es mid) (candidate_names es mid) of
        Some existing \<Rightarrow> existing | None \<Rightarrow> ModelFileName mid)"

lemma is_yaml_target [simp]: "is_yaml_name (target_name decode es mid)"
  by (auto simp: target_name_def split: option.splits dest: FindModelFile_name(1))

lemma find_after_install:
  assumes "decode raw = Inr m" and "m_ID m = mid" and "n = target_name decode es mid"
  shows "find (declares decode (install_file es n raw) mid)
              (candidate_names (install_file es n raw) mid) = Some n"
proof -
  let ?es = "install_file es n raw"
  have here: "declares decode ?es mid n" using assms by (simp add: declares_def)
  show ?thesis
  proof (cases "n = ModelFileName mid")
    case True
    with here show ?thesis by (simp add: candidate_names_def)
  next
    case False
    with assms(3) have old: "find (declares decode es mid) (candidate_names es mid) = Some n"
      by (auto simp: target_name_def split: option.splits)
    have ne: "n \<noteq> n @ ''.tmp''" by simp
    have "n \<in> set (filter (\<lambda>k. k \<noteq> n @ ''.tmp'') (map fst es))"
      using FindModelFile_name(2) [OF old] by auto
    then have "candidate_names ?es mid = filter (\<lambda>k. k \<noteq> n @ ''.tmp'') (candidate_names es mid)"
      using ModelFileName_neq_tmp [of mid n]
      by (auto simp: candidate_names_def keys_install Let_def intro: filter_cong simp: conj_commute)
    moreover have "find (declares decode ?es mid) (filter (\<lambda>k. k \<noteq> n @ ''.tmp'') (candidate_names es mid)) = Some n"
      using old here ne declares_install_other by (rule find_filter_mono [OF _ _ _ iffD1])
    ultimately show ?thesis by simp
  qed
qed

lemma WriteModel_ok:
  assumes "WriteModel decode encode mk wr rn dir d m = (Inr name, d')" and "\<And>e. d \<noteq> ReadError e"
  obtains es doc where "d = Listing es \<or> d = Missing \<and> es = []" and "encode m = Inr doc"
    and "name = target_name decode es (m_ID m)"
    and "d' = Listing (install_file es name (model_file_header @ doc))"
proof -
  define es where "es = (case d of Listing es \<Rightarrow> es | _ \<Rightarrow> [])"
  have d: "d = Listing es \<or> d = Missing \<and> es = []"
    using assms(2) by (cases d) (auto simp: es_def)
  then have "(case d of Missing \<Rightarrow> Listing [] | _ \<Rightarrow> d) = Listing es" by auto
  with assms(1) obtain doc where "encode m = Inr doc"
    "name = target_name decode es (m_ID m)"
    "d' = Listing (install_file es name (model_file_header @ doc))"
    by (auto simp: WriteModel_def FindModelFile_def target_name_def Let_def
        split: if_splits sum.splits option.splits)
  with d show thesis by (intro that) auto
qed

text \<open>
  C26: a model written through the admin UI is found again: after a successful \<^verbatim>\<open>WriteModel\<close>,
  \<^verbatim>\<open>FindModelFile\<close> returns the very file that was written, and that file decodes to the
  model. The YAML library is assumed to decode what it encoded behind the comment header.
\<close>

theorem WriteModel_FindModelFile:
  assumes yaml: "\<And>m doc. encode m = Inr doc \<Longrightarrow> decode (model_file_header @ doc) = Inr m"
    and "\<And>e. d \<noteq> ReadError e"
    and "WriteModel decode encode mk wr rn dir d m = (Inr name, d')"
  shows "FindModelFile decode d' (m_ID m) = Inr (Some name) \<and>
    (\<exists>es raw. d' = Listing es \<and> read_file es name = Some raw \<and> decode raw = Inr m)"
proof -
  from assms(3,2) obtain es doc where enc: "encode m = Inr doc"
    and n: "name = target_name decode es (m_ID m)"
    and d': "d' = Listing (install_file es name (model_file_header @ doc))"
    by (rule WriteModel_ok)
  note dec = yaml [OF enc]
  have "FindModelFile decode d' (m_ID m) = Inr (Some name)"
    using find_after_install [OF dec refl n] by (simp add: FindModelFile_def d')
  with dec d' read_file_install show ?thesis by blast
qed

text \<open>The names of the directory that declare a model.\<close>

definition declaring :: "(bytes \<Rightarrow> string + Model) \<Rightarrow> listing \<Rightarrow> string \<Rightarrow> string list" where
  "declaring decode es mid = filter (declares decode es mid) (map fst es)"

lemma declaring_target:
  "declaring decode es mid = [] \<or> declaring decode es mid = [n] \<Longrightarrow>
   n' \<noteq> target_name decode es mid \<Longrightarrow> \<not> declares decode es mid n'"
proof
  assume one: "declaring decode es mid = [] \<or> declaring decode es mid = [n]"
    and ne: "n' \<noteq> target_name decode es mid" and d: "declares decode es mid n'"
  have in_decl: "k \<in> set (declaring decode es mid)" if "declares decode es mid k" for k
  proof -
    from that obtain raw where "read_file es k = Some raw"
      by (auto simp: declares_def split: option.splits)
    with that show ?thesis by (auto simp: declaring_def dest!: read_file_Some_key)
  qed
  have "n' \<in> set (candidate_names es mid)"
    using in_decl [OF d] by (auto simp: candidate_names_def declaring_def)
  with d obtain t where t: "find (declares decode es mid) (candidate_names es mid) = Some t"
    by (metis find_None_iff option.exhaust)
  then have "target_name decode es mid = t" "declares decode es mid t"
    by (auto simp: target_name_def dest: find_SomeD)
  with one ne in_decl [OF d] in_decl [of t] show False by auto
qed

text \<open>
  As long as at most one file declares a model, writing it leaves exactly one, so a reload
  after the write never fails with a duplicate model because of it.
\<close>

theorem WriteModel_single_file:
  assumes yaml: "\<And>m doc. encode m = Inr doc \<Longrightarrow> decode (model_file_header @ doc) = Inr m"
    and one: "length (declaring decode es (m_ID m)) \<le> 1" and dist: "distinct (map fst es)"
    and wr: "WriteModel decode encode mk wr rn dir (Listing es) m = (Inr name, Listing es')"
  shows "declaring decode es' (m_ID m) = [name]"
proof -
  from wr obtain doc where enc: "encode m = Inr doc"
    and n: "name = target_name decode es (m_ID m)"
    and es': "es' = install_file es name (model_file_header @ doc)"
    by (rule WriteModel_ok) auto
  have one': "declaring decode es (m_ID m) = [] \<or>
      declaring decode es (m_ID m) = [hd (declaring decode es (m_ID m))]"
    using one by (cases "declaring decode es (m_ID m)") auto
  have "declares decode es' (m_ID m) k = (k = name)" for k
    using declaring_target [OF one', of k] declares_install_other [of k name decode es]
      yaml [OF enc] is_yaml_target [of decode es "m_ID m"]
    by (cases "k = name") (auto simp: es' n declares_def)
  then have "declaring decode es' (m_ID m) = filter (\<lambda>k. k = name) (map fst es')"
    unfolding declaring_def by (intro filter_cong) simp_all
  moreover have "distinct (map fst es')" "name \<in> set (map fst es')"
    using dist by (auto simp: es' install_file_def dom_update)
  ultimately show ?thesis by (simp add: filter_eq_single)
qed

text \<open>
  Removing a model that one file declares deletes that file and no other, and the model is
  not found afterwards.
\<close>

theorem RemoveModel_undeclares:
  assumes "dir \<noteq> []" and "declaring decode es mid = [n]"
  shows "RemoveModel decode dir (Listing es) mid = (None, Listing (remove_file es n)) \<and>
         FindModelFile decode (Listing (remove_file es n)) mid = Inr None"
proof -
  let ?es = "remove_file es n"
  have "n \<in> set (filter (declares decode es mid) (map fst es))"
    using assms(2) by (simp add: declaring_def)
  then have n: "declares decode es mid n" "n \<in> set (map fst es)" by auto
  have tn: "target_name decode es mid = n"
    using n declaring_target [of decode es mid n n] assms(2) by metis
  have "find (declares decode es mid) (candidate_names es mid) \<noteq> None"
  proof -
    have "n \<in> set (candidate_names es mid)" using n(2) by (auto simp: candidate_names_def)
    with n(1) show ?thesis by (metis find_None_iff)
  qed
  with tn have f: "find (declares decode es mid) (candidate_names es mid) = Some n"
    by (auto simp: target_name_def)
  have "\<not> declares decode ?es mid k" for k
    using declaring_target [of decode es mid n k] tn assms(2)
    by (cases "k = n") (auto simp: declares_def read_file_remove)
  then show ?thesis using assms(1) f
    by (simp add: RemoveModel_def FindModelFile_def find_None_iff)
qed

subsection \<open>Concrete configurations\<close>

definition sample_model :: "string \<Rightarrow> Model" where
  "sample_model mid =
     \<lparr>m_ID = mid, m_Name = [], m_UpstreamModel = [], m_Backends = [''gpu1''],
      m_HuggingFaceID = [], m_Created = [], m_Quantization = ''fp8'', m_Tokenizer = [],
      m_Description = [], m_ContextLength = 8192, m_MaxOutputTokens = 0,
      m_Pricing = \<lparr>pr_Prompt = ''0.000001'', pr_Completion = ''0.000002'', pr_CachedPrompt = [],
        pr_CacheWrite = [], pr_InternalReasoning = [], pr_ImagePrompt = []\<rparr>,
      m_Capacity = \<lparr>cap_PromptTPM = 0, cap_CachedPromptTPM = 0, cap_CompletionTPM = 0,
        cap_RequestsPerMin = 0, cap_Concurrency = 0\<rparr>,
      m_Features = \<lparr>f_Tools = True, f_StructuredOutputs = False, f_Reasoning = False,
        f_ResponseFormat = False, f_Logprobs = False, f_Seed = False\<rparr>,
      m_Vision = None, m_Datacenters = [], m_Compliance = \<lparr>co_ZDR = False, co_HIPAA = False\<rparr>,
      m_IsReady = None, m_IsFree = False, m_DiscountToUser = 0, m_DeprecationDate = [],
      m_OpenRouterSlug = []\<rparr>"

definition sample_config :: Config where
  "sample_config =
     \<lparr>c_Provider = \<lparr>p_Slug = ''acme'', p_DisplayName = [], p_PublicURL = []\<rparr>,
      c_Server = \<lparr>s_Listen = [], s_AdminListen = [], s_AdminToken = ''$TOKEN'', s_DBPath = [],
        s_ReadTimeout = 0, s_KeepAliveInterval = 0, s_RawRetentionDays = 0, s_SiteDir = [],
        s_ModelDir = ''models''\<rparr>,
      c_Backends = [\<lparr>bc_Name = ''gpu1'', bc_BaseURL = ''http://gpu1'', bc_APIKey = [],
        bc_MaxConcurrency = 0, bc_Timeout = 0, bc_Weight = 0\<rparr>],
      c_Nodes = [], c_Models = [sample_model ''m'']\<rparr>"

text \<open>A YAML library that knows one document.\<close>

definition one_doc_encode :: "string \<Rightarrow> Model \<Rightarrow> string + bytes" where
  "one_doc_encode mid m = (if m = sample_model mid then Inr ''doc'' else Inl ''unknown'')"

definition one_doc_decode :: "string \<Rightarrow> bytes \<Rightarrow> string + Model" where
  "one_doc_decode mid raw =
     (if raw = model_file_header @ ''doc'' then Inr (sample_model mid) else Inl ''syntax'')"

lemma one_doc_yaml:
  "one_doc_encode mid m = Inr doc \<Longrightarrow> one_doc_decode mid (model_file_header @ doc) = Inr m"
  by (simp add: one_doc_encode_def one_doc_decode_def split: if_splits)

definition sample_load :: "config_error + Config" where
  "sample_load = Load (\<lambda>_. ''secret'') (\<lambda>u. HasPrefix u ''http://'') (\<lambda>_. Some [])
     (\<lambda>_. Inr sample_config) (\<lambda>_. Inl []) (\<lambda>_. Missing) ''config.yaml''"

lemma sample_load_ok: "\<exists>c. sample_load = Inr c"
proof -
  have "\<not> isl sample_load" by code_simp
  then show ?thesis by (metis sum.collapse(2))
qed

theorem Load_ok_witness: "\<exists>c. sample_load = Inr c \<and> limits_ok c"
  using sample_load_ok Load_ok unfolding sample_load_def by blast

theorem applyDefaults_idem_witness:
  "applyDefaults (\<lambda>_. ''secret'') (applyDefaults (\<lambda>_. ''secret'') sample_config) =
   applyDefaults (\<lambda>_. ''secret'') sample_config"
  by (rule applyDefaults_idem) (simp add: HasPrefix_def)

lemma sample_write:
  "WriteModel (one_doc_decode ''a/b'') (one_doc_encode ''a/b'') True True True ''models'' (Listing [])
     (sample_model ''a/b'') =
   (Inr ''a_b.yaml'', Listing [(''a_b.yaml'', File (model_file_header @ ''doc''))])"
  by code_simp

theorem WriteModel_FindModelFile_witness:
  "FindModelFile (one_doc_decode ''a/b'')
     (Listing [(''a_b.yaml'', File (model_file_header @ ''doc''))]) (m_ID (sample_model ''a/b'')) =
   Inr (Some ''a_b.yaml'')"
  using WriteModel_FindModelFile [OF one_doc_yaml _ sample_write] by blast

theorem WriteModel_single_file_witness:
  "declaring (one_doc_decode ''a/b'') [(''a_b.yaml'', File (model_file_header @ ''doc''))]
     (m_ID (sample_model ''a/b'')) = [''a_b.yaml'']"
  by (rule WriteModel_single_file [OF one_doc_yaml _ _ sample_write]) (simp_all add: declaring_def)

theorem RemoveModel_undeclares_witness:
  "RemoveModel (one_doc_decode ''a/b'') ''models''
     (Listing [(''a_b.yaml'', File (model_file_header @ ''doc''))]) ''a/b'' =
   (None, Listing (remove_file [(''a_b.yaml'', File (model_file_header @ ''doc''))] ''a_b.yaml''))"
proof -
  have "declaring (one_doc_decode ''a/b'') [(''a_b.yaml'', File (model_file_header @ ''doc''))] ''a/b''
    = [''a_b.yaml'']" by code_simp
  then show ?thesis using RemoveModel_undeclares by blast
qed

text \<open>
  Two ids that differ only in a character outside the safe set have the same canonical name:
  writing the second model replaces the file of the first, which is then no longer found.
\<close>

definition two_doc_decode :: "bytes \<Rightarrow> string + Model" where
  "two_doc_decode raw =
     (if HasSuffix raw ''doc1'' then Inr (sample_model ''a/b'')
      else if HasSuffix raw ''doc2'' then Inr (sample_model ''a_b'') else Inl ''syntax'')"

theorem ModelFileName_collision:
  "ModelFileName ''a/b'' = ModelFileName ''a_b'' \<and>
   (case WriteModel two_doc_decode (\<lambda>_. Inr ''doc1'') True True True ''models'' (Listing []) (sample_model ''a/b'') of
      (_, d) \<Rightarrow>
        FindModelFile two_doc_decode d ''a/b'' = Inr (Some ''a_b.yaml'') \<and>
        (case WriteModel two_doc_decode (\<lambda>_. Inr ''doc2'') True True True ''models'' d (sample_model ''a_b'') of
           (_, d) \<Rightarrow> FindModelFile two_doc_decode d ''a/b'' = Inr None))"
  by code_simp

end
