(* ===== verification/Upstream_Pool.thy ===== *)
theory Upstream_Pool
  imports Gateway_Config
begin

text \<open>
  The backend pool (\<^verbatim>\<open>src/internal/upstream/pool.go\<close>): admission slots, least-loaded selection,
  and the dynamic backends reported by node agents.

  A \<^verbatim>\<open>*Backend\<close> is an index into the heap \<open>p_heap\<close>, because the same object is reachable from
  several maps and from leases, and \<^verbatim>\<open>SyncNode\<close> keeps it when the endpoint is unchanged. The
  operations under \<^verbatim>\<open>p.mu\<close> are functions on the pool. The lock-free slot counter is modelled
  twice: as the sequential function \<open>acquire\<close>, and as a step relation \<open>slot_step\<close> in which the
  load, the comparison and the compare-and-swap of several goroutines interleave. The HTTP
  client of a backend is not represented.
\<close>

subsection \<open>Data\<close>

record Backend =
  b_Name :: string
  b_BaseURL :: string
  b_APIKey :: string
  b_Timeout :: duration
  b_maxConc :: int
  b_weight :: int
  b_inflight :: int
  b_healthy :: bool
  b_lastErr :: string

type_synonym bref = nat

datatype pool_error = ErrNoCapacity | ErrNoBackend

record Lease =
  l_B :: bref
  l_done :: bool

record Pool =
  p_heap :: "Backend list"
  p_backends :: "(string \<times> bref) list"
  p_byModel :: "(string \<times> bref list) list"
  p_dynamic :: "(string \<times> bref) list"
  p_dynamicByModel :: "(string \<times> bref list) list"
  p_dynamicByNode :: "(string \<times> string list) list"

record DynamicBackend =
  d_Node :: string
  d_ModelID :: string
  d_BaseURL :: string
  d_MaxConcurrency :: int
  d_Weight :: int

text \<open>A missing key of a map of slices reads as the empty slice; \<^verbatim>\<open>m[k] = append(m[k], v)\<close>.\<close>

definition lookup_list :: "('k \<times> 'v list) list \<Rightarrow> 'k \<Rightarrow> 'v list" where
  "lookup_list m k = (case map_of m k of None \<Rightarrow> [] | Some vs \<Rightarrow> vs)"

definition append_at :: "('k \<times> 'v list) list \<Rightarrow> 'k \<Rightarrow> 'v \<Rightarrow> ('k \<times> 'v list) list" where
  "append_at m k v = AList.update k (lookup_list m k @ [v]) m"

lemma lookup_append_at [simp]:
  "lookup_list (append_at m k v) k' = (if k' = k then lookup_list m k @ [v] else lookup_list m k')"
  by (simp add: lookup_list_def append_at_def)

lemma lookup_list_Nil [simp]: "lookup_list [] k = []"
  by (simp add: lookup_list_def)

subsection \<open>Slots\<close>

definition Inflight :: "Backend \<Rightarrow> int" where "Inflight b = b_inflight b"
definition MaxConc :: "Backend \<Rightarrow> int" where "MaxConc b = b_maxConc b"
definition Healthy :: "Backend \<Rightarrow> bool" where "Healthy b = b_healthy b"
definition LastErr :: "Backend \<Rightarrow> string" where "LastErr b = b_lastErr b"

definition acquire :: "Backend \<Rightarrow> bool \<times> Backend" where
  "acquire b =
     (let cur = b_inflight b
      in if cur \<ge> b_maxConc b then (False, b) else (True, b\<lparr>b_inflight := cur + 1\<rparr>))"

definition release :: "Backend \<Rightarrow> Backend" where
  "release b = b\<lparr>b_inflight := b_inflight b - 1\<rparr>"

definition Release :: "Lease option \<Rightarrow> Pool \<Rightarrow> Lease option \<times> Pool" where
  "Release l p =
     (case l of
        None \<Rightarrow> (None, p)
      | Some l \<Rightarrow>
          if l_done l then (Some l, p)
          else (Some (l\<lparr>l_done := True\<rparr>),
                p\<lparr>p_heap := (p_heap p)[l_B l := release (p_heap p ! l_B l)]\<rparr>))"

definition markDown :: "string \<Rightarrow> Backend \<Rightarrow> Backend" where
  "markDown reason b = b\<lparr>b_healthy := False, b_lastErr := reason\<rparr>"

text \<open>The outcome of the HTTP request of a health probe.\<close>

datatype probe_result = RequestError string | TransportError string | Status int string

definition probe :: "probe_result \<Rightarrow> Backend \<Rightarrow> Backend" where
  "probe r b =
     (case r of
        RequestError e \<Rightarrow> markDown e b
      | TransportError e \<Rightarrow> markDown e b
      | Status code status \<Rightarrow>
          if code \<noteq> 200 then markDown (''health probe status '' @ status) b
          else b\<lparr>b_healthy := True, b_lastErr := []\<rparr>)"

text \<open>\<^verbatim>\<open>probeAll\<close> probes every static backend; each probe touches only its own backend.\<close>

definition probeAll :: "(bref \<Rightarrow> probe_result) \<Rightarrow> Pool \<Rightarrow> Pool" where
  "probeAll outcome p =
     p\<lparr>p_heap := fold (\<lambda>(name, r) h. h[r := probe (outcome r) (h ! r)]) (p_backends p) (p_heap p)\<rparr>"

fun trimSlash :: "string \<Rightarrow> string" where
  "trimSlash s = (if s \<noteq> [] \<and> last s = CHR ''/'' then trimSlash (butlast s) else s)"

declare trimSlash.simps [simp del]

definition maxOf :: "int \<Rightarrow> int \<Rightarrow> int" where
  "maxOf a b = (if a > b then a else b)"

subsection \<open>Construction\<close>

definition static_backend :: "Backend_cfg \<Rightarrow> Backend" where
  "static_backend bc =
     \<lparr>b_Name = bc_Name bc, b_BaseURL = trimSlash (bc_BaseURL bc), b_APIKey = bc_APIKey bc,
      b_Timeout = bc_Timeout bc, b_maxConc = int32 (bc_MaxConcurrency bc),
      b_weight = int32 (bc_Weight bc), b_inflight = 0, b_healthy = True, b_lastErr = []\<rparr>"

definition add_static :: "Backend_cfg \<Rightarrow> Pool \<Rightarrow> Pool" where
  "add_static bc p =
     p\<lparr>p_heap := p_heap p @ [static_backend bc],
       p_backends := AList.update (bc_Name bc) (length (p_heap p)) (p_backends p)\<rparr>"

definition add_route :: "string \<Rightarrow> string \<Rightarrow> Pool \<Rightarrow> Pool" where
  "add_route mid name p =
     (case map_of (p_backends p) name of
        None \<Rightarrow> p
      | Some b \<Rightarrow> p\<lparr>p_byModel := append_at (p_byModel p) mid b\<rparr>)"

definition empty_pool :: Pool where
  "empty_pool = \<lparr>p_heap = [], p_backends = [], p_byModel = [], p_dynamic = [],
     p_dynamicByModel = [], p_dynamicByNode = []\<rparr>"

definition NewPool :: "Config \<Rightarrow> Pool" where
  "NewPool cfg =
     fold (\<lambda>m. fold (add_route (m_ID m)) (m_Backends m)) (c_Models cfg)
       (fold add_static (c_Backends cfg) empty_pool)"

subsection \<open>Dynamic backends\<close>

definition dyn_key :: "string \<Rightarrow> string \<Rightarrow> string" where
  "dyn_key node mid = node @ ''/'' @ mid"

definition dynamic_backend :: "string \<Rightarrow> DynamicBackend \<Rightarrow> Backend" where
  "dynamic_backend key e =
     \<lparr>b_Name = key, b_BaseURL = trimSlash (d_BaseURL e), b_APIKey = [], b_Timeout = 10 * minute,
      b_maxConc = int32 (maxOf (d_MaxConcurrency e) 1),
      b_weight = int32 (if d_Weight e \<le> 0 then 1 else d_Weight e),
      b_inflight = 0, b_healthy = True, b_lastErr = []\<rparr>"

text \<open>One round of the first loop: reuse the object when the endpoint is the same.\<close>

definition sync_entry :: "string \<Rightarrow> DynamicBackend \<Rightarrow> Pool \<Rightarrow> Pool" where
  "sync_entry node e p =
     (let key = dyn_key node (d_ModelID e);
          fresh = p\<lparr>p_heap := p_heap p @ [dynamic_backend key e],
                    p_dynamic := AList.update key (length (p_heap p)) (p_dynamic p)\<rparr>
      in case map_of (p_dynamic p) key of
           None \<Rightarrow> fresh
         | Some b \<Rightarrow>
             if b_BaseURL (p_heap p ! b) = trimSlash (d_BaseURL e)
             then p\<lparr>p_heap := (p_heap p)[b :=
                    (p_heap p ! b)\<lparr>b_maxConc := int32 (maxOf (d_MaxConcurrency e) 1)\<rparr>]\<rparr>
             else fresh)"

definition keep_keys :: "string \<Rightarrow> DynamicBackend list \<Rightarrow> string list" where
  "keep_keys node entries = remdups (map (\<lambda>e. dyn_key node (d_ModelID e)) entries)"

definition index_own :: "(string \<times> bref) list \<Rightarrow> string \<Rightarrow> DynamicBackend list \<Rightarrow>
    (string \<times> bref list) list \<Rightarrow> (string \<times> bref list) list" where
  "index_own dynamic node entries =
     fold (\<lambda>e acc. case map_of dynamic (dyn_key node (d_ModelID e)) of
             None \<Rightarrow> acc | Some b \<Rightarrow> append_at acc (d_ModelID e) b) entries"

text \<open>
  The loop over the keys of one node; \<^verbatim>\<open>key[len(otherNode)+1:]\<close> is the model. Every key of a
  node starts with the node's name and a slash, so the slice is in range.
\<close>

definition index_keys :: "(string \<times> bref) list \<Rightarrow> string \<Rightarrow> string list \<Rightarrow>
    (string \<times> bref list) list \<Rightarrow> (string \<times> bref list) list" where
  "index_keys dynamic other keys =
     fold (\<lambda>key acc. case map_of dynamic key of
             None \<Rightarrow> acc | Some b \<Rightarrow> append_at acc (drop (length other + 1) key) b) keys"

text \<open>
  \<^verbatim>\<open>SyncNode\<close>. The order in which the map \<^verbatim>\<open>keep\<close> and the map \<^verbatim>\<open>dynamicByNode\<close> are ranged over is
  given by \<open>ordk\<close> and \<open>ordn\<close>.
\<close>

definition SyncNode ::
  "(string list \<Rightarrow> string list) \<Rightarrow> ((string \<times> string list) list \<Rightarrow> (string \<times> string list) list) \<Rightarrow>
   string \<Rightarrow> DynamicBackend list \<Rightarrow> Pool \<Rightarrow> Pool" where
  "SyncNode ordk ordn node entries p =
     (let p = fold (sync_entry node) entries p;
          keep = keep_keys node entries;
          gone = filter (\<lambda>key. key \<notin> set keep) (lookup_list (p_dynamicByNode p) node);
          dynamic = fold AList.delete gone (p_dynamic p);
          byNode = AList.update node (ordk keep) (p_dynamicByNode p);
          byModel = index_own dynamic node entries [];
          byModel = fold (\<lambda>(other, keys) acc.
                       if other = node then acc else index_keys dynamic other keys acc)
                     (ordn byNode) byModel
      in p\<lparr>p_dynamic := dynamic, p_dynamicByNode := byNode, p_dynamicByModel := byModel\<rparr>)"

definition DropNode ::
  "((string \<times> string list) list \<Rightarrow> (string \<times> string list) list) \<Rightarrow> string \<Rightarrow> Pool \<Rightarrow> Pool" where
  "DropNode ordn node p =
     (let dynamic = fold AList.delete (lookup_list (p_dynamicByNode p) node) (p_dynamic p);
          byNode = AList.delete node (p_dynamicByNode p);
          byModel = fold (\<lambda>(n, keys). index_keys dynamic n keys) (ordn byNode) []
      in p\<lparr>p_dynamic := dynamic, p_dynamicByNode := byNode, p_dynamicByModel := byModel\<rparr>)"

subsection \<open>Queries\<close>

definition Available :: "Pool \<Rightarrow> string \<Rightarrow> bool" where
  "Available p model =
     list_ex (\<lambda>b. b_healthy (p_heap p ! b))
       (lookup_list (p_byModel p) model @ lookup_list (p_dynamicByModel p) model)"

definition DynamicModels :: "(string list \<Rightarrow> string list) \<Rightarrow> Pool \<Rightarrow> string list" where
  "DynamicModels ord p = ord (map fst (p_dynamicByModel p))"

definition Backends :: "(bref list \<Rightarrow> bref list) \<Rightarrow> Pool \<Rightarrow> bref list" where
  "Backends ord p = ord (map snd (p_backends p)) @ ord (map snd (p_dynamic p))"

definition Pool_Get :: "Pool \<Rightarrow> string \<Rightarrow> bref option" where
  "Pool_Get p name = map_of (p_backends p) name"

subsection \<open>Acquire\<close>

definition candidates :: "Pool \<Rightarrow> string \<Rightarrow> bref list" where
  "candidates p model =
     (let static = lookup_list (p_byModel p) model; dyn = lookup_list (p_dynamicByModel p) model
      in if dyn = [] then static else if static = [] then dyn else static @ dyn)"

definition load_of :: "Backend \<Rightarrow> rat" where
  "load_of b = f_div (f_of_int (b_inflight b)) (f_of_int (b_weight b))"

text \<open>The scan: the best candidate so far, its load, and whether any candidate was healthy.\<close>

fun scan :: "Backend list \<Rightarrow> bref list \<Rightarrow> bref option \<Rightarrow> rat \<Rightarrow> bool \<Rightarrow> bref option \<times> rat \<times> bool" where
  "scan h [] best bestLoad anyHealthy = (best, bestLoad, anyHealthy)"
| "scan h (b # bs) best bestLoad anyHealthy =
     (if \<not> b_healthy (h ! b) then scan h bs best bestLoad anyHealthy
      else let load = load_of (h ! b)
           in if load < bestLoad then scan h bs (Some b) load True
              else scan h bs best bestLoad True)"

text \<open>The second loop: the first healthy candidate with a free slot.\<close>

fun first_free :: "Backend list \<Rightarrow> bref list \<Rightarrow> bref option" where
  "first_free h [] = None"
| "first_free h (b # bs) =
     (if b_healthy (h ! b) \<and> fst (acquire (h ! b)) then Some b else first_free h bs)"

definition take_slot :: "bref \<Rightarrow> Pool \<Rightarrow> (pool_error + Lease) \<times> Pool" where
  "take_slot b p =
     (Inr \<lparr>l_B = b, l_done = False\<rparr>, p\<lparr>p_heap := (p_heap p)[b := snd (acquire (p_heap p ! b))]\<rparr>)"

definition Acquire :: "Pool \<Rightarrow> string \<Rightarrow> (pool_error + Lease) \<times> Pool" where
  "Acquire p model =
     (let cs = candidates p model; h = p_heap p
      in if cs = [] then (Inl ErrNoBackend, p)
         else case scan h cs None (2 ^ 30) False of
           (best, _, anyHealthy) \<Rightarrow>
             if \<not> anyHealthy then (Inl ErrNoBackend, p)
             else case (case best of Some b \<Rightarrow> if fst (acquire (h ! b)) then Some b else None | None \<Rightarrow> None) of
               Some b \<Rightarrow> take_slot b p
             | None \<Rightarrow>
                 (case first_free h cs of
                    Some b \<Rightarrow> take_slot b p
                  | None \<Rightarrow> (Inl ErrNoCapacity, p)))"

subsection \<open>Admission: what Acquire returns\<close>

definition full :: "Backend \<Rightarrow> bool" where
  "full b \<longleftrightarrow> b_maxConc b \<le> b_inflight b"

lemma acquire_free [simp]: "fst (acquire b) \<longleftrightarrow> \<not> full b"
  by (simp add: acquire_def full_def Let_def)

lemma acquire_snd: "\<not> full b \<Longrightarrow> snd (acquire b) = b\<lparr>b_inflight := b_inflight b + 1\<rparr>"
  by (simp add: acquire_def full_def Let_def)

lemma acquire_keeps_cap: "b_inflight b \<le> b_maxConc b \<Longrightarrow> b_inflight (snd (acquire b)) \<le> b_maxConc (snd (acquire b))"
  by (simp add: acquire_def Let_def)

definition healthy_of :: "Backend list \<Rightarrow> bref list \<Rightarrow> bref list" where
  "healthy_of h cs = filter (\<lambda>b. b_healthy (h ! b)) cs"

lemma scan_any: "scan h cs best l a = (best', l', a') \<Longrightarrow> a' \<longleftrightarrow> a \<or> healthy_of h cs \<noteq> []"
  by (induction h cs best l a rule: scan.induct) (auto simp: healthy_of_def Let_def split: if_splits)

text \<open>The scan keeps the minimum: nothing healthy is below the best load it returns.\<close>

lemma scan_best:
  "scan h cs best l a = (best', l', a') \<Longrightarrow>
   l' \<le> l \<and> (\<forall>b \<in> set (healthy_of h cs). l' \<le> load_of (h ! b)) \<and>
   (best' = best \<and> l' = l \<or>
    (\<exists>b \<in> set (healthy_of h cs). best' = Some b \<and> l' = load_of (h ! b)))"
  by (induction h cs best l a rule: scan.induct)
     (auto simp: healthy_of_def Let_def not_less split: if_splits intro: order_trans less_imp_le
       dest: order_trans)

lemma first_free_Some:
  "first_free h cs = Some b \<Longrightarrow> b \<in> set (healthy_of h cs) \<and> \<not> full (h ! b)"
  by (induction cs) (auto simp: healthy_of_def split: if_splits)

lemma first_free_None:
  "first_free h cs = None \<longleftrightarrow> (\<forall>b \<in> set (healthy_of h cs). full (h ! b))"
  by (induction cs) (auto simp: healthy_of_def)

lemma candidates_set:
  "set (candidates p model) =
     set (lookup_list (p_byModel p) model) \<union> set (lookup_list (p_dynamicByModel p) model)"
  by (simp add: candidates_def Let_def)

text \<open>
  The case analysis behind every statement about \<^verbatim>\<open>Acquire\<close>: no healthy candidate, all of them
  full, or a slot on the best candidate or, when that one is full, on another free one.
\<close>

lemma Acquire_cases:
  obtains (no_backend) "healthy_of (p_heap p) (candidates p model) = []"
      "Acquire p model = (Inl ErrNoBackend, p)"
  | (no_capacity) "healthy_of (p_heap p) (candidates p model) \<noteq> []"
      "\<forall>b \<in> set (healthy_of (p_heap p) (candidates p model)). full (p_heap p ! b)"
      "Acquire p model = (Inl ErrNoCapacity, p)"
  | (slot) b best l a where "b \<in> set (healthy_of (p_heap p) (candidates p model))"
      "\<not> full (p_heap p ! b)" "Acquire p model = take_slot b p"
      "scan (p_heap p) (candidates p model) None (2 ^ 30) False = (best, l, a)"
      "best = Some b \<or> best = None \<or> (\<exists>c. best = Some c \<and> full (p_heap p ! c))"
proof -
  let ?h = "p_heap p" and ?cs = "candidates p model"
  obtain best l a where sc: "scan ?h ?cs None (2 ^ 30) False = (best, l, a)"
    by (metis prod_cases3)
  note any = scan_any [OF sc] and best = scan_best [OF sc]
  show thesis
  proof (cases "healthy_of ?h ?cs = []")
    case True
    with any sc have "Acquire p model = (Inl ErrNoBackend, p)"
      by (simp add: Acquire_def Let_def)
    with True show thesis by (rule no_backend)
  next
    case False
    then have ne: "?cs \<noteq> []" by (auto simp: healthy_of_def)
    define pick where "pick = (case best of Some b \<Rightarrow> if \<not> full (?h ! b) then Some b else None | None \<Rightarrow> None)"
    have acq: "Acquire p model = (case pick of Some b \<Rightarrow> take_slot b p
        | None \<Rightarrow> (case first_free ?h ?cs of Some b \<Rightarrow> take_slot b p | None \<Rightarrow> (Inl ErrNoCapacity, p)))"
      using False ne any sc by (cases best) (simp_all add: Acquire_def Let_def pick_def)
    show thesis
    proof (cases pick)
      case (Some b)
      then have b: "best = Some b" "\<not> full (?h ! b)"
        by (auto simp: pick_def split: option.splits if_splits)
      with best have "b \<in> set (healthy_of ?h ?cs)" by auto
      with b sc acq Some show thesis by (intro slot) auto
    next
      case None
      then have fb: "best = None \<or> (\<exists>c. best = Some c \<and> full (?h ! c))"
        by (auto simp: pick_def split: option.splits if_splits)
      show thesis
      proof (cases "first_free ?h ?cs")
        case None
        with \<open>pick = None\<close> acq False show thesis by (intro no_capacity) (auto simp: first_free_None)
      next
        case (Some b)
        with \<open>pick = None\<close> acq fb sc first_free_Some [OF Some] show thesis by (intro slot) auto
      qed
    qed
  qed
qed

text \<open>
  \<^verbatim>\<open>Acquire\<close> never queues and never lies about why it refuses: it reports no backend exactly
  when no candidate of the model is healthy, no capacity exactly when there are healthy
  candidates and every one of them is full, and in both cases leaves the pool as it was.
\<close>

theorem Acquire_refuses:
  "(fst (Acquire p model) = Inl ErrNoBackend \<longleftrightarrow> healthy_of (p_heap p) (candidates p model) = []) \<and>
   (fst (Acquire p model) = Inl ErrNoCapacity \<longleftrightarrow>
      healthy_of (p_heap p) (candidates p model) \<noteq> [] \<and>
      (\<forall>b \<in> set (healthy_of (p_heap p) (candidates p model)). full (p_heap p ! b))) \<and>
   (fst (Acquire p model) = Inl e \<longrightarrow> snd (Acquire p model) = p)"
proof (cases rule: Acquire_cases [of p model])
  case slot
  then show ?thesis by (auto simp: take_slot_def)
qed (auto)

text \<open>
  C22: a lease is on a healthy backend of the model that had a free slot; the call takes that one
  slot, keeps the counter within the limit, and changes nothing else of the pool.
\<close>

theorem Acquire_grants:
  assumes "Acquire p model = (Inr lease, p')" and "\<forall>b \<in> set (candidates p model). b < length (p_heap p)"
  shows "l_B lease \<in> set (candidates p model) \<and> \<not> l_done lease \<and>
     b_healthy (p_heap p ! l_B lease) \<and>
     b_inflight (p_heap p ! l_B lease) < b_maxConc (p_heap p ! l_B lease) \<and>
     p_heap p' ! l_B lease =
       (p_heap p ! l_B lease)\<lparr>b_inflight := b_inflight (p_heap p ! l_B lease) + 1\<rparr> \<and>
     (\<forall>b. b \<noteq> l_B lease \<longrightarrow> p_heap p' ! b = p_heap p ! b) \<and>
     p' = p\<lparr>p_heap := p_heap p'\<rparr>"
proof (cases rule: Acquire_cases [of p model])
  case (slot b best l a)
  with assms show ?thesis
    by (auto simp: take_slot_def healthy_of_def full_def acquire_snd)
qed (use assms in auto)

text \<open>
  Unless the least loaded healthy backend is full, \<^verbatim>\<open>Acquire\<close> returns a backend whose load
  (requests in flight over weight, as the code computes it in float64) is minimal among the
  healthy candidates. The loads are below the start value of the scan.
\<close>

theorem Acquire_least_loaded:
  assumes "Acquire p model = (Inr lease, p')"
    and "\<exists>b \<in> set (healthy_of (p_heap p) (candidates p model)). load_of (p_heap p ! b) < 2 ^ 30"
    and "\<And>b. b \<in> set (healthy_of (p_heap p) (candidates p model)) \<Longrightarrow>
           \<forall>c \<in> set (healthy_of (p_heap p) (candidates p model)).
             load_of (p_heap p ! b) \<le> load_of (p_heap p ! c) \<Longrightarrow> \<not> full (p_heap p ! b)"
  shows "\<forall>c \<in> set (healthy_of (p_heap p) (candidates p model)).
           load_of (p_heap p ! l_B lease) \<le> load_of (p_heap p ! c)"
proof (cases rule: Acquire_cases [of p model])
  case (slot b best l a)
  have best: "\<exists>c \<in> set (healthy_of (p_heap p) (candidates p model)). best = Some c \<and> l = load_of (p_heap p ! c)"
    and min: "\<forall>c \<in> set (healthy_of (p_heap p) (candidates p model)). l \<le> load_of (p_heap p ! c)"
    using scan_best [OF slot(4)] assms(2) by force+
  with assms(3) slot(5) have "best = Some b" by auto
  with best min slot(3) assms(1) show ?thesis by (auto simp: take_slot_def)
qed (use assms in auto)

subsection \<open>Admission under concurrency\<close>

text \<open>
  The counter of one backend and the goroutines that use it. A goroutine that called
  \<^verbatim>\<open>acquire\<close> has read the counter (\<open>Loaded cur\<close>) before it compares and swaps; one that
  succeeded holds a slot until it releases it. \<^verbatim>\<open>SyncNode\<close> may change the limit at any time
  (\<open>Resize\<close>); \<open>cs_high\<close> records the largest limit in force so far and does not influence any
  step.
\<close>

datatype gstate = Idle | Loaded int | Holding

record cstate =
  cs_max :: int
  cs_high :: int
  cs_inflight :: int
  cs_gs :: "gstate list"

datatype gaction = Load_cur nat | Reject nat | Swap nat | Swap_fails nat | Free_slot nat | Resize int

inductive slot_step :: "cstate \<Rightarrow> gaction \<Rightarrow> cstate \<Rightarrow> bool" where
  load: "t < length (cs_gs s) \<Longrightarrow> cs_gs s ! t = Idle \<Longrightarrow>
    slot_step s (Load_cur t) (s\<lparr>cs_gs := (cs_gs s)[t := Loaded (cs_inflight s)]\<rparr>)"
| reject: "t < length (cs_gs s) \<Longrightarrow> cs_gs s ! t = Loaded cur \<Longrightarrow> cur \<ge> cs_max s \<Longrightarrow>
    slot_step s (Reject t) (s\<lparr>cs_gs := (cs_gs s)[t := Idle]\<rparr>)"
| swap: "t < length (cs_gs s) \<Longrightarrow> cs_gs s ! t = Loaded cur \<Longrightarrow> cur < cs_max s \<Longrightarrow>
    cs_inflight s = cur \<Longrightarrow>
    slot_step s (Swap t) (s\<lparr>cs_inflight := cur + 1, cs_gs := (cs_gs s)[t := Holding]\<rparr>)"
| swap_fails: "t < length (cs_gs s) \<Longrightarrow> cs_gs s ! t = Loaded cur \<Longrightarrow> cur < cs_max s \<Longrightarrow>
    cs_inflight s \<noteq> cur \<Longrightarrow>
    slot_step s (Swap_fails t) (s\<lparr>cs_gs := (cs_gs s)[t := Idle]\<rparr>)"
| free: "t < length (cs_gs s) \<Longrightarrow> cs_gs s ! t = Holding \<Longrightarrow>
    slot_step s (Free_slot t) (s\<lparr>cs_inflight := cs_inflight s - 1, cs_gs := (cs_gs s)[t := Idle]\<rparr>)"
| resize: "1 \<le> n \<Longrightarrow>
    slot_step s (Resize n) (s\<lparr>cs_max := n, cs_high := max (cs_high s) n\<rparr>)"

inductive slot_run :: "cstate \<Rightarrow> gaction list \<Rightarrow> cstate \<Rightarrow> bool" where
  run_nil: "slot_run s [] s"
| run_snoc: "slot_run s as s' \<Longrightarrow> slot_step s' a s'' \<Longrightarrow> slot_run s (as @ [a]) s''"

inductive_cases slot_stepE: "slot_step s a s'"

definition slot_init :: "int \<Rightarrow> nat \<Rightarrow> cstate" where
  "slot_init m n = \<lparr>cs_max = m, cs_high = m, cs_inflight = 0, cs_gs = replicate n Idle\<rparr>"

definition holders :: "cstate \<Rightarrow> nat" where
  "holders s = length (filter (\<lambda>g. g = Holding) (cs_gs s))"

definition slot_inv :: "cstate \<Rightarrow> bool" where
  "slot_inv s \<longleftrightarrow> cs_inflight s = int (holders s) \<and> cs_inflight s \<le> cs_high s \<and> cs_max s \<le> cs_high s"

lemma filter_length_update:
  "t < length xs \<Longrightarrow>
   length (filter P (xs[t := x])) + (if P (xs ! t) then 1 else 0) =
   length (filter P xs) + (if P x then 1 else 0)"
proof (induction xs arbitrary: t)
  case (Cons y ys)
  then show ?case by (cases t) auto
qed simp

lemma holders_update:
  "t < length (cs_gs s) \<Longrightarrow>
   holders (s\<lparr>cs_inflight := i, cs_gs := (cs_gs s)[t := g]\<rparr>) + (if cs_gs s ! t = Holding then 1 else 0) =
   holders s + (if g = Holding then 1 else 0)"
  using filter_length_update [of t "cs_gs s" "\<lambda>g. g = Holding" g] by (simp add: holders_def)

lemma holders_gs_update:
  "t < length (cs_gs s) \<Longrightarrow> cs_gs s ! t \<noteq> Holding \<Longrightarrow> g \<noteq> Holding \<Longrightarrow>
   holders (s\<lparr>cs_gs := (cs_gs s)[t := g]\<rparr>) = holders s"
  using filter_length_update [of t "cs_gs s" "\<lambda>g. g = Holding" g] by (simp add: holders_def)

lemma holders_resize: "holders (s\<lparr>cs_max := i, cs_high := j\<rparr>) = holders s"
  by (simp add: holders_def)

lemma slot_inv_step [inv_intros]: "slot_step s a s' \<Longrightarrow> slot_inv s \<Longrightarrow> slot_inv s'"
proof (induction rule: slot_step.induct)
  case (swap t s cur)
  then show ?case using holders_update [of t s, where i = "cur + 1" and g = Holding] by (auto simp: slot_inv_def)
next
  case (free t s)
  then show ?case using holders_update [of t s, where i = "cs_inflight s - 1" and g = Idle] by (auto simp: slot_inv_def)
qed (auto simp: slot_inv_def holders_gs_update holders_resize)

lemma slot_inv_init: "0 \<le> m \<Longrightarrow> slot_inv (slot_init m n)"
  by (simp add: slot_inv_def slot_init_def holders_def)

lemma slot_inv_run: "slot_run s as s' \<Longrightarrow> slot_inv s \<Longrightarrow> slot_inv s'"
  by (induction rule: slot_run.induct) (auto intro: slot_inv_step)

lemma slot_run_high:
  "slot_run s as s' \<Longrightarrow> cs_high s' = Max (insert (cs_high s) {n. Resize n \<in> set as})"
proof (induction rule: slot_run.induct)
  case (run_snoc s as s' a s'')
  have fin: "finite {n. Resize n \<in> set as}"
    by (rule finite_subset [of _ "(\<lambda>a. case a of Resize n \<Rightarrow> n | _ \<Rightarrow> 0) ` set as"])
       (auto intro: rev_image_eqI)
  have "{n. Resize n \<in> set (as @ [a])} =
      (case a of Resize n \<Rightarrow> insert n {n. Resize n \<in> set as} | _ \<Rightarrow> {n. Resize n \<in> set as})"
    by (cases a) auto
  with run_snoc fin show ?case
    by (auto elim!: slot_stepE simp: insert_commute)
qed simp

text \<open>
  C1: whatever the interleaving of loads, compare-and-swaps, releases and limit changes, the
  counter of a backend equals the number of goroutines that hold a slot, so no update is ever
  lost, and it never exceeds the largest limit that has been in force; while the limit is not
  changed it never exceeds the limit.
\<close>

theorem slots_exact:
  assumes "0 \<le> m" and "slot_run (slot_init m n) as s"
  shows "cs_inflight s = int (holders s) \<and>
         cs_inflight s \<le> Max (insert m {k. Resize k \<in> set as}) \<and>
         ((\<forall>k. Resize k \<notin> set as) \<longrightarrow> int (holders s) \<le> m)"
  using slot_inv_run [OF assms(2) slot_inv_init [OF assms(1)]] slot_run_high [OF assms(2)]
  by (auto simp: slot_inv_def slot_init_def)

subsection \<open>The dynamic routing table\<close>

definition slash_free :: "string \<Rightarrow> bool" where
  "slash_free n \<longleftrightarrow> CHR ''/'' \<notin> set n"

lemma dyn_key_inj:
  assumes "slash_free n" and "slash_free n'"
  shows "dyn_key n m = dyn_key n' m' \<longleftrightarrow> n = n' \<and> m = m'"
proof -
  have "Cut (dyn_key n m) ''/'' = (n, m, True)" "Cut (dyn_key n' m') ''/'' = (n', m', True)"
    using assms by (simp_all add: dyn_key_def slash_free_def Cut_single)
  then show ?thesis by (metis prod.inject)
qed

lemma drop_dyn_key [simp]: "drop (length n + 1) (dyn_key n m) = m" "drop (Suc (length n)) (dyn_key n m) = m"
  by (simp_all add: dyn_key_def)

text \<open>
  The invariant: every key of a node is the node's name, a slash and a model; the keys of the
  nodes are exactly the keys of the dynamic backends; a dynamic backend is stored under its
  name; and the index by model lists exactly the dynamic backends of each model.
\<close>

definition keys_ok :: "(string \<times> string list) list \<Rightarrow> bool" where
  "keys_ok byNode \<longleftrightarrow> distinct (keys_of byNode) \<and> (\<forall>n \<in> set (keys_of byNode). slash_free n) \<and>
     (\<forall>n. \<forall>k \<in> set (lookup_list byNode n). \<exists>m. k = dyn_key n m)"

definition heap_ok :: "Backend list \<Rightarrow> (string \<times> bref) list \<Rightarrow> bool" where
  "heap_ok h dynamic \<longleftrightarrow> (\<forall>k b. map_of dynamic k = Some b \<longrightarrow> b < length h \<and> b_Name (h ! b) = k)"

definition dyn_inv :: "Pool \<Rightarrow> bool" where
  "dyn_inv p \<longleftrightarrow> keys_ok (p_dynamicByNode p) \<and> heap_ok (p_heap p) (p_dynamic p) \<and>
     (\<forall>k. map_of (p_dynamic p) k \<noteq> None \<longleftrightarrow> (\<exists>n. k \<in> set (lookup_list (p_dynamicByNode p) n))) \<and>
     (\<forall>m. set (lookup_list (p_dynamicByModel p) m) =
        {b. \<exists>n. slash_free n \<and> map_of (p_dynamic p) (dyn_key n m) = Some b})"

definition routes :: "Pool \<Rightarrow> (string \<times> string) set" where
  "routes p = {(n, m). slash_free n \<and> map_of (p_dynamic p) (dyn_key n m) \<noteq> None}"

text \<open>One entry, and a whole report.\<close>

lemma sync_entry_frame [simp]:
  "p_backends (sync_entry node e p) = p_backends p"
  "p_byModel (sync_entry node e p) = p_byModel p"
  "p_dynamicByNode (sync_entry node e p) = p_dynamicByNode p"
  by (auto simp: sync_entry_def Let_def split: option.splits)

lemma sync_entry_dom:
  "map_of (p_dynamic (sync_entry node e p)) k \<noteq> None \<longleftrightarrow>
   k = dyn_key node (d_ModelID e) \<or> map_of (p_dynamic p) k \<noteq> None"
  by (auto simp: sync_entry_def Let_def split: option.splits)

lemma sync_entry_other:
  "k \<noteq> dyn_key node (d_ModelID e) \<Longrightarrow> map_of (p_dynamic (sync_entry node e p)) k = map_of (p_dynamic p) k"
  by (auto simp: sync_entry_def Let_def split: option.splits)

lemma sync_entry_heap_ok:
  "heap_ok (p_heap p) (p_dynamic p) \<Longrightarrow> heap_ok (p_heap (sync_entry node e p)) (p_dynamic (sync_entry node e p))"
  by (auto simp: heap_ok_def sync_entry_def Let_def dynamic_backend_def nth_append nth_list_update
      split: option.splits if_splits dest: less_SucI)

lemma sync_entry_heap:
  assumes "b < length (p_heap p)"
  shows "b < length (p_heap (sync_entry node e p))"
    and "b_inflight (p_heap (sync_entry node e p) ! b) = b_inflight (p_heap p ! b)"
    and "b_healthy (p_heap (sync_entry node e p) ! b) = b_healthy (p_heap p ! b)"
    and "b_BaseURL (p_heap (sync_entry node e p) ! b) = b_BaseURL (p_heap p ! b)"
  using assms by (auto simp: sync_entry_def Let_def nth_append nth_update_if split: option.splits)

definition report :: "string \<Rightarrow> DynamicBackend list \<Rightarrow> Pool \<Rightarrow> Pool" where
  "report node entries p = fold (sync_entry node) entries p"

lemma report_frame [simp]:
  "p_backends (report node entries p) = p_backends p"
  "p_byModel (report node entries p) = p_byModel p"
  "p_dynamicByNode (report node entries p) = p_dynamicByNode p"
  unfolding report_def by (induction entries arbitrary: p) auto

lemma report_dom:
  "map_of (p_dynamic (report node entries p)) k \<noteq> None \<longleftrightarrow>
   (\<exists>e \<in> set entries. k = dyn_key node (d_ModelID e)) \<or> map_of (p_dynamic p) k \<noteq> None"
  unfolding report_def by (induction entries arbitrary: p) (auto simp: sync_entry_dom simp del: not_None_eq)

lemma report_other:
  "\<forall>e \<in> set entries. k \<noteq> dyn_key node (d_ModelID e) \<Longrightarrow>
   map_of (p_dynamic (report node entries p)) k = map_of (p_dynamic p) k"
  unfolding report_def by (induction entries arbitrary: p) (auto simp: sync_entry_other)

lemma report_heap_ok:
  "heap_ok (p_heap p) (p_dynamic p) \<Longrightarrow> heap_ok (p_heap (report node entries p)) (p_dynamic (report node entries p))"
  unfolding report_def by (induction entries arbitrary: p) (auto simp: sync_entry_heap_ok)

lemma report_heap:
  assumes "b < length (p_heap p)"
  shows "b < length (p_heap (report node entries p)) \<and>
     b_inflight (p_heap (report node entries p) ! b) = b_inflight (p_heap p ! b) \<and>
     b_healthy (p_heap (report node entries p) ! b) = b_healthy (p_heap p ! b) \<and>
     b_BaseURL (p_heap (report node entries p) ! b) = b_BaseURL (p_heap p ! b)"
  using assms unfolding report_def
  by (induction entries arbitrary: p) (auto simp: sync_entry_heap)

text \<open>Rebuilding the index.\<close>

lemma map_of_fold_delete:
  "map_of (fold AList.delete ks m) k = (if k \<in> set ks then None else map_of m k)"
  by (induction ks arbitrary: m) auto

lemma index_own_lookup:
  "set (lookup_list (index_own dynamic node entries acc) m) =
   set (lookup_list acc m) \<union>
   {b. (\<exists>e \<in> set entries. d_ModelID e = m) \<and> map_of dynamic (dyn_key node m) = Some b}"
  unfolding index_own_def
  by (induction entries arbitrary: acc) (auto split: option.splits)

lemma index_keys_lookup:
  "set (lookup_list (index_keys dynamic other keys acc) m) =
   set (lookup_list acc m) \<union>
   {b. \<exists>k \<in> set keys. drop (length other + 1) k = m \<and> map_of dynamic k = Some b}"
  unfolding index_keys_def
  by (induction keys arbitrary: acc) (auto split: option.splits)

lemma index_nodes_fold:
  "set (lookup_list (fold (\<lambda>(other, keys) acc.
      if skip other then acc else index_keys dynamic other keys acc) byNode acc) m) =
   set (lookup_list acc m) \<union>
   {b. \<exists>(n, ks) \<in> set byNode. \<not> skip n \<and>
      (\<exists>k \<in> set ks. drop (length n + 1) k = m \<and> map_of dynamic k = Some b)}"
  by (induction byNode arbitrary: acc) (auto simp: index_keys_lookup split: if_splits)

lemma lookup_list_mem:
  "distinct (keys_of byNode) \<Longrightarrow> (n, ks) \<in> set byNode \<Longrightarrow> lookup_list byNode n = ks"
  by (simp add: lookup_list_def map_of_is_SomeI)

lemma lookup_list_key: "k \<in> set (lookup_list byNode n) \<Longrightarrow> (n, lookup_list byNode n) \<in> set byNode"
  by (auto simp: lookup_list_def split: option.splits dest: map_of_SomeD)

lemma lookup_list_update [simp]:
  "lookup_list (AList.update n ks byNode) n' = (if n' = n then ks else lookup_list byNode n')"
  by (simp add: lookup_list_def)

lemma lookup_list_delete [simp]:
  "lookup_list (AList.delete n byNode) n' = (if n' = n then [] else lookup_list byNode n')"
  by (simp add: lookup_list_def)

text \<open>The index rebuilt from the nodes, in any order, for keys of the right form.\<close>

lemma index_nodes_lookup:
  assumes "keys_ok byNode" and "range_order ordn"
  shows "set (lookup_list (fold (\<lambda>(other, keys) acc.
      if skip other then acc else index_keys dynamic other keys acc) (ordn byNode) acc) m) =
   set (lookup_list acc m) \<union>
   {b. \<exists>n. \<not> skip n \<and> dyn_key n m \<in> set (lookup_list byNode n) \<and> map_of dynamic (dyn_key n m) = Some b}"
proof -
  have d: "distinct (keys_of byNode)" and
    f: "\<And>n k. k \<in> set (lookup_list byNode n) \<Longrightarrow> \<exists>m. k = dyn_key n m"
    using assms(1) by (auto simp: keys_ok_def)
  have "(\<exists>(n, ks) \<in> set byNode. \<not> skip n \<and>
      (\<exists>k \<in> set ks. drop (length n + 1) k = m \<and> map_of dynamic k = Some b)) \<longleftrightarrow>
    (\<exists>n. \<not> skip n \<and> dyn_key n m \<in> set (lookup_list byNode n) \<and> map_of dynamic (dyn_key n m) = Some b)"
    (is "?L \<longleftrightarrow> ?R") for b
  proof
    assume ?L
    then obtain n ks k where "(n, ks) \<in> set byNode" "\<not> skip n" "k \<in> set ks"
      "drop (length n + 1) k = m" "map_of dynamic k = Some b" by auto
    with lookup_list_mem [OF d] f [of k n] show ?R by (metis drop_dyn_key(1))
  next
    assume ?R
    then show ?L by (metis (mono_tags, lifting) case_prodI drop_dyn_key(1) lookup_list_key)
  qed
  then show ?thesis
    using assms(2) by (simp add: index_nodes_fold range_order_set)
qed

lemma keys_ok_update:
  assumes "keys_ok byNode" and "slash_free node" and "\<forall>k \<in> set ks. \<exists>m. k = dyn_key node m"
  shows "keys_ok (AList.update node ks byNode)"
proof -
  have "set (keys_of (AList.update node ks byNode)) = insert node (set (keys_of byNode))"
    by (auto simp: update_keys)
  with assms show ?thesis
    by (auto simp: keys_ok_def distinct_keys_update simp del: set_map)
qed

lemma keys_ok_delete:
  assumes "keys_ok byNode"
  shows "keys_ok (AList.delete node byNode)"
proof -
  have "set (keys_of (AList.delete node byNode)) \<subseteq> set (keys_of byNode)"
    by (auto simp: delete_keys simp del: set_map)
  with assms show ?thesis
    by (auto simp: keys_ok_def distinct_keys_delete simp del: set_map)
qed

lemma keys_ok_slash_free: "keys_ok byNode \<Longrightarrow> k \<in> set (lookup_list byNode n) \<Longrightarrow> slash_free n"
  using lookup_list_key unfolding keys_ok_def by (metis fst_conv in_set_zipE zip_map_fst_snd)

lemma keys_ok_form: "keys_ok byNode \<Longrightarrow> k \<in> set (lookup_list byNode n) \<Longrightarrow> \<exists>m. k = dyn_key n m"
  by (auto simp: keys_ok_def)

lemma set_keep_keys: "set (keep_keys node entries) = (\<lambda>e. dyn_key node (d_ModelID e)) ` set entries"
  by (simp add: keep_keys_def)

text \<open>A key of the form \<open>node/model\<close> is listed under its own node only.\<close>

lemma dyn_inv_listed:
  assumes "dyn_inv p" and "slash_free n"
  shows "map_of (p_dynamic p) (dyn_key n m) \<noteq> None \<longleftrightarrow> dyn_key n m \<in> set (lookup_list (p_dynamicByNode p) n)"
proof -
  have k: "keys_ok (p_dynamicByNode p)" using assms(1) by (simp add: dyn_inv_def)
  have "n' = n" if "dyn_key n m \<in> set (lookup_list (p_dynamicByNode p) n')" for n'
    using keys_ok_form [OF k that] keys_ok_slash_free [OF k that] assms(2) dyn_key_inj by metis
  then show ?thesis using assms(1) unfolding dyn_inv_def by metis
qed

lemma SyncNode_dynamic:
  "map_of (p_dynamic (SyncNode ordk ordn node entries p)) k =
     (if k \<in> set (lookup_list (p_dynamicByNode p) node) \<and> k \<notin> set (keep_keys node entries) then None
      else map_of (p_dynamic (report node entries p)) k)"
  by (simp add: SyncNode_def Let_def report_def [symmetric] map_of_fold_delete)

lemma SyncNode_frame [simp]:
  "p_heap (SyncNode ordk ordn node entries p) = p_heap (report node entries p)"
  "p_backends (SyncNode ordk ordn node entries p) = p_backends p"
  "p_byModel (SyncNode ordk ordn node entries p) = p_byModel p"
  "p_dynamicByNode (SyncNode ordk ordn node entries p) =
     AList.update node (ordk (keep_keys node entries)) (p_dynamicByNode p)"
  by (simp_all add: SyncNode_def Let_def report_def [symmetric])

lemma SyncNode_keys_ok:
  assumes "keys_ok (p_dynamicByNode p)" and "slash_free node" and "range_order ordk"
  shows "keys_ok (p_dynamicByNode (SyncNode ordk ordn node entries p))"
  using assms by (auto intro!: keys_ok_update simp: range_order_set set_keep_keys)

lemma SyncNode_byModel:
  assumes "keys_ok (p_dynamicByNode (SyncNode ordk ordn node entries p))" and "range_order ordn"
  shows "set (lookup_list (p_dynamicByModel (SyncNode ordk ordn node entries p)) m) =
    {b. (\<exists>e \<in> set entries. d_ModelID e = m) \<and>
        map_of (p_dynamic (SyncNode ordk ordn node entries p)) (dyn_key node m) = Some b} \<union>
    {b. \<exists>n. n \<noteq> node \<and> dyn_key n m \<in> set (lookup_list (p_dynamicByNode p) n) \<and>
        map_of (p_dynamic (SyncNode ordk ordn node entries p)) (dyn_key n m) = Some b}"
proof -
  let ?q = "SyncNode ordk ordn node entries p"
  have "p_dynamicByModel ?q = fold (\<lambda>(other, keys) acc.
      if other = node then acc else index_keys (p_dynamic ?q) other keys acc)
      (ordn (p_dynamicByNode ?q)) (index_own (p_dynamic ?q) node entries [])"
    unfolding SyncNode_def Let_def report_def [symmetric] by (simp add: case_prod_beta' cong: if_cong)
  then show ?thesis
    using index_nodes_lookup [OF assms, where skip = "\<lambda>n. n = node"]
    by (auto simp: index_own_lookup)
qed

lemma SyncNode_dom:
  assumes "dyn_inv p"
  shows "map_of (p_dynamic (SyncNode ordk ordn node entries p)) k \<noteq> None \<longleftrightarrow>
    k \<in> set (keep_keys node entries) \<or>
    map_of (p_dynamic p) k \<noteq> None \<and> k \<notin> set (lookup_list (p_dynamicByNode p) node)"
proof -
  have "map_of (p_dynamic (report node entries p)) k \<noteq> None \<longleftrightarrow>
      k \<in> set (keep_keys node entries) \<or> map_of (p_dynamic p) k \<noteq> None"
    unfolding report_dom set_keep_keys by auto
  then show ?thesis unfolding SyncNode_dynamic by (auto simp del: not_None_eq)
qed

lemma SyncNode_route:
  assumes "dyn_inv p" and "slash_free node" and "slash_free n"
  shows "map_of (p_dynamic (SyncNode ordk ordn node entries p)) (dyn_key n m) \<noteq> None \<longleftrightarrow>
    (if n = node then \<exists>e \<in> set entries. d_ModelID e = m
     else map_of (p_dynamic p) (dyn_key n m) \<noteq> None)"
proof -
  have keep: "dyn_key n m \<in> set (keep_keys node entries) \<longleftrightarrow> n = node \<and> (\<exists>e \<in> set entries. d_ModelID e = m)"
    using assms(2,3) by (auto simp: set_keep_keys dyn_key_inj)
  show ?thesis
  proof (cases "n = node")
    case True
    then show ?thesis
      using dyn_inv_listed [OF assms(1,3), of m] SyncNode_dom [OF assms(1)] keep by metis
  next
    case False
    have "dyn_key n m \<notin> set (lookup_list (p_dynamicByNode p) node)"
    proof
      assume "dyn_key n m \<in> set (lookup_list (p_dynamicByNode p) node)"
      then obtain m' where "dyn_key n m = dyn_key node m'"
        using assms(1) keys_ok_form unfolding dyn_inv_def by blast
      with False assms(2,3) show False by (simp add: dyn_key_inj)
    qed
    with False keep show ?thesis
      by (simp only: SyncNode_dom [OF assms(1)] if_False simp_thms)
  qed
qed

lemma heap_ok_delete: "heap_ok h m \<Longrightarrow> heap_ok h (fold AList.delete ks m)"
  by (simp add: heap_ok_def map_of_fold_delete)

lemma dyn_inv_SyncNode [inv_intros]:
  assumes inv: "dyn_inv p" and sf: "slash_free node" and ord: "range_order ordk" "range_order ordn"
  shows "dyn_inv (SyncNode ordk ordn node entries p)"
proof -
  let ?q = "SyncNode ordk ordn node entries p"
  have ok: "keys_ok (p_dynamicByNode p)" and h: "heap_ok (p_heap p) (p_dynamic p)"
    and dom: "\<And>k. map_of (p_dynamic p) k \<noteq> None \<longleftrightarrow> (\<exists>n. k \<in> set (lookup_list (p_dynamicByNode p) n))"
    using inv by (auto simp: dyn_inv_def)
  have ok': "keys_ok (p_dynamicByNode ?q)" using SyncNode_keys_ok [OF ok sf ord(1)] .
  have h': "heap_ok (p_heap ?q) (p_dynamic ?q)"
    using report_heap_ok [OF h] unfolding heap_ok_def SyncNode_dynamic SyncNode_frame by simp
  have other: "k \<notin> set (lookup_list (p_dynamicByNode p) node)"
    if "k \<in> set (lookup_list (p_dynamicByNode p) n)" "n \<noteq> node" for k n
  proof
    assume "k \<in> set (lookup_list (p_dynamicByNode p) node)"
    with keys_ok_form [OF ok this] keys_ok_form [OF ok that(1)] keys_ok_slash_free [OF ok that(1)] sf that(2)
    show False by (metis dyn_key_inj)
  qed
  have "map_of (p_dynamic ?q) k \<noteq> None \<longleftrightarrow> (\<exists>n. k \<in> set (lookup_list (p_dynamicByNode ?q) n))" for k
    unfolding SyncNode_dom [OF inv] dom
    using other ord by (auto simp: range_order_set simp del: not_None_eq) metis
  moreover have "set (lookup_list (p_dynamicByModel ?q) m) =
      {b. \<exists>n. slash_free n \<and> map_of (p_dynamic ?q) (dyn_key n m) = Some b}" for m
  proof -
    have own: "(\<exists>e \<in> set entries. d_ModelID e = m)" if "map_of (p_dynamic ?q) (dyn_key node m) = Some b" for b
      using SyncNode_route [OF inv sf sf, of ordk ordn entries m] that by (simp split: if_splits)
    have oth: "dyn_key n m \<in> set (lookup_list (p_dynamicByNode p) n)"
      if "slash_free n" "n \<noteq> node" "map_of (p_dynamic ?q) (dyn_key n m) = Some b" for n b
      using SyncNode_route [OF inv sf that(1), of ordk ordn entries m] dyn_inv_listed [OF inv that(1), of m] that by simp
    have sfn: "slash_free n" if "dyn_key n m \<in> set (lookup_list (p_dynamicByNode p) n)" for n
      using keys_ok_slash_free [OF ok that] .
    show ?thesis
    proof (rule set_eqI)
      fix b
      show "b \<in> set (lookup_list (p_dynamicByModel ?q) m) \<longleftrightarrow>
          b \<in> {b. \<exists>n. slash_free n \<and> map_of (p_dynamic ?q) (dyn_key n m) = Some b}"
        unfolding SyncNode_byModel [OF ok' ord(2)] Un_iff mem_Collect_eq
        using own oth sf sfn by metis
    qed
  qed
  ultimately show ?thesis using ok' h' by (simp add: dyn_inv_def)
qed

lemma DropNode_frame [simp]:
  "p_heap (DropNode ordn node p) = p_heap p"
  "p_backends (DropNode ordn node p) = p_backends p"
  "p_byModel (DropNode ordn node p) = p_byModel p"
  "p_dynamicByNode (DropNode ordn node p) = AList.delete node (p_dynamicByNode p)"
  "p_dynamic (DropNode ordn node p) = fold AList.delete (lookup_list (p_dynamicByNode p) node) (p_dynamic p)"
  by (simp_all add: DropNode_def Let_def)

lemma DropNode_route:
  assumes "dyn_inv p" and "slash_free n"
  shows "map_of (p_dynamic (DropNode ordn node p)) (dyn_key n m) =
    (if n = node then None else map_of (p_dynamic p) (dyn_key n m))"
proof -
  have "n = node" if "dyn_key n m \<in> set (lookup_list (p_dynamicByNode p) node)"
    using that keys_ok_form keys_ok_slash_free assms unfolding dyn_inv_def by (metis dyn_key_inj)
  with dyn_inv_listed [OF assms, of m] show ?thesis by (auto simp: map_of_fold_delete)
qed

lemma dyn_inv_DropNode [inv_intros]:
  assumes inv: "dyn_inv p" and ord: "range_order ordn"
  shows "dyn_inv (DropNode ordn node p)"
proof -
  let ?q = "DropNode ordn node p"
  have ok: "keys_ok (p_dynamicByNode p)" and h: "heap_ok (p_heap p) (p_dynamic p)"
    and dom: "\<And>k. map_of (p_dynamic p) k \<noteq> None \<longleftrightarrow> (\<exists>n. k \<in> set (lookup_list (p_dynamicByNode p) n))"
    using inv by (auto simp: dyn_inv_def)
  have ok': "keys_ok (p_dynamicByNode ?q)" using keys_ok_delete [OF ok] by simp
  have other: "n = n'" if "k \<in> set (lookup_list (p_dynamicByNode p) n)" "k \<in> set (lookup_list (p_dynamicByNode p) n')" for k n n'
    using that keys_ok_form [OF ok] keys_ok_slash_free [OF ok] by (metis dyn_key_inj)
  have d: "map_of (p_dynamic ?q) k \<noteq> None \<longleftrightarrow> (\<exists>n. k \<in> set (lookup_list (p_dynamicByNode ?q) n))" for k
    using dom [of k] other by (auto simp: map_of_fold_delete) metis
  have "p_dynamicByModel ?q = fold (\<lambda>(other, keys) acc.
      if False then acc else index_keys (p_dynamic ?q) other keys acc) (ordn (p_dynamicByNode ?q)) []"
    unfolding DropNode_def Let_def by (simp add: case_prod_beta')
  then have "set (lookup_list (p_dynamicByModel ?q) m) =
      {b. \<exists>n. dyn_key n m \<in> set (lookup_list (p_dynamicByNode ?q) n) \<and> map_of (p_dynamic ?q) (dyn_key n m) = Some b}" for m
    using index_nodes_lookup [OF ok' ord, where skip = "\<lambda>_. False" and acc = "[]"] by simp
  moreover have "dyn_key n m \<in> set (lookup_list (p_dynamicByNode ?q) n)"
    if "slash_free n" "map_of (p_dynamic ?q) (dyn_key n m) = Some b" for n m b
    using that dyn_inv_listed [OF inv that(1), of m] DropNode_route [OF inv that(1), of ordn node m]
    by (auto split: if_splits)
  ultimately have "set (lookup_list (p_dynamicByModel ?q) m) =
      {b. \<exists>n. slash_free n \<and> map_of (p_dynamic ?q) (dyn_key n m) = Some b}" for m
    using keys_ok_slash_free [OF ok'] by blast
  then show ?thesis using ok' heap_ok_delete [OF h] d by (simp add: dyn_inv_def)
qed

subsection \<open>The contract of the routing table\<close>

text \<open>
  What the node poller relies on: a report replaces the entries of one node, dropping a node
  removes them, and neither touches another node. An event carries the iteration orders the
  runtime happens to use.
\<close>

datatype ('o, 'n, 'e) node_event = Reported 'o 'n "'e list" | Unreachable 'o 'n

fun event_order :: "('o, 'n, 'e) node_event \<Rightarrow> 'o" where
  "event_order (Reported r n es) = r"
| "event_order (Unreachable r n) = r"

fun event_node :: "('o, 'n, 'e) node_event \<Rightarrow> 'n" where
  "event_node (Reported r n es) = n"
| "event_node (Unreachable r n) = n"

text \<open>The last thing heard of a node; an unreachable node serves nothing.\<close>

fun last_report :: "'n \<Rightarrow> ('o, 'n, 'e) node_event list \<Rightarrow> 'e list option" where
  "last_report n [] = None"
| "last_report n (ev # evs) =
     (case last_report n evs of
        Some es \<Rightarrow> Some es
      | None \<Rightarrow> (case ev of
          Reported r n' es \<Rightarrow> if n' = n then Some es else None
        | Unreachable r n' \<Rightarrow> if n' = n then Some [] else None))"

fun apply_event ::
  "('o \<Rightarrow> 'n \<Rightarrow> 'e list \<Rightarrow> 'p \<Rightarrow> 'p) \<Rightarrow> ('o \<Rightarrow> 'n \<Rightarrow> 'p \<Rightarrow> 'p) \<Rightarrow> ('o, 'n, 'e) node_event \<Rightarrow> 'p \<Rightarrow> 'p" where
  "apply_event sync remove (Reported r n es) p = sync r n es p"
| "apply_event sync remove (Unreachable r n) p = remove r n p"

locale routing_table =
  fixes inv :: "'p \<Rightarrow> bool" and table :: "'p \<Rightarrow> ('n \<times> 'm) set"
    and node_ok :: "'n \<Rightarrow> bool" and order_ok :: "'o \<Rightarrow> bool" and model_of :: "'e \<Rightarrow> 'm"
    and sync :: "'o \<Rightarrow> 'n \<Rightarrow> 'e list \<Rightarrow> 'p \<Rightarrow> 'p" and remove :: "'o \<Rightarrow> 'n \<Rightarrow> 'p \<Rightarrow> 'p"
  assumes inv_sync: "inv p \<Longrightarrow> node_ok n \<Longrightarrow> order_ok r \<Longrightarrow> inv (sync r n es p)"
    and inv_remove: "inv p \<Longrightarrow> node_ok n \<Longrightarrow> order_ok r \<Longrightarrow> inv (remove r n p)"
    and table_sync: "inv p \<Longrightarrow> node_ok n \<Longrightarrow> order_ok r \<Longrightarrow>
      table (sync r n es p) = {(k, m) \<in> table p. k \<noteq> n} \<union> {n} \<times> model_of ` set es"
    and table_remove: "inv p \<Longrightarrow> node_ok n \<Longrightarrow> order_ok r \<Longrightarrow>
      table (remove r n p) = {(k, m) \<in> table p. k \<noteq> n}"
begin

lemma inv_event:
  "inv p \<Longrightarrow> node_ok (event_node ev) \<Longrightarrow> order_ok (event_order ev) \<Longrightarrow> inv (apply_event sync remove ev p)"
  by (cases ev) (auto intro: inv_sync inv_remove)

lemma inv_events:
  "inv p \<Longrightarrow> \<forall>ev \<in> set evs. node_ok (event_node ev) \<and> order_ok (event_order ev) \<Longrightarrow>
   inv (fold (apply_event sync remove) evs p)"
  by (induction evs arbitrary: p) (auto intro: inv_event)

text \<open>After any sequence of events the table shows, per node, what was heard last.\<close>

lemma table_events:
  assumes "inv p" and "\<forall>ev \<in> set evs. node_ok (event_node ev) \<and> order_ok (event_order ev)"
  shows "(n, m) \<in> table (fold (apply_event sync remove) evs p) \<longleftrightarrow>
    (case last_report n evs of None \<Rightarrow> (n, m) \<in> table p | Some es \<Rightarrow> m \<in> model_of ` set es)"
  using assms
proof (induction evs arbitrary: p)
  case (Cons ev evs)
  from Cons.prems have inv: "inv (apply_event sync remove ev p)" by (auto intro: inv_event)
  with Cons have "(n, m) \<in> table (fold (apply_event sync remove) (ev # evs) p) \<longleftrightarrow>
    (case last_report n evs of None \<Rightarrow> (n, m) \<in> table (apply_event sync remove ev p)
     | Some es \<Rightarrow> m \<in> model_of ` set es)" by simp
  also have "\<dots> \<longleftrightarrow> (case last_report n (ev # evs) of None \<Rightarrow> (n, m) \<in> table p
     | Some es \<Rightarrow> m \<in> model_of ` set es)"
    using Cons.prems by (cases ev) (auto simp: table_sync table_remove split: option.splits)
  finally show ?case .
qed simp

lemma sync_commute:
  "inv p \<Longrightarrow> node_ok a \<Longrightarrow> node_ok b \<Longrightarrow> order_ok r \<Longrightarrow> order_ok q \<Longrightarrow> a \<noteq> b \<Longrightarrow>
   table (sync r a es (sync q b fs p)) = table (sync q b fs (sync r a es p))"
  by (auto simp: table_sync inv_sync)

end

type_synonym orders =
  "(string list \<Rightarrow> string list) \<times> ((string \<times> string list) list \<Rightarrow> (string \<times> string list) list)"

definition orders_ok :: "orders \<Rightarrow> bool" where
  "orders_ok r \<longleftrightarrow> range_order (fst r) \<and> range_order (snd r)"

definition pool_sync :: "orders \<Rightarrow> string \<Rightarrow> DynamicBackend list \<Rightarrow> Pool \<Rightarrow> Pool" where
  "pool_sync r = SyncNode (fst r) (snd r)"

definition pool_drop :: "orders \<Rightarrow> string \<Rightarrow> Pool \<Rightarrow> Pool" where
  "pool_drop r = DropNode (snd r)"

lemma routes_SyncNode:
  assumes "dyn_inv p" and "slash_free node"
  shows "routes (SyncNode ordk ordn node entries p) =
     {(k, m) \<in> routes p. k \<noteq> node} \<union> {node} \<times> d_ModelID ` set entries"
proof -
  have "(n, m) \<in> routes (SyncNode ordk ordn node entries p) \<longleftrightarrow>
      (n, m) \<in> {(k, m) \<in> routes p. k \<noteq> node} \<union> {node} \<times> d_ModelID ` set entries" for n m
  proof (cases "slash_free n")
    case True
    from SyncNode_route [OF assms True, of ordk ordn entries m] True show ?thesis
      unfolding routes_def by (auto simp del: not_None_eq split: if_splits)
  next
    case False
    with assms(2) show ?thesis by (auto simp: routes_def)
  qed
  then show ?thesis by auto
qed

lemma routes_DropNode:
  assumes "dyn_inv p"
  shows "routes (DropNode ordn node p) = {(k, m) \<in> routes p. k \<noteq> node}"
  by (auto simp: routes_def DropNode_route [OF assms] simp del: DropNode_frame split: if_splits)

interpretation rt: routing_table dyn_inv routes slash_free orders_ok d_ModelID pool_sync pool_drop
proof
  fix p n r es
  assume inv: "dyn_inv p" and n: "slash_free n" and r: "orders_ok (r :: orders)"
  show "dyn_inv (pool_sync r n es p)" "dyn_inv (pool_drop r n p)"
    using inv n r by (auto simp: pool_sync_def pool_drop_def orders_ok_def intro: inv_intros)
  show "routes (pool_sync r n es p) = {(k, m). (k, m) \<in> routes p \<and> k \<noteq> n} \<union> {n} \<times> d_ModelID ` set es"
    using routes_SyncNode [OF inv n] by (simp add: pool_sync_def)
  show "routes (pool_drop r n p) = {(k, m). (k, m) \<in> routes p \<and> k \<noteq> n}"
    using routes_DropNode [OF inv] by (simp add: pool_drop_def)
qed

subsection \<open>The pool after construction and after any sequence of reports\<close>

definition static_ok :: "Pool \<Rightarrow> bool" where
  "static_ok p \<longleftrightarrow> (\<forall>n b. map_of (p_backends p) n = Some b \<longrightarrow> b < length (p_heap p) \<and> b_Name (p_heap p ! b) = n)"

definition same_routes :: "Pool \<Rightarrow> Pool \<Rightarrow> bool" where
  "same_routes q p \<longleftrightarrow> p_byModel q = p_byModel p \<and> p_dynamic q = p_dynamic p \<and>
     p_dynamicByModel q = p_dynamicByModel p \<and> p_dynamicByNode q = p_dynamicByNode p"

definition same_static :: "Pool \<Rightarrow> Pool \<Rightarrow> bool" where
  "same_static q p \<longleftrightarrow> p_heap q = p_heap p \<and> p_backends q = p_backends p \<and> p_dynamic q = p_dynamic p \<and>
     p_dynamicByModel q = p_dynamicByModel p \<and> p_dynamicByNode q = p_dynamicByNode p"

lemma fold_add_static:
  "static_ok p \<Longrightarrow> static_ok (fold add_static bs p) \<and>
   p_heap (fold add_static bs p) = p_heap p @ map static_backend bs \<and>
   (\<forall>n. map_of (p_backends (fold add_static bs p)) n \<noteq> None \<longleftrightarrow>
      map_of (p_backends p) n \<noteq> None \<or> n \<in> bc_Name ` set bs) \<and>
   same_routes (fold add_static bs p) p"
proof (induction bs arbitrary: p)
  case (Cons b bs)
  have "static_ok (add_static b p)"
    using Cons.prems by (auto simp: static_ok_def add_static_def static_backend_def nth_append less_SucI)
  from Cons.IH [OF this] show ?case
    by (auto simp: add_static_def same_routes_def simp del: not_None_eq split: if_splits)
qed (auto simp: same_routes_def)

lemma fold_add_route:
  "fold (add_route mid) names p =
   p\<lparr>p_byModel := fold (\<lambda>name acc. case map_of (p_backends p) name of None \<Rightarrow> acc
       | Some b \<Rightarrow> append_at acc mid b) names (p_byModel p)\<rparr>"
  by (induction names arbitrary: p) (auto simp: add_route_def split: option.splits)

lemma fold_append_route:
  "lookup_list (fold (\<lambda>name acc. case f name of None \<Rightarrow> acc | Some b \<Rightarrow> append_at acc mid b) names acc) k =
   lookup_list acc k @ (if k = mid then List.map_filter f names else [])"
  by (induction names arbitrary: acc) (auto simp: List.map_filter_simps split: option.splits)

lemma fold_models:
  "same_static (fold (\<lambda>m. fold (add_route (m_ID m)) (m_Backends m)) ms p) p \<and>
   lookup_list (p_byModel (fold (\<lambda>m. fold (add_route (m_ID m)) (m_Backends m)) ms p)) k =
     lookup_list (p_byModel p) k @
     concat (map (\<lambda>m. List.map_filter (map_of (p_backends p)) (m_Backends m)) (filter (\<lambda>m. m_ID m = k) ms))"
proof (induction ms arbitrary: p)
  case (Cons m ms)
  show ?case using Cons.IH [of "fold (add_route (m_ID m)) (m_Backends m) p"]
    by (auto simp: fold_add_route fold_append_route same_static_def)
qed (simp add: same_static_def)

lemma NewPool_shape:
  fixes cfg :: Config
  defines "q \<equiv> fold add_static (c_Backends cfg) empty_pool"
  shows "static_ok q"
    and "p_heap q = map static_backend (c_Backends cfg)"
    and "map_of (p_backends q) n \<noteq> None \<longleftrightarrow> n \<in> bc_Name ` set (c_Backends cfg)"
    and "same_static (NewPool cfg) q"
    and "p_dynamic q = [] \<and> p_dynamicByModel q = [] \<and> p_dynamicByNode q = []"
    and "lookup_list (p_byModel (NewPool cfg)) k =
      concat (map (\<lambda>m. List.map_filter (map_of (p_backends q)) (m_Backends m)) (filter (\<lambda>m. m_ID m = k) (c_Models cfg)))"
proof -
  have "static_ok empty_pool" by (simp add: static_ok_def empty_pool_def)
  note f = fold_add_static [OF this, of "c_Backends cfg", folded q_def]
  then have e: "p_byModel q = [] \<and> p_dynamic q = [] \<and> p_dynamicByModel q = [] \<and> p_dynamicByNode q = []"
    by (simp add: empty_pool_def same_routes_def)
  show "static_ok q" "p_heap q = map static_backend (c_Backends cfg)"
    "map_of (p_backends q) n \<noteq> None \<longleftrightarrow> n \<in> bc_Name ` set (c_Backends cfg)"
    "p_dynamic q = [] \<and> p_dynamicByModel q = [] \<and> p_dynamicByNode q = []"
    using f e by (simp_all add: empty_pool_def)
  show "same_static (NewPool cfg) q"
    "lookup_list (p_byModel (NewPool cfg)) k =
      concat (map (\<lambda>m. List.map_filter (map_of (p_backends q)) (m_Backends m)) (filter (\<lambda>m. m_ID m = k) (c_Models cfg)))"
    using fold_models [of "c_Models cfg" q] e by (simp_all add: NewPool_def q_def)
qed

lemma NewPool_no_dynamic:
  "p_dynamic (NewPool cfg) = []" "p_dynamicByModel (NewPool cfg) = []" "p_dynamicByNode (NewPool cfg) = []"
  using NewPool_shape(4,5) [of cfg] by (simp_all add: same_static_def)

lemma dyn_inv_NewPool [inv_intros]: "dyn_inv (NewPool cfg)"
  by (simp add: NewPool_no_dynamic dyn_inv_def keys_ok_def heap_ok_def lookup_list_def)

text \<open>
  The pool built from a configuration routes every model to the configured backends it
  names, in the order named and no others; every backend starts idle, healthy and with the
  configured limits.
\<close>

theorem NewPool_routes:
  assumes "distinct (map m_ID (c_Models cfg))" and "m \<in> set (c_Models cfg)"
  shows "map (\<lambda>b. b_Name (p_heap (NewPool cfg) ! b)) (candidates (NewPool cfg) (m_ID m)) =
      filter (\<lambda>name. name \<in> bc_Name ` set (c_Backends cfg)) (m_Backends m) \<and>
    p_heap (NewPool cfg) = map static_backend (c_Backends cfg)"
proof -
  define q where "q = fold add_static (c_Backends cfg) empty_pool"
  note shape = NewPool_shape [where cfg = cfg, folded q_def]
  have "filter (\<lambda>m'. m_ID m' = m_ID m) (c_Models cfg) = [m]"
    using assms by (rule filter_key_single)
  then have look: "candidates (NewPool cfg) (m_ID m) = List.map_filter (map_of (p_backends q)) (m_Backends m)"
    using shape(6) [of "m_ID m"] by (simp add: candidates_def NewPool_no_dynamic)
  have heap: "p_heap (NewPool cfg) = p_heap q" using shape(4) by (simp add: same_static_def)
  have "map (\<lambda>b. b_Name (p_heap q ! b)) (List.map_filter (map_of (p_backends q)) names) =
      filter (\<lambda>name. name \<in> bc_Name ` set (c_Backends cfg)) names" for names
  proof (induction names)
    case (Cons name names)
    then show ?case
      using shape(1) shape(3) [of name]
      by (cases "map_of (p_backends q) name") (auto simp: List.map_filter_simps static_ok_def)
  qed (simp add: List.map_filter_simps)
  with look heap shape(2) show ?thesis by simp
qed

text \<open>
  C17: after any sequence of agent reports and lost agents, in any map iteration order, the
  dynamic routing table is exactly what was heard last of each node: a model is routed to a
  node if and only if the node's last report named it, a node lost since serves nothing, and
  the replicas offered to \<^verbatim>\<open>Acquire\<close> for a model are exactly the dynamic backends recorded for it.
\<close>

theorem pool_routes_last_report:
  assumes "dyn_inv p"
    and "\<forall>ev \<in> set evs. slash_free (event_node ev) \<and> orders_ok (event_order ev)"
    and "slash_free n"
    and q_def: "q = fold (apply_event pool_sync pool_drop) evs p"
  shows "(map_of (p_dynamic q) (dyn_key n m) \<noteq> None \<longleftrightarrow>
      (case last_report n evs of
         None \<Rightarrow> map_of (p_dynamic p) (dyn_key n m) \<noteq> None
       | Some es \<Rightarrow> m \<in> d_ModelID ` set es)) \<and>
    set (lookup_list (p_dynamicByModel q) m) =
      {b. \<exists>n. slash_free n \<and> map_of (p_dynamic q) (dyn_key n m) = Some b}"
proof -
  have "dyn_inv q" unfolding q_def using assms(1,2) by (rule rt.inv_events)
  moreover have "(n, m) \<in> routes q \<longleftrightarrow> (case last_report n evs of
      None \<Rightarrow> (n, m) \<in> routes p | Some es \<Rightarrow> m \<in> d_ModelID ` set es)"
    unfolding q_def using assms(1,2) by (rule rt.table_events)
  ultimately show ?thesis using assms(3)
    by (auto simp: routes_def dyn_inv_def simp del: not_None_eq split: option.splits)
qed

text \<open>
  A report never disturbs requests in flight: every backend object that existed keeps its
  slot counter, health and endpoint, also one the report replaces while leases on it are still
  open, and a backend of the node whose endpoint is unchanged stays the same object.
\<close>

theorem SyncNode_keeps_slots:
  assumes "dyn_inv p" and "b < length (p_heap p)"
    and q_def: "q = SyncNode ordk ordn node entries p"
  shows "b_inflight (p_heap q ! b) = b_inflight (p_heap p ! b) \<and>
    b_healthy (p_heap q ! b) = b_healthy (p_heap p ! b) \<and>
    b_BaseURL (p_heap q ! b) = b_BaseURL (p_heap p ! b) \<and>
    (e \<in> set entries \<and> map_of (p_dynamic p) (dyn_key node (d_ModelID e)) = Some b \<and>
     (\<forall>e' \<in> set entries. d_ModelID e' = d_ModelID e \<longrightarrow> trimSlash (d_BaseURL e') = b_BaseURL (p_heap p ! b)) \<longrightarrow>
     map_of (p_dynamic q) (dyn_key node (d_ModelID e)) = Some b)"
proof -
  have keep: "map_of (p_dynamic (report node es r)) (dyn_key node mid) = Some b"
    if "map_of (p_dynamic r) (dyn_key node mid) = Some b" "b < length (p_heap r)"
      "\<forall>e' \<in> set es. d_ModelID e' = mid \<longrightarrow> trimSlash (d_BaseURL e') = b_BaseURL (p_heap r ! b)" for es r mid
    using that
  proof (induction es arbitrary: r)
    case (Cons e es)
    have "map_of (p_dynamic (sync_entry node e r)) (dyn_key node mid) = Some b"
      using Cons.prems by (cases "d_ModelID e = mid") (auto simp: sync_entry_def Let_def dyn_key_def split: option.splits)
    with Cons sync_entry_heap [OF Cons.prems(2), of node e] show ?case by (simp add: report_def)
  qed (simp add: report_def)
  have "map_of (p_dynamic q) (dyn_key node (d_ModelID e)) = Some b"
    if "e \<in> set entries" "map_of (p_dynamic p) (dyn_key node (d_ModelID e)) = Some b"
      "\<forall>e' \<in> set entries. d_ModelID e' = d_ModelID e \<longrightarrow> trimSlash (d_BaseURL e') = b_BaseURL (p_heap p ! b)"
    using keep [OF that(2) assms(2) that(3)] that(1) by (auto simp: q_def SyncNode_dynamic set_keep_keys)
  then show ?thesis using report_heap [OF assms(2)] by (auto simp: q_def)
qed

lemma Acquire_then_Release:
  assumes "Acquire p model = (Inr lease, p')" and "\<forall>b \<in> set (candidates p model). b < length (p_heap p)"
  shows "\<exists>l'. Release (Some lease) p' = (Some l', p) \<and> (\<forall>q. Release (Some l') q = (Some l', q))"
proof (cases rule: Acquire_cases [of p model])
  case (slot b best l a)
  then have "p_heap p ! b = release (snd (acquire (p_heap p ! b)))"
    by (simp add: release_def acquire_snd)
  with slot assms show ?thesis
    by (auto simp: take_slot_def Release_def healthy_of_def)
qed (use assms in auto)

text \<open>
  A lease gives back exactly the slot it took: releasing it restores the pool, and releasing
  it again changes nothing.
\<close>

theorem Acquire_Release:
  assumes "Acquire p model = (Inr lease, p')" and "\<forall>b \<in> set (candidates p model). b < length (p_heap p)"
  shows "\<exists>l'. Release (Some lease) p' = (Some l', p) \<and> (\<forall>q. Release (Some l') q = (Some l', q))"
  using assms by (rule Acquire_then_Release)

lemma trimSlash_eq: "trimSlash s = TrimRight s ''/''"
proof (induction s rule: trimSlash.induct)
  case (1 s)
  show ?case
  proof (cases s rule: rev_cases)
    case (snoc t c)
    with 1 show ?thesis
      by (subst trimSlash.simps) (auto simp: TrimRight_def trim_right_def)
  qed (simp add: trimSlash.simps TrimRight_def trim_right_def)
qed

subsection \<open>The contract of a slot\<close>

text \<open>
  What the request path relies on: a refusal leaves the pool alone, and giving a slot back undoes
  the taking of it, whatever happened to the pool in between as long as the counters are what
  they were when the slot was granted.
\<close>

locale admission =
  fixes acq :: "'p \<Rightarrow> string \<Rightarrow> ('e + 'l) \<times> 'p"
    and give_back :: "'l \<Rightarrow> 'p \<Rightarrow> 'p"
    and counters :: "'p \<Rightarrow> int list"
    and routed :: "'p \<Rightarrow> bool"
  assumes refusal: "acq p model = (Inl e, p') \<Longrightarrow> p' = p"
    and balance: "routed p \<Longrightarrow> acq p model = (Inr l, p') \<Longrightarrow> counters q = counters p' \<Longrightarrow>
      counters (give_back l q) = counters p"
begin

definition visit :: "('p \<Rightarrow> 'p) \<Rightarrow> string \<Rightarrow> 'p \<Rightarrow> 'p" where
  "visit f model p = (case acq p model of (Inl e, p') \<Rightarrow> p' | (Inr l, p') \<Rightarrow> give_back l (f p'))"

lemma visit_balanced:
  assumes "routed p" and "\<And>q. counters (f q) = counters q"
  shows "counters (visit f model p) = counters p"
  using assms balance [OF assms(1)] by (auto simp: visit_def dest: refusal split: prod.splits sum.splits)

end

definition pool_counters :: "Pool \<Rightarrow> int list" where
  "pool_counters p = map b_inflight (p_heap p)"

definition pool_routed :: "Pool \<Rightarrow> bool" where
  "pool_routed p \<longleftrightarrow> (\<forall>model. \<forall>b \<in> set (candidates p model). b < length (p_heap p))"

interpretation pool: admission Acquire "\<lambda>l p. snd (Release (Some l) p)" pool_counters pool_routed
proof
  fix p model e p'
  assume "Acquire p model = (Inl e, p')"
  then show "p' = p" by (cases rule: Acquire_cases [of p model]) (auto simp: take_slot_def)
next
  fix p model l p' q
  assume r: "pool_routed p" and a: "Acquire p model = (Inr l, p')" and q: "pool_counters q = pool_counters p'"
  show "pool_counters (snd (Release (Some l) q)) = pool_counters p"
  proof (cases rule: Acquire_cases [of p model])
    case (slot b best load any)
    then have b: "b < length (p_heap p)" using r by (auto simp: pool_routed_def healthy_of_def)
    have l: "l = \<lparr>l_B = b, l_done = False\<rparr>" and p': "p_heap p' = (p_heap p)[b := snd (acquire (p_heap p ! b))]"
      using slot(3) a by (auto simp: take_slot_def)
    have c: "map b_inflight (p_heap q) = (map b_inflight (p_heap p))[b := b_inflight (p_heap p ! b) + 1]"
      using q p' slot(2) by (simp add: pool_counters_def map_update acquire_snd)
    have "length (p_heap q) = length (p_heap p)" using arg_cong [OF c, of length] by simp
    moreover have "b_inflight (p_heap q ! b) = b_inflight (p_heap p ! b) + 1"
      using arg_cong [OF c, of "\<lambda>xs. xs ! b"] b calculation by simp
    ultimately show ?thesis
      by (simp add: l Release_def pool_counters_def map_update release_def c)
        (metis b length_map list_update_id nth_map)
  qed (use a in auto)
qed

subsection \<open>Concrete pools\<close>

definition two_backends :: Config where
  "two_backends = sample_config\<lparr>c_Backends :=
     [\<lparr>bc_Name = ''gpu1'', bc_BaseURL = ''http://gpu1/'', bc_APIKey = [], bc_MaxConcurrency = 2,
       bc_Timeout = 0, bc_Weight = 1\<rparr>,
      \<lparr>bc_Name = ''gpu2'', bc_BaseURL = ''http://gpu2'', bc_APIKey = [], bc_MaxConcurrency = 2,
       bc_Timeout = 0, bc_Weight = 3\<rparr>],
     c_Models := [(sample_model ''m'')\<lparr>m_Backends := [''gpu1'', ''node1'', ''gpu2'']\<rparr>]\<rparr>"

definition sample_pool :: Pool where
  "sample_pool =
     (let p = NewPool two_backends
      in p\<lparr>p_heap := [(p_heap p ! 0)\<lparr>b_inflight := 1\<rparr>, (p_heap p ! 1)\<lparr>b_inflight := 1\<rparr>]\<rparr>)"

definition sample_lease :: Lease where
  "sample_lease = \<lparr>l_B = 1, l_done = False\<rparr>"

definition sample_pool' :: Pool where
  "sample_pool' = snd (Acquire sample_pool ''m'')"

lemma sample_pool_facts:
  "candidates sample_pool ''m'' = [0, 1]" "length (p_heap sample_pool) = 2"
  "fst (Acquire sample_pool ''m'') = Inr sample_lease"
  "healthy_of (p_heap sample_pool) [0, 1] = [0, 1]"
  "load_of (p_heap sample_pool ! 0) = 1" "load_of (p_heap sample_pool ! 1) < 1"
  "\<not> full (p_heap sample_pool ! 0)" "\<not> full (p_heap sample_pool ! 1)"
  by code_simp+

lemma sample_Acquire: "Acquire sample_pool ''m'' = (Inr sample_lease, sample_pool')"
  by (simp add: sample_pool'_def sample_pool_facts(3) [symmetric])

theorem Acquire_refuses_witness:
  "fst (Acquire sample_pool ''unknown'') = Inl ErrNoBackend \<and> snd (Acquire sample_pool ''unknown'') = sample_pool"
proof -
  have "healthy_of (p_heap sample_pool) (candidates sample_pool ''unknown'') = []" by code_simp
  then show ?thesis using Acquire_refuses [of sample_pool "''unknown''" ErrNoBackend] by simp
qed

theorem Acquire_grants_witness:
  "b_inflight (p_heap sample_pool' ! l_B sample_lease) = b_inflight (p_heap sample_pool ! l_B sample_lease) + 1"
  using Acquire_grants [OF sample_Acquire] by (simp add: sample_pool_facts)

theorem Acquire_least_loaded_witness:
  "load_of (p_heap sample_pool ! l_B sample_lease) \<le> load_of (p_heap sample_pool ! 0)"
  using Acquire_least_loaded [OF sample_Acquire] sample_pool_facts by auto

theorem Acquire_Release_witness:
  "\<exists>l'. Release (Some sample_lease) sample_pool' = (Some l', sample_pool) \<and> (\<forall>q. Release (Some l') q = (Some l', q))"
  using Acquire_Release [OF sample_Acquire] by (simp add: sample_pool_facts)

lemma sample_run:
  "slot_run (slot_init 1 2) [Load_cur 0, Load_cur 1, Swap 1, Swap_fails 0]
     \<lparr>cs_max = 1, cs_high = 1, cs_inflight = 1, cs_gs = [Idle, Holding]\<rparr>"
proof -
  let ?s = "\<lambda>i g. \<lparr>cs_max = 1, cs_high = 1, cs_inflight = i, cs_gs = g\<rparr>"
  have init: "slot_init 1 2 = ?s 0 [Idle, Idle]" by (simp add: slot_init_def numeral_2_eq_2)
  have "slot_run (?s 0 [Idle, Idle]) [] (?s 0 [Idle, Idle])" by (rule run_nil)
  from run_snoc [OF this slot_step.load [of 0]]
  have "slot_run (?s 0 [Idle, Idle]) [Load_cur 0] (?s 0 [Loaded 0, Idle])" by simp
  from run_snoc [OF this slot_step.load [of 1]]
  have "slot_run (?s 0 [Idle, Idle]) [Load_cur 0, Load_cur 1] (?s 0 [Loaded 0, Loaded 0])" by simp
  from run_snoc [OF this slot_step.swap [of 1 _ 0]]
  have "slot_run (?s 0 [Idle, Idle]) [Load_cur 0, Load_cur 1, Swap 1] (?s 1 [Loaded 0, Holding])" by simp
  from run_snoc [OF this slot_step.swap_fails [of 0 _ 0]]
  show ?thesis unfolding init by simp
qed

theorem slots_exact_witness: "int (holders \<lparr>cs_max = 1, cs_high = 1, cs_inflight = 1, cs_gs = [Idle, Holding]\<rparr>) \<le> 1"
  using slots_exact [OF _ sample_run] by auto

theorem NewPool_routes_witness:
  "map (\<lambda>b. b_Name (p_heap (NewPool two_backends) ! b))
     (candidates (NewPool two_backends) (m_ID (hd (c_Models two_backends)))) = [''gpu1'', ''gpu2'']"
proof -
  have "distinct (map m_ID (c_Models two_backends))"
    and "c_Models two_backends \<noteq> []" by code_simp+
  then have "map (\<lambda>b. b_Name (p_heap (NewPool two_backends) ! b))
      (candidates (NewPool two_backends) (m_ID (hd (c_Models two_backends)))) =
      filter (\<lambda>name. name \<in> bc_Name ` set (c_Backends two_backends)) (m_Backends (hd (c_Models two_backends)))"
    using NewPool_routes [of two_backends "hd (c_Models two_backends)"] hd_in_set by blast
  also have "\<dots> = [''gpu1'', ''gpu2'']" by code_simp
  finally show ?thesis .
qed

definition sample_entry :: DynamicBackend where
  "sample_entry = \<lparr>d_Node = ''node1'', d_ModelID = ''m'', d_BaseURL = ''http://node1:9000/v1'',
     d_MaxConcurrency = 8, d_Weight = 1\<rparr>"

definition sample_events :: "(orders, string, DynamicBackend) node_event list" where
  "sample_events = [Reported (\<lambda>x. x, \<lambda>x. x) ''node1'' [sample_entry],
     Reported (rev, rev) ''node2'' [sample_entry], Unreachable (rev, rev) ''node1'']"

definition synced_pool :: Pool where
  "synced_pool = fold (apply_event pool_sync pool_drop) sample_events (NewPool two_backends)"

lemma sample_events_ok:
  "\<forall>ev \<in> set sample_events. slash_free (event_node ev) \<and> orders_ok (event_order ev)"
  by (simp add: sample_events_def slash_free_def orders_ok_def)

lemma dyn_inv_synced_pool: "dyn_inv synced_pool"
  unfolding synced_pool_def by (rule rt.inv_events [OF dyn_inv_NewPool sample_events_ok])

theorem pool_routes_last_report_witness:
  "map_of (p_dynamic synced_pool) (dyn_key ''node1'' ''m'') = None \<and>
   map_of (p_dynamic synced_pool) (dyn_key ''node2'' ''m'') \<noteq> None"
proof -
  have sf: "slash_free ''node1''" "slash_free ''node2''" by (simp_all add: slash_free_def)
  have "last_report ''node1'' sample_events = Some []" "last_report ''node2'' sample_events = Some [sample_entry]"
    by (simp_all add: sample_events_def)
  then show ?thesis
    using pool_routes_last_report [OF dyn_inv_NewPool sample_events_ok sf(1) synced_pool_def, of "''m''"]
      pool_routes_last_report [OF dyn_inv_NewPool sample_events_ok sf(2) synced_pool_def, of "''m''"]
    by (simp add: sample_entry_def)
qed

theorem SyncNode_keeps_slots_witness:
  "map_of (p_dynamic (SyncNode rev rev ''node2'' [sample_entry] synced_pool)) (dyn_key ''node2'' ''m'') = Some 3"
proof -
  have "map_of (p_dynamic synced_pool) (dyn_key ''node2'' ''m'') = Some 3" "3 < length (p_heap synced_pool)"
    "b_BaseURL (p_heap synced_pool ! 3) = trimSlash (d_BaseURL sample_entry)" "d_ModelID sample_entry = ''m''"
    by code_simp+
  then show ?thesis
    using SyncNode_keeps_slots [OF dyn_inv_synced_pool _ refl, where b = 3 and e = sample_entry and
        entries = "[sample_entry]" and node = "''node2''" and ordk = rev and ordn = rev]
    by simp
qed

text \<open>A node name with a slash makes keys of different nodes coincide.\<close>

lemma dyn_key_collision: "dyn_key ''a/b'' ''c'' = dyn_key ''a'' ''b/c''"
  by (simp add: dyn_key_def)

end
