(* ===== verification/Gateway_Catalog.thy ===== *)
theory Gateway_Catalog
  imports Gateway_Config
begin

text \<open>
  The model catalog (\<^verbatim>\<open>src/internal/gateway/catalog.go\<close>): the table built from the
  configuration, the price of a request in float64 arithmetic, and the rewriting of the model
  name the engine echoes. \<^verbatim>\<open>strconv.ParseFloat\<close> is modelled for finite decimal numbers (an
  optional sign, digits with an optional point, an optional exponent); the other notations it
  accepts (hexadecimal, infinities, NaN, underscores) are not price strings.
\<close>

subsection \<open>Prices\<close>

definition dec_value :: "string \<Rightarrow> string \<Rightarrow> int \<Rightarrow> rat option" where
  "dec_value ip fp e =
     (if ip = [] \<and> fp = [] then None
      else case digits_value 0 (ip @ fp) of
        None \<Rightarrow> None
      | Some n \<Rightarrow>
          let k = e - int (length fp)
          in Some (if 0 \<le> k then of_nat n * 10 ^ nat k else of_nat n / 10 ^ nat (- k)))"

definition ParseFloat :: "string \<Rightarrow> rat option" where
  "ParseFloat s =
     (let neg = HasPrefix s ''-'';
          body = (if neg \<or> HasPrefix s ''+'' then tl s else s);
          (mant, ex, has_ex) = Cut (ToLower body) ''e'';
          (ip, fp, _) = Cut mant ''.'';
          (e, e_ok) = (if has_ex then Atoi ex else (0, True))
      in if \<not> e_ok then None
         else map_option (\<lambda>v. fl64 (if neg then - v else v)) (dec_value ip fp e))"

definition parsePrice :: "string \<Rightarrow> rat" where
  "parsePrice s = (if s = [] then 0 else case ParseFloat s of None \<Rightarrow> 0 | Some v \<Rightarrow> v)"

subsection \<open>Entries\<close>

record Entry =
  e_ID :: string
  e_UpstreamModel :: string
  e_ContextLength :: int
  e_MaxOutput :: int
  e_IsFree :: bool
  e_PromptUSD :: rat
  e_CompletionUSD :: rat
  e_CachedPromptUSD :: rat
  e_ReasoningUSD :: rat
  e_DiscountToUser :: rat
  e_RewriteModel :: bool
  e_modelNeedles :: "bytes list"
  e_modelRepls :: "bytes list"

text \<open>
  The loop of \<^verbatim>\<open>PatchModelName\<close> over the needles; the scratch buffer \<^verbatim>\<open>dst\<close> is an optimisation of
  the allocation and does not influence the frame returned.
\<close>

fun patch_loop :: "bytes list \<Rightarrow> bytes list \<Rightarrow> bytes \<Rightarrow> bytes" where
  "patch_loop (needle # ns) (repl # rs) frame =
     (case Index frame needle of
        None \<Rightarrow> patch_loop ns rs frame
      | Some idx \<Rightarrow> take idx frame @ repl @ drop (idx + length needle) frame)"
| "patch_loop _ _ frame = frame"

definition PatchModelName :: "Entry \<Rightarrow> bytes \<Rightarrow> bytes" where
  "PatchModelName e frame =
     (if \<not> e_RewriteModel e then frame
      else patch_loop (e_modelNeedles e) (e_modelRepls e) frame)"

definition Cost :: "Entry \<Rightarrow> int \<Rightarrow> int \<Rightarrow> int \<Rightarrow> int \<Rightarrow> rat" where
  "Cost e promptTok completionTok cachedTok reasoningTok =
     (if e_IsFree e then 0
      else
        let billablePrompt = (if promptTok - cachedTok < 0 then 0 else promptTok - cachedTok);
            total = f_add (f_add (f_mul (f_of_int billablePrompt) (e_PromptUSD e))
                                 (f_mul (f_of_int cachedTok) (e_CachedPromptUSD e)))
                          (f_mul (f_of_int completionTok) (e_CompletionUSD e));
            total = (if e_ReasoningUSD e > 0 \<and> reasoningTok > 0
                     then f_add total (f_mul (f_of_int reasoningTok)
                            (f_sub (e_ReasoningUSD e) (e_CompletionUSD e)))
                     else total);
            total = (if e_DiscountToUser e \<noteq> 0
                     then f_mul total (f_sub 1 (e_DiscountToUser e)) else total)
        in if total < 0 then 0 else total)"

subsection \<open>The catalog\<close>

type_synonym Catalog = "(string \<times> Entry) list"

definition model_seps :: "string list" where
  "model_seps = [[CHR 0x22] @ ''model'' @ [CHR 0x22] @ '':'' @ [CHR 0x22],
                 [CHR 0x22] @ ''model'' @ [CHR 0x22] @ '': '' @ [CHR 0x22]]"

definition mk_entry :: "Model \<Rightarrow> Entry" where
  "mk_entry src =
     (let rewrite = (m_UpstreamModel src \<noteq> m_ID src)
      in \<lparr>e_ID = m_ID src, e_UpstreamModel = m_UpstreamModel src,
          e_ContextLength = m_ContextLength src, e_MaxOutput = m_MaxOutputTokens src,
          e_IsFree = m_IsFree src,
          e_PromptUSD = parsePrice (pr_Prompt (m_Pricing src)),
          e_CompletionUSD = parsePrice (pr_Completion (m_Pricing src)),
          e_CachedPromptUSD = parsePrice (pr_CachedPrompt (m_Pricing src)),
          e_ReasoningUSD = parsePrice (pr_InternalReasoning (m_Pricing src)),
          e_DiscountToUser = m_DiscountToUser src,
          e_RewriteModel = rewrite,
          e_modelNeedles = (if rewrite then map (\<lambda>sep. sep @ m_UpstreamModel src @ [CHR 0x22]) model_seps else []),
          e_modelRepls = (if rewrite then map (\<lambda>sep. sep @ m_ID src @ [CHR 0x22]) model_seps else [])\<rparr>)"

definition Replace :: "Config \<Rightarrow> Catalog" where
  "Replace cfg = fold (\<lambda>src m. AList.update (m_ID src) (mk_entry src) m) (c_Models cfg) []"

definition NewCatalog :: "Config \<Rightarrow> Catalog" where
  "NewCatalog cfg = Replace cfg"

definition Catalog_Get :: "Catalog \<Rightarrow> string \<Rightarrow> Entry option" where
  "Catalog_Get c mid = map_of c mid"

definition Catalog_IDs :: "(string list \<Rightarrow> string list) \<Rightarrow> Catalog \<Rightarrow> string list" where
  "Catalog_IDs ord c = ord (map fst c)"

subsection \<open>Properties\<close>

lemma map_of_fold_update:
  "map_of (fold (\<lambda>x m. AList.update (f x) (g x) m) xs m) k =
   (case find (\<lambda>x. f x = k) (rev xs) of Some x \<Rightarrow> Some (g x) | None \<Rightarrow> map_of m k)"
  by (induction xs arbitrary: m) (auto simp: find_append split: option.splits)

lemma find_rev_distinct:
  "distinct (map f xs) \<Longrightarrow> find (\<lambda>x. f x = k) (rev xs) = find (\<lambda>x. f x = k) xs"
proof (induction xs)
  case (Cons x xs)
  then have IH: "find (\<lambda>x. f x = k) (rev xs) = find (\<lambda>x. f x = k) xs" by simp
  show ?case
  proof (cases "f x = k")
    case True
    with Cons.prems have "find (\<lambda>x. f x = k) (rev xs) = None"
      by (auto simp: find_None_iff) (metis imageI)
    with True show ?thesis by (simp add: find_append)
  next
    case False
    with IH show ?thesis by (simp add: find_append split: option.split)
  qed
qed simp

text \<open>
  The catalog is the configuration's model table: looking an id up gives the entry of the
  configured model with that id, and nothing for any other id.
\<close>

theorem Catalog_Get_NewCatalog:
  assumes "distinct (map m_ID (c_Models cfg))"
  shows "Catalog_Get (NewCatalog cfg) mid = map_option mk_entry (find_model cfg mid)"
  using assms
  by (simp add: Catalog_Get_def NewCatalog_def Replace_def map_of_fold_update find_rev_distinct
      find_model_def split: option.split)

text \<open>Every price of a request is a sum of rounded products; the bounds of three such terms.\<close>

definition price_ok :: "rat \<Rightarrow> bool" where
  "price_ok p \<longleftrightarrow> p = 0 \<or> pow2 (-1000) \<le> p"

lemma normal_or_zero_nonneg: "normal_or_zero x \<Longrightarrow> 0 \<le> x"
  by (auto simp: normal_or_zero_def intro: order_trans [OF pow2_nonneg])

lemma normal_add: "normal_or_zero a \<Longrightarrow> normal_or_zero b \<Longrightarrow> normal_or_zero (a + b)"
  using normal_or_zero_nonneg [of a] normal_or_zero_nonneg [of b]
  by (auto simp: normal_or_zero_def intro: add_increasing2)

lemma term_product:
  assumes "0 \<le> n" and "n \<le> 2 ^ 53" and "price_ok p"
  defines "x \<equiv> of_int n * p"
  shows "x * (1 - ulp_half) \<le> f_mul (f_of_int n) p \<and> f_mul (f_of_int n) p \<le> x * (1 + ulp_half) \<and>
         normal_or_zero (f_mul (f_of_int n) p) \<and> 0 \<le> x"
proof -
  have fx: "f_mul (f_of_int n) p = fl64 x" using assms by (simp add: f_defs fl64_of_int)
  consider "x = 0" | "pow2 (-1000) \<le> x"
  proof (cases "n = 0 \<or> p = 0")
    case False
    with assms have "pow2 (-1000) \<le> p" "1 \<le> (of_int n :: rat)" by (auto simp: price_ok_def)
    then have "1 * pow2 (-1000) \<le> of_int n * p" by (intro mult_mono) auto
    with that show thesis by (simp add: x_def)
  qed (use that in \<open>auto simp: x_def\<close>)
  then show ?thesis
  proof cases
    case 2
    have "pow2 (-1022) \<le> pow2 (-1000)" by simp
    then have "pow2 (-1022) \<le> x" using 2 by (rule order_trans)
    then have nx: "normal_or_zero x" by (simp add: normal_or_zero_def)
    have "normal_or_zero (fl64 x)" using nx by (rule normal_fl64)
    with fl64_relative [OF nx] fx normal_or_zero_nonneg [OF nx] show ?thesis by simp
  qed (simp add: fx normal_or_zero_def)
qed

lemma fl64_within:
  assumes "normal_or_zero y" and "0 \<le> x" and "x * lo \<le> y" and "y \<le> x * hi"
  shows "x * (lo * (1 - ulp_half)) \<le> fl64 y \<and> fl64 y \<le> x * (hi * (1 + ulp_half))"
proof -
  have "(x * lo) * (1 - ulp_half) \<le> y * (1 - ulp_half)" "y * (1 + ulp_half) \<le> (x * hi) * (1 + ulp_half)"
    using assms ulp_half_bounds by (intro mult_right_mono; simp)+
  with fl64_relative [OF assms(1)] show ?thesis by (simp add: mult.assoc)
qed

lemma abs_within:
  fixes t S c :: rat
  assumes "S * (1 - c) \<le> t" and "t \<le> S * (1 + c)"
  shows "\<bar>t - S\<bar> \<le> S * c"
  using assms by (simp add: abs_le_iff algebra_simps)


text \<open>
  No request is billed a negative amount, a free model costs nothing, and with prices that
  are not negative a request with more prompt or more completion tokens never costs less, in
  spite of the rounding of every step.
\<close>

theorem Cost_monotone:
  assumes "0 \<le> e_PromptUSD e" and "0 \<le> e_CompletionUSD e" and "e_DiscountToUser e \<le> 1"
    and "promptTok \<le> promptTok'" and "completionTok \<le> completionTok'"
  shows "0 \<le> Cost e promptTok completionTok cachedTok reasoningTok \<and>
    (e_IsFree e \<longrightarrow> Cost e promptTok completionTok cachedTok reasoningTok = 0) \<and>
    Cost e promptTok completionTok cachedTok reasoningTok \<le> Cost e promptTok' completionTok' cachedTok reasoningTok"
proof -
  let ?b = "\<lambda>p. if p - cachedTok < 0 then 0 else p - cachedTok"
  let ?t = "\<lambda>p c. f_add (f_add (f_mul (f_of_int (?b p)) (e_PromptUSD e)) (f_mul (f_of_int cachedTok) (e_CachedPromptUSD e)))
      (f_mul (f_of_int c) (e_CompletionUSD e))"
  have t: "?t promptTok completionTok \<le> ?t promptTok' completionTok'"
    unfolding f_defs using assms by (intro f64.add_mono f64.mult_mono f64.of_int_mono order_refl) auto
  have sum: "f_add a r \<le> f_add b r" if "a \<le> b" for a b r
    unfolding f_defs using that by (intro f64.add_mono order_refl)
  have disc: "0 \<le> f_sub 1 (e_DiscountToUser e)"
    unfolding f_defs using assms by (intro f64.rnd_nonneg) simp
  have mul: "f_mul a (f_sub 1 (e_DiscountToUser e)) \<le> f_mul b (f_sub 1 (e_DiscountToUser e))" if "a \<le> b" for a b
    unfolding f_mul_def using that disc by (intro f64.mult_mono)
  have clamp: "(if a < 0 then 0 else a) \<le> (if b < 0 then 0 else b)" if "a \<le> b" for a b :: rat
    using that by auto
  let ?r = "\<lambda>x. if e_ReasoningUSD e > 0 \<and> reasoningTok > 0
      then f_add x (f_mul (f_of_int reasoningTok) (f_sub (e_ReasoningUSD e) (e_CompletionUSD e))) else x"
  let ?d = "\<lambda>x. if e_DiscountToUser e \<noteq> 0 then f_mul x (f_sub 1 (e_DiscountToUser e)) else x"
  have "?r a \<le> ?r b" "?d a \<le> ?d b" if "a \<le> b" for a b using that sum mul by simp_all
  then have "?d (?r (?t promptTok completionTok)) \<le> ?d (?r (?t promptTok' completionTok'))" using t by blast
  from clamp [OF this]
  have "Cost e promptTok completionTok cachedTok reasoningTok \<le> Cost e promptTok' completionTok' cachedTok reasoningTok"
    unfolding Cost_def Let_def by simp
  moreover have "0 \<le> Cost e promptTok completionTok cachedTok reasoningTok"
    unfolding Cost_def Let_def by simp
  ultimately show ?thesis by (simp add: Cost_def)
qed

text \<open>
  When the engine's model name differs from the public id, the first echo of the name in a
  frame, in either spacing, is replaced by the id and every other byte of the frame is kept; a
  frame without an echo, and every frame of a model whose names agree, is passed on unchanged.
\<close>

theorem PatchModelName_patches:
  assumes "a @ sep @ m_UpstreamModel m @ [CHR 0x22] @ b = frame"
    and "Index frame (sep @ m_UpstreamModel m @ [CHR 0x22]) = Some (length a)"
    and "sep = model_seps ! 0 \<or> sep = model_seps ! 1 \<and> \<not> Contains frame (model_seps ! 0 @ m_UpstreamModel m @ [CHR 0x22])"
  shows "PatchModelName (mk_entry m) frame = a @ sep @ m_ID m @ [CHR 0x22] @ b \<and>
    (\<not> Contains other (model_seps ! 0 @ m_UpstreamModel m @ [CHR 0x22]) \<and>
     \<not> Contains other (model_seps ! 1 @ m_UpstreamModel m @ [CHR 0x22]) \<longrightarrow>
     PatchModelName (mk_entry m) other = other)"
proof -
  define s0 s1 where "s0 = model_seps ! 0" and "s1 = model_seps ! 1"
  have seps: "model_seps = [s0, s1]" by (simp add: s0_def s1_def model_seps_def)
  have patch: "PatchModelName (mk_entry m) f =
      (if m_UpstreamModel m = m_ID m then f
       else patch_loop [s0 @ m_UpstreamModel m @ [CHR 0x22], s1 @ m_UpstreamModel m @ [CHR 0x22]]
              [s0 @ m_ID m @ [CHR 0x22], s1 @ m_ID m @ [CHR 0x22]] f)" for f
    by (simp add: PatchModelName_def mk_entry_def Let_def seps)
  have cut: "take (length a) frame = a" "drop (length a + length (sep @ m_UpstreamModel m @ [CHR 0x22])) frame = b"
    using assms(1) by auto
  have "PatchModelName (mk_entry m) frame = a @ sep @ m_ID m @ [CHR 0x22] @ b"
  proof (cases "m_UpstreamModel m = m_ID m")
    case True
    with assms(1) show ?thesis by (simp add: patch)
  next
    case False
    with assms(2,3) cut show ?thesis
      unfolding patch s0_def [symmetric] s1_def [symmetric] by (auto simp: Contains_def)
  qed
  moreover have "PatchModelName (mk_entry m) other = other"
    if "\<not> Contains other (s0 @ m_UpstreamModel m @ [CHR 0x22])" "\<not> Contains other (s1 @ m_UpstreamModel m @ [CHR 0x22])"
    unfolding patch using that by (simp add: Contains_def)
  ultimately show ?thesis by (auto simp: s0_def s1_def)
qed

subsection \<open>Concrete entries\<close>

definition sample_entry_cfg :: Entry where
  "sample_entry_cfg = mk_entry ((sample_model ''m'')\<lparr>m_UpstreamModel := ''org/m''\<rparr>)"

theorem Catalog_Get_NewCatalog_witness:
  "Catalog_Get (NewCatalog sample_config) ''m'' = map_option mk_entry (find_model sample_config ''m'')"
  by (rule Catalog_Get_NewCatalog) code_simp

lemma sample_prices:
  "e_ReasoningUSD sample_entry_cfg = 0" "e_DiscountToUser sample_entry_cfg = 0" "\<not> e_IsFree sample_entry_cfg"
  "e_CachedPromptUSD sample_entry_cfg = 0" "1 / 2 ^ 20 \<le> e_PromptUSD sample_entry_cfg" "1 / 2 ^ 19 \<le> e_CompletionUSD sample_entry_cfg"
  by code_simp+

lemma sample_price_ok:
  "price_ok (e_PromptUSD sample_entry_cfg)" "price_ok (e_CachedPromptUSD sample_entry_cfg)" "price_ok (e_CompletionUSD sample_entry_cfg)"
proof -
  have "pow2 (-1000) \<le> pow2 (-20)" "pow2 (-1000) \<le> pow2 (-19)" by simp_all
  moreover have "pow2 (-20) = 1 / 2 ^ 20" "pow2 (-19) = 1 / 2 ^ 19" by (simp_all add: pow2_def)
  ultimately show "price_ok (e_PromptUSD sample_entry_cfg)" "price_ok (e_CachedPromptUSD sample_entry_cfg)"
    "price_ok (e_CompletionUSD sample_entry_cfg)"
    using sample_prices by (auto simp: price_ok_def intro: order_trans)
qed


theorem Cost_monotone_witness: "Cost sample_entry_cfg 1000 200 100 0 \<le> Cost sample_entry_cfg 1001 200 100 0"
proof -
  have "0 \<le> e_PromptUSD sample_entry_cfg" "0 \<le> e_CompletionUSD sample_entry_cfg" by code_simp+
  then show ?thesis using Cost_monotone [of sample_entry_cfg 1000 1001 200 200 100 0] by (simp add: sample_prices)
qed

theorem PatchModelName_patches_witness:
  "PatchModelName (mk_entry ((sample_model ''m'')\<lparr>m_UpstreamModel := ''org/m''\<rparr>))
     (''{'' @ model_seps ! 1 @ ''org/m'' @ [CHR 0x22] @ ''}'') = ''{'' @ model_seps ! 1 @ ''m'' @ [CHR 0x22] @ ''}''"
proof -
  let ?m = "(sample_model ''m'')\<lparr>m_UpstreamModel := ''org/m''\<rparr>"
  have ids: "m_UpstreamModel ?m = ''org/m''" "m_ID ?m = ''m''" by code_simp+
  have "Index (''{'' @ model_seps ! 1 @ ''org/m'' @ [CHR 0x22] @ ''}'') (model_seps ! 1 @ ''org/m'' @ [CHR 0x22]) = Some 1"
    "\<not> Contains (''{'' @ model_seps ! 1 @ ''org/m'' @ [CHR 0x22] @ ''}'') (model_seps ! 0 @ ''org/m'' @ [CHR 0x22])"
    by code_simp+
  then show ?thesis
    using PatchModelName_patches [of "''{''" "model_seps ! 1" ?m "''}''", OF refl] unfolding ids by auto
qed

end
