(* ===== verification/Store_Log.thy ===== *)
theory Store_Log
  imports LLM_Prelude Go_Float
begin

text \<open>
  The request log of the store (\<^verbatim>\<open>src/internal/store/store.go\<close>): handlers queue records without
  ever blocking, and one writer goroutine drains the channel into batched transactions. The
  state is the buffered channel, the batch the writer holds, the table and the drop counter;
  \<open>wl_step\<close> interleaves the handlers with the writer. Two lists that no step reads record what
  was accepted and what a failed transaction lost.
\<close>

record Record =
  r_TS :: time
  r_RequestID :: string
  r_Model :: string
  r_Backend :: string
  r_APIKeyID :: int
  r_Status :: int
  r_Streamed :: bool
  r_PromptTokens :: int
  r_CompletionTokens :: int
  r_ReasoningTokens :: int
  r_CachedTokens :: int
  r_TTFTMs :: int
  r_TotalMs :: int
  r_GenMs :: int
  r_TPS :: rat
  r_CostUSD :: rat
  r_Error :: string

definition chan_cap :: nat where "chan_cap = 8192"
definition maxBatch :: nat where "maxBatch = 256"

record log_state =
  q_ch :: "Record list"
  q_closed :: bool
  q_dropped :: nat
  q_batch :: "Record list"
  q_table :: "Record list"
  q_done :: bool
  q_accepted :: "Record list"
  q_lost :: "Record list"

definition log_init :: log_state where
  "log_init = \<lparr>q_ch = [], q_closed = False, q_dropped = 0, q_batch = [], q_table = [],
     q_done = False, q_accepted = [], q_lost = []\<rparr>"

text \<open>\<^verbatim>\<open>Log\<close>: the send succeeds when the buffer has room, otherwise the default case counts a drop.\<close>

definition Log :: "Record \<Rightarrow> log_state \<Rightarrow> log_state" where
  "Log rec s =
     (if length (q_ch s) < chan_cap
      then s\<lparr>q_ch := q_ch s @ [rec], q_accepted := q_accepted s @ [rec]\<rparr>
      else s\<lparr>q_dropped := q_dropped s + 1\<rparr>)"

definition Dropped :: "log_state \<Rightarrow> nat" where
  "Dropped s = q_dropped s"

text \<open>\<^verbatim>\<open>insertBatch\<close> is one transaction: all rows of the batch, or none.\<close>

definition insertBatch :: "bool \<Rightarrow> Record list \<Rightarrow> Record list \<Rightarrow> bool \<times> Record list" where
  "insertBatch commit_ok batch table = (if commit_ok then (True, table @ batch) else (False, table))"

definition flush :: "bool \<Rightarrow> log_state \<Rightarrow> log_state" where
  "flush commit_ok s =
     (if q_batch s = [] then s
      else case insertBatch commit_ok (q_batch s) (q_table s) of
        (ok, table) \<Rightarrow>
          s\<lparr>q_table := table, q_batch := [],
            q_lost := (if ok then q_lost s else q_lost s @ q_batch s)\<rparr>)"

definition store_close :: "log_state \<Rightarrow> log_state" where
  "store_close s = s\<lparr>q_closed := True\<rparr>"

text \<open>
  The events: a handler logs (only before the channel is closed: a send afterwards panics), the
  writer receives, the ticker fires, the store is closed, and the writer sees the closed and
  drained channel. The flag says whether the transaction of the event, if any, commits.
\<close>

datatype log_event = Logged Record | Receive bool | Tick bool | Closing | Finish bool

inductive wl_step :: "log_state \<Rightarrow> log_event \<Rightarrow> log_state \<Rightarrow> bool" where
  logged: "\<not> q_closed s \<Longrightarrow> wl_step s (Logged rec) (Log rec s)"
| receive: "\<not> q_done s \<Longrightarrow> q_ch s = rec # rest \<Longrightarrow>
    s' = s\<lparr>q_ch := rest, q_batch := q_batch s @ [rec]\<rparr> \<Longrightarrow>
    wl_step s (Receive ok) (if length (q_batch s') \<ge> maxBatch then flush ok s' else s')"
| tick: "\<not> q_done s \<Longrightarrow> wl_step s (Tick ok) (flush ok s)"
| closing: "\<not> q_closed s \<Longrightarrow> wl_step s Closing (store_close s)"
| finish: "\<not> q_done s \<Longrightarrow> q_closed s \<Longrightarrow> q_ch s = [] \<Longrightarrow>
    wl_step s (Finish ok) ((flush ok s)\<lparr>q_done := True\<rparr>)"

inductive wl_run :: "log_state \<Rightarrow> log_event list \<Rightarrow> log_state \<Rightarrow> bool" where
  wl_nil: "wl_run s [] s"
| wl_snoc: "wl_run s es s' \<Longrightarrow> wl_step s' e s'' \<Longrightarrow> wl_run s (es @ [e]) s''"

fun commits :: "log_event \<Rightarrow> bool" where
  "commits (Receive ok) = ok"
| "commits (Tick ok) = ok"
| "commits (Finish ok) = ok"
| "commits _ = True"

fun is_logged :: "log_event \<Rightarrow> bool" where
  "is_logged (Logged _) = True"
| "is_logged _ = False"

definition log_inv :: "log_state \<Rightarrow> bool" where
  "log_inv s \<longleftrightarrow> length (q_ch s) \<le> chan_cap \<and> length (q_batch s) < maxBatch \<and>
     mset (q_table s) + mset (q_lost s) + mset (q_batch s) + mset (q_ch s) = mset (q_accepted s) \<and>
     (q_done s \<longrightarrow> q_closed s \<and> q_ch s = [] \<and> q_batch s = [])"

definition log_order :: "log_state \<Rightarrow> bool" where
  "log_order s \<longleftrightarrow> q_lost s = [] \<and> q_table s @ q_batch s @ q_ch s = q_accepted s"

lemma flush_inv:
  "length (q_ch s) \<le> chan_cap \<and>
     mset (q_table s) + mset (q_lost s) + mset (q_batch s) + mset (q_ch s) = mset (q_accepted s) \<Longrightarrow>
   length (q_ch (flush ok s)) \<le> chan_cap \<and> q_batch (flush ok s) = [] \<and>
     mset (q_table (flush ok s)) + mset (q_lost (flush ok s)) + mset (q_ch (flush ok s)) = mset (q_accepted (flush ok s)) \<and>
     q_done (flush ok s) = q_done s \<and> q_closed (flush ok s) = q_closed s \<and> q_ch (flush ok s) = q_ch s"
  by (auto simp: flush_def insertBatch_def ac_simps)

lemma maxBatch_pos: "0 < maxBatch"
  by (simp add: maxBatch_def)

lemma log_inv_step [inv_intros]: "wl_step s e s' \<Longrightarrow> log_inv s \<Longrightarrow> log_inv s'"
proof (induction rule: wl_step.induct)
  case (receive s rec rest s' ok)
  then have "length (q_ch s') \<le> chan_cap \<and>
      mset (q_table s') + mset (q_lost s') + mset (q_batch s') + mset (q_ch s') = mset (q_accepted s') \<and> \<not> q_done s'"
    by (auto simp: log_inv_def)
  with flush_inv [of s' ok] maxBatch_pos show ?case by (auto simp: log_inv_def)
next
  case (tick s ok)
  with flush_inv [of s ok] maxBatch_pos show ?case by (auto simp: log_inv_def)
next
  case (finish s ok)
  with flush_inv [of s ok] maxBatch_pos show ?case by (auto simp: log_inv_def)
qed (auto simp: log_inv_def Log_def store_close_def)

lemma log_order_step: "wl_step s e s' \<Longrightarrow> commits e \<Longrightarrow> log_order s \<Longrightarrow> log_order s'"
  by (induction rule: wl_step.induct)
     (auto simp: log_order_def Log_def store_close_def flush_def insertBatch_def)

lemma accepted_step:
  "wl_step s e s' \<Longrightarrow> length (q_accepted s') + q_dropped s' =
     length (q_accepted s) + q_dropped s + (if is_logged e then 1 else 0)"
  by (induction rule: wl_step.induct) (auto simp: Log_def store_close_def flush_def insertBatch_def)

lemma wl_run_inv:
  "wl_run s es s' \<Longrightarrow> log_inv s \<Longrightarrow> log_inv s' \<and> (log_order s \<and> (\<forall>e \<in> set es. commits e) \<longrightarrow> log_order s') \<and>
     length (q_accepted s') + q_dropped s' = length (q_accepted s) + q_dropped s + length (filter is_logged es)"
proof (induction rule: wl_run.induct)
  case (wl_snoc s es s' e s'')
  with log_inv_step log_order_step accepted_step [OF wl_snoc.hyps(2)] show ?case by auto
qed simp


definition sample_record :: "string \<Rightarrow> Record" where
  "sample_record rid = \<lparr>r_TS = 0, r_RequestID = rid, r_Model = ''m'', r_Backend = [], r_APIKeyID = 1,
     r_Status = 200, r_Streamed = True, r_PromptTokens = 10, r_CompletionTokens = 5,
     r_ReasoningTokens = 0, r_CachedTokens = 0, r_TTFTMs = 3, r_TotalMs = 9, r_GenMs = 6,
     r_TPS = 0, r_CostUSD = 0, r_Error = []\<rparr>"

definition sample_log :: log_state where
  "sample_log = (flush True ((Log (sample_record ''r1'') log_init)\<lparr>q_ch := [], q_batch := [sample_record ''r1'']\<rparr>))"

lemma sample_log_run: "wl_run log_init [Logged (sample_record ''r1''), Receive True, Tick True] sample_log"
proof -
  let ?a = "Log (sample_record ''r1'') log_init"
  let ?b = "?a\<lparr>q_ch := [], q_batch := [sample_record ''r1'']\<rparr>"
  have "wl_run log_init [] log_init" by (rule wl_nil)
  from wl_snoc [OF this wl_step.logged]
  have "wl_run log_init [Logged (sample_record ''r1'')] ?a" by (simp add: log_init_def)
  from wl_snoc [OF this wl_step.receive [of ?a "sample_record ''r1''" "[]" ?b True]]
  have "wl_run log_init [Logged (sample_record ''r1''), Receive True] ?b"
    by (simp add: Log_def log_init_def chan_cap_def maxBatch_def)
  from wl_snoc [OF this wl_step.tick [of ?b True]] show ?thesis
    unfolding sample_log_def by (simp add: Log_def log_init_def chan_cap_def)
qed


end
