(* ===== verification/Go_Encoding.thy ===== *)
theory Go_Encoding
  imports Go_Strings
begin

text \<open>
  Encodings of the Go standard library: the number of runes of a string (UTF-8 with every
  invalid byte counting as one rune), and unpadded base64 with the standard and the URL
  alphabet (\<^verbatim>\<open>base64.RawStdEncoding\<close>, \<^verbatim>\<open>base64.RawURLEncoding\<close>).
\<close>

subsection \<open>Runes\<close>

abbreviation byte_at :: "string \<Rightarrow> nat \<Rightarrow> nat" where
  "byte_at s i \<equiv> (if i < length s then of_char (s ! i) else 0)"

definition cont_byte :: "nat \<Rightarrow> bool" where
  "cont_byte b = (128 \<le> b \<and> b \<le> 191)"

text \<open>The length of the encoding at the head of a non-empty string; 1 for an invalid byte.\<close>

definition rune_len :: "string \<Rightarrow> nat" where
  "rune_len s =
     (let a = byte_at s 0; b = byte_at s 1; c = byte_at s 2; d = byte_at s 3
      in if 194 \<le> a \<and> a \<le> 223 \<and> cont_byte b then 2
         else if 224 \<le> a \<and> a \<le> 239 \<and> cont_byte b \<and> cont_byte c \<and>
                 (a = 224 \<longrightarrow> 160 \<le> b) \<and> (a = 237 \<longrightarrow> b \<le> 159) then 3
         else if 240 \<le> a \<and> a \<le> 244 \<and> cont_byte b \<and> cont_byte c \<and> cont_byte d \<and>
                 (a = 240 \<longrightarrow> 144 \<le> b) \<and> (a = 244 \<longrightarrow> b \<le> 143) then 4
         else 1)"

lemma rune_len_pos: "0 < rune_len s"
  by (simp add: rune_len_def Let_def)

function rune_count :: "string \<Rightarrow> nat" where
  "rune_count s = (if s = [] then 0 else Suc (rune_count (drop (rune_len s) s)))"
  by pat_completeness auto
termination
  by (relation "measure length") (auto simp: rune_len_pos)

declare rune_count.simps [simp del]

lemma rune_count_le: "rune_count s \<le> length s"
proof (induction s rule: rune_count.induct)
  case (1 s)
  show ?case
  proof (cases "s = []")
    case False
    with 1 have "rune_count (drop (rune_len s) s) \<le> length s - rune_len s" by simp
    with False rune_len_pos [of s] show ?thesis
      by (subst rune_count.simps) (simp add: Suc_le_eq, cases s, auto)
  qed (simp add: rune_count.simps)
qed

lemma rune_count_ascii: "\<forall>c \<in> set s. (of_char c :: nat) < 128 \<Longrightarrow> rune_count s = length s"
proof (induction s)
  case (Cons c cs)
  then have "rune_len (c # cs) = 1" by (auto simp: rune_len_def Let_def)
  with Cons show ?case by (simp add: rune_count.simps [of "c # cs"])
qed (simp add: rune_count.simps)

subsection \<open>Base64\<close>

text \<open>Bits of a number, most significant first.\<close>

fun to_bits :: "nat \<Rightarrow> nat \<Rightarrow> bool list" where
  "to_bits 0 n = []"
| "to_bits (Suc w) n = to_bits w (n div 2) @ [odd n]"

definition from_bits :: "bool list \<Rightarrow> nat" where
  "from_bits bs = fold (\<lambda>b acc. 2 * acc + of_bool b) bs 0"

lemma length_to_bits [simp]: "length (to_bits w n) = w"
  by (induction w arbitrary: n) auto

lemma from_bits_snoc: "from_bits (bs @ [b]) = 2 * from_bits bs + of_bool b"
  by (simp add: from_bits_def)

lemma from_to_bits: "n < 2 ^ w \<Longrightarrow> from_bits (to_bits w n) = n"
proof (induction w arbitrary: n)
  case (Suc w)
  have "n div 2 < 2 ^ w" using Suc.prems by auto
  with Suc.IH have "from_bits (to_bits w (n div 2)) = n div 2" by simp
  then show ?case by (simp add: from_bits_snoc)
qed (simp add: from_bits_def)

lemma to_from_bits: "to_bits (length bs) (from_bits bs) = bs"
proof (induction bs rule: rev_induct)
  case (snoc b bs)
  have "(2 * from_bits bs + of_bool b) div 2 = from_bits bs" by simp
  with snoc show ?case by (simp add: from_bits_snoc)
qed simp

lemma from_bits_less: "from_bits bs < 2 ^ length bs"
proof (induction bs rule: rev_induct)
  case (snoc b bs)
  then show ?case by (cases b) (auto simp: from_bits_snoc)
qed (simp add: from_bits_def)

text \<open>Cut a list into blocks of \<open>k\<close>; a last shorter block is kept.\<close>

function blocks :: "nat \<Rightarrow> 'a list \<Rightarrow> 'a list list" where
  "blocks k xs = (if k = 0 \<or> xs = [] then [] else take k xs # blocks k (drop k xs))"
  by pat_completeness auto
termination
  by (relation "measure (\<lambda>(k, xs). length xs)") auto

declare blocks.simps [simp del]

lemma blocks_append_block:
  "length b = k \<Longrightarrow> 0 < k \<Longrightarrow> blocks k (b @ xs) = b # blocks k xs"
  by (subst blocks.simps) auto

lemma blocks_Nil [simp]: "blocks k [] = []"
  by (simp add: blocks.simps)

lemma blocks_concat:
  "0 < k \<Longrightarrow> \<forall>b \<in> set bs. length b = k \<Longrightarrow> blocks k (concat bs) = bs"
  by (induction bs) (auto simp: blocks_append_block)

lemma concat_blocks: "0 < k \<Longrightarrow> concat (blocks k xs) = xs"
proof (induction k xs rule: blocks.induct)
  case (1 k xs)
  then show ?case by (cases "xs = []") (simp_all add: blocks.simps [of k xs])
qed

lemma length_blocks_elem:
  "0 < k \<Longrightarrow> k dvd length xs \<Longrightarrow> b \<in> set (blocks k xs) \<Longrightarrow> length b = k"
proof (induction k xs rule: blocks.induct)
  case (1 k xs)
  show ?case
  proof (cases "xs = []")
    case False
    then have le: "k \<le> length xs" using 1 by (simp add: dvd_imp_le)
    have "k dvd length (drop k xs)" using 1 le by (simp add: dvd_diff_nat)
    with 1 False le show ?thesis by (auto simp: blocks.simps [of k xs])
  qed (use 1 in simp)
qed

lemma length_blocks: "0 < k \<Longrightarrow> k dvd length xs \<Longrightarrow> length (blocks k xs) = length xs div k"
proof -
  assume k: "0 < k" "k dvd length xs"
  have "length xs = length (concat (blocks k xs))" using k by (simp add: concat_blocks)
  also have "\<dots> = sum_list (map length (blocks k xs))" by (simp add: length_concat)
  also have "map length (blocks k xs) = map (\<lambda>_. k) (blocks k xs)"
    using length_blocks_elem [OF k] by (intro map_cong) auto
  also have "sum_list \<dots> = length (blocks k xs) * k" by (simp add: sum_list_triv)
  finally show ?thesis using k by simp
qed

definition std_alphabet :: string where
  "std_alphabet = ''ABCDEFGHIJKLMNOPQRSTUVWXYZabcdefghijklmnopqrstuvwxyz0123456789+/''"

definition url_alphabet :: string where
  "url_alphabet = ''ABCDEFGHIJKLMNOPQRSTUVWXYZabcdefghijklmnopqrstuvwxyz0123456789-_''"

definition byte_bits :: "bytes \<Rightarrow> bool list" where
  "byte_bits s = concat (map (\<lambda>c. to_bits 8 (of_char c)) s)"

definition pad6 :: "bool list \<Rightarrow> bool list" where
  "pad6 bs = bs @ replicate ((6 - length bs mod 6) mod 6) False"

definition EncodeToString :: "string \<Rightarrow> bytes \<Rightarrow> string" where
  "EncodeToString alphabet s = map (\<lambda>b. alphabet ! from_bits b) (blocks 6 (pad6 (byte_bits s)))"

text \<open>
  Decoding ignores carriage returns and line feeds, refuses any other character outside the
  alphabet and a single left-over character, and drops the bits that do not fill a byte.
\<close>

definition DecodeString :: "string \<Rightarrow> string \<Rightarrow> bytes option" where
  "DecodeString alphabet t =
     (let t = filter (\<lambda>c. c \<noteq> CHR 0x0A \<and> c \<noteq> CHR 0x0D) t;
          ds = map (\<lambda>c. first_index (\<lambda>a. a = c) alphabet) t
      in if list_ex (\<lambda>d. d = None) ds \<or> length t mod 4 = 1 then None
         else let bits = concat (map (\<lambda>d. to_bits 6 (the d)) ds)
              in Some (map (\<lambda>b. char_of (from_bits b)) (blocks 8 (take (length bits div 8 * 8) bits))))"

lemma length_byte_bits [simp]: "length (byte_bits s) = 8 * length s"
  by (induction s) (auto simp: byte_bits_def)

lemma pad_sum: "(n :: nat) + (6 - n mod 6) mod 6 = 6 * (n div 6) + (if n mod 6 = 0 then 0 else 6)"
proof (cases "n mod 6 = 0")
  case False
  moreover have "n mod 6 < 6" by simp
  ultimately have "(6 - n mod 6) mod 6 = 6 - n mod 6" by (intro mod_less) linarith
  moreover have "n + (6 - n mod 6) = 6 * (n div 6) + 6"
  proof -
    have "n = 6 * d + m \<Longrightarrow> m < 6 \<Longrightarrow> n + (6 - m) = 6 * d + 6" for d m :: nat by simp
    then show ?thesis by (metis \<open>n mod 6 < 6\<close> mult_div_mod_eq)
  qed
  ultimately show ?thesis using False by simp
qed auto

lemma dvd_pad6: "6 dvd length (pad6 bs)"
  by (simp add: pad6_def pad_sum)

lemma pad_sum_bytes:
  "8 * (n :: nat) + (6 - 8 * n mod 6) mod 6 =
   24 * (n div 3) + (if n mod 3 = 0 then 0 else if n mod 3 = 1 then 12 else 18)"
proof -
  have "n mod 3 < 3" by simp
  then consider "n mod 3 = 0" | "n mod 3 = 1" | "n mod 3 = 2" by linarith
  then show ?thesis
  proof cases
    case 1
    define q where "q = n div 3"
    have "n = 3 * q" unfolding q_def using 1 by (metis add.right_neutral mult_div_mod_eq)
    with 1 show ?thesis by (simp add: q_def [symmetric])
  next
    case 2
    define q where "q = n div 3"
    have q: "n = 3 * q + 1" unfolding q_def using 2 by (metis mult_div_mod_eq)
    then have "8 * n = 2 + 6 * (4 * q + 1)" by simp
    then have "8 * n mod 6 = 2" by (simp only: mod_mult_self2) simp
    with q 2 show ?thesis by (simp only: q_def [symmetric]) simp
  next
    case 3
    define q where "q = n div 3"
    have q: "n = 3 * q + 2" unfolding q_def using 3 by (metis mult_div_mod_eq)
    then have "8 * n = 4 + 6 * (4 * q + 2)" by simp
    then have m: "8 * n mod 6 = 4" by (simp only: mod_mult_self2) simp
    have "8 * n + (6 - 4) mod 6 = 24 * q + 18" using q by simp
    with m 3 show ?thesis by (simp only: q_def [symmetric]) simp
  qed
qed

lemma EncodeToString_nonempty: "s \<noteq> [] \<Longrightarrow> EncodeToString alphabet s \<noteq> []"
proof -
  assume "s \<noteq> []"
  then have "length (pad6 (byte_bits s)) \<noteq> 0" by (simp add: pad6_def)
  then have "pad6 (byte_bits s) \<noteq> []" by auto
  then show ?thesis by (simp add: EncodeToString_def blocks.simps)
qed

lemma first_index_nth_distinct:
  "distinct xs \<Longrightarrow> i < length xs \<Longrightarrow> first_index (\<lambda>a. a = xs ! i) xs = Some i"
proof (induction xs arbitrary: i)
  case (Cons x xs)
  then show ?case by (cases i) auto
qed simp

locale alphabet64 =
  fixes alphabet :: string
  assumes len: "length alphabet = 64" and dist: "distinct alphabet"
    and no_newline: "CHR 0x0A \<notin> set alphabet" "CHR 0x0D \<notin> set alphabet"
begin

lemma encode_chars: "set (EncodeToString alphabet s) \<subseteq> set alphabet"
proof -
  have "from_bits b < 64" if "b \<in> set (blocks 6 (pad6 (byte_bits s)))" for b
    using from_bits_less [of b] length_blocks_elem [OF _ dvd_pad6 that] by simp
  with len show ?thesis by (auto simp: EncodeToString_def intro!: nth_mem)
qed

lemma decode_encode: "DecodeString alphabet (EncodeToString alphabet s) = Some s"
proof -
  let ?B = "blocks 6 (pad6 (byte_bits s))" and ?t = "EncodeToString alphabet s"
  have b6: "length b = 6" if "b \<in> set ?B" for b using length_blocks_elem [OF _ dvd_pad6 that] by simp
  then have less: "from_bits b < 64" if "b \<in> set ?B" for b using from_bits_less [of b] that by simp
  have filt: "filter (\<lambda>c. c \<noteq> CHR 0x0A \<and> c \<noteq> CHR 0x0D) ?t = ?t"
    using encode_chars no_newline by (intro filter_True) blast
  have ds: "map (\<lambda>c. first_index (\<lambda>a. a = c) alphabet) ?t = map (\<lambda>b. Some (from_bits b)) ?B"
    using less len dist by (simp add: EncodeToString_def first_index_nth_distinct)
  have bits: "concat (map (\<lambda>d. to_bits 6 (the d)) (map (\<lambda>b. Some (from_bits b)) ?B)) = pad6 (byte_bits s)"
  proof -
    have "map (\<lambda>b. to_bits 6 (from_bits b)) ?B = ?B"
      by (rule map_idI) (metis b6 to_from_bits)
    then show ?thesis by (simp add: o_def concat_blocks)
  qed
  have lt: "length ?t = length (pad6 (byte_bits s)) div 6"
    using length_blocks [OF _ dvd_pad6] by (simp add: EncodeToString_def)
  have n3: "length s = 3 * (length s div 3) + length s mod 3" "length s mod 3 < 3" by simp_all
  have pl: "length (pad6 (byte_bits s)) = 24 * (length s div 3) +
      (if length s mod 3 = 0 then 0 else if length s mod 3 = 1 then 12 else 18)"
    unfolding pad_sum_bytes [symmetric] by (simp add: pad6_def)
  have m4: "length ?t mod 4 \<noteq> 1"
    unfolding lt pl by (auto simp: div_mult_self1 algebra_simps)
  have d8: "length (pad6 (byte_bits s)) div 8 * 8 = 8 * length s"
  proof -
    have d: "(24 * q + 12) div 8 = 3 * q + 1" "(24 * q + 18) div 8 = 3 * q + 2" for q :: nat
      by presburger+
    consider "length s mod 3 = 0" | "length s mod 3 = 1" | "length s mod 3 = 2" using n3(2) by linarith
    then show ?thesis using n3(1) unfolding pl by cases (simp_all add: d)
  qed
  then have "take (length (pad6 (byte_bits s)) div 8 * 8) (pad6 (byte_bits s)) = byte_bits s"
    by (simp add: pad6_def)
  moreover have "map (\<lambda>b. char_of (from_bits b)) (blocks 8 (byte_bits s)) = s"
  proof -
    have "blocks 8 (byte_bits s) = map (\<lambda>c. to_bits 8 (of_char c)) s"
      unfolding byte_bits_def by (intro blocks_concat) auto
    moreover have "char_of (from_bits (to_bits 8 (of_char c))) = c" for c :: char
      using from_to_bits [of "of_char c" 8] by (simp add: of_char_of)
    ultimately show ?thesis by (simp add: o_def)
  qed
  ultimately show ?thesis
    unfolding DecodeString_def Let_def filt ds bits using m4 by (auto simp: list_ex_iff)
qed

end

interpretation std64: alphabet64 std_alphabet
  by unfold_locales (simp_all add: std_alphabet_def)

interpretation url64: alphabet64 url_alphabet
  by unfold_locales (simp_all add: url_alphabet_def)

lemma std_no_dollar: "CHR ''$'' \<notin> set (EncodeToString std_alphabet s)"
  using std64.encode_chars [of s] by (auto simp: std_alphabet_def)

end
