(* ===== verification/Store_Accounts.thy ===== *)
theory Store_Accounts
  imports Go_Encoding
begin

text \<open>
  API keys, accounts and sessions (\<^verbatim>\<open>src/internal/store/keys.go\<close>, \<^verbatim>\<open>users.go\<close>). A table is the
  list of its rows in insertion order; a query or statement is the list function its SQL text
  says, with the constraints of the schema (unique columns, keys that are never reused,
  cascading deletes) written out. A failure of the database itself is the argument \<open>io_ok\<close>.
  Clock readings are Unix seconds, random bytes are an argument, and so are the two
  cryptographic functions: \<open>sha\<close> (SHA-256 in hexadecimal) and \<open>kdf\<close> (PBKDF2).
\<close>

subsection \<open>Rows\<close>

record APIKey =
  k_ID :: int
  k_Name :: string
  k_Prefix :: string
  k_CreatedAt :: int
  k_Disabled :: bool
  k_RPMLimit :: int
  k_UserID :: int

record key_row =
  kr_id :: int
  kr_name :: string
  kr_hash :: string
  kr_prefix :: string
  kr_created_at :: int
  kr_disabled :: bool
  kr_rpm_limit :: int
  kr_user_id :: int

record AdminUser =
  u_ID :: int
  u_Email :: string
  u_CreatedAt :: int
  u_LastLogin :: int
  u_Role :: string
  u_Disabled :: bool

record user_row =
  ur_id :: int
  ur_email :: string
  ur_password_hash :: string
  ur_created_at :: int
  ur_last_login :: int
  ur_role :: string
  ur_disabled :: bool

record session_row =
  sr_token_hash :: string
  sr_user_id :: int
  sr_created_at :: int
  sr_expires_at :: int

text \<open>The two counters are the \<^verbatim>\<open>AUTOINCREMENT\<close> sequences: an id is never used twice.\<close>

record db =
  db_keys :: "key_row list"
  db_users :: "user_row list"
  db_sessions :: "session_row list"
  db_next_key :: int
  db_next_user :: int

datatype store_error =
    ErrKeyNotFound | ErrUserNotFound | ErrBadCredential | ErrWeakPassword | ErrUserExists
  | InvalidEmail | OnlyAdmin | DBError | RandError

text \<open>
  The texts of the errors; \<open>driver\<close> is the text of an error the database or the system reports.
\<close>

fun error_text :: "string \<Rightarrow> store_error \<Rightarrow> string" where
  "error_text driver ErrKeyNotFound = ''api key not found''"
| "error_text driver ErrUserNotFound = ''admin user not found''"
| "error_text driver ErrBadCredential = ''incorrect email or password''"
| "error_text driver ErrWeakPassword = ''password must be at least 10 characters''"
| "error_text driver ErrUserExists = ''an account with that email already exists''"
| "error_text driver InvalidEmail = ''a valid email address is required''"
| "error_text driver OnlyAdmin = ''this is the only admin account; create another before removing it''"
| "error_text driver DBError = driver"
| "error_text driver RandError = driver"

definition KeyPrefix :: string where "KeyPrefix = ''sk-llmfast-''"
definition RoleAdmin :: string where "RoleAdmin = ''admin''"
definition RoleUser :: string where "RoleUser = ''user''"
definition SessionTTL :: int where "SessionTTL = 12 * 60 * 60"
definition pbkdf2Iterations :: int where "pbkdf2Iterations = 600000"

subsection \<open>API keys\<close>

definition HashKey :: "(string \<Rightarrow> string) \<Rightarrow> string \<Rightarrow> string" where
  "HashKey sha secret = sha secret"

definition CreateKeyFor ::
  "(string \<Rightarrow> string) \<Rightarrow> bool \<Rightarrow> bytes option \<Rightarrow> int \<Rightarrow> int \<Rightarrow> string \<Rightarrow> int \<Rightarrow> db \<Rightarrow>
   (store_error + APIKey \<times> string) \<times> db" where
  "CreateKeyFor sha io_ok rand now userID name rpmLimit d =
     (case rand of
        None \<Rightarrow> (Inl RandError, d)
      | Some buf \<Rightarrow>
          let secret = KeyPrefix @ EncodeToString url_alphabet buf;
              prefix = take (length KeyPrefix + 6) secret;
              h = HashKey sha secret
          in if \<not> io_ok \<or> h \<in> set (map kr_hash (db_keys d)) then (Inl DBError, d)
             else let i = db_next_key d;
                      row = \<lparr>kr_id = i, kr_name = name, kr_hash = h, kr_prefix = prefix,
                             kr_created_at = now, kr_disabled = False, kr_rpm_limit = rpmLimit,
                             kr_user_id = userID\<rparr>
                  in (Inr (\<lparr>k_ID = i, k_Name = name, k_Prefix = prefix, k_CreatedAt = now,
                            k_Disabled = False, k_RPMLimit = rpmLimit, k_UserID = userID\<rparr>, secret),
                      d\<lparr>db_keys := db_keys d @ [row], db_next_key := i + 1\<rparr>))"

definition CreateKey ::
  "(string \<Rightarrow> string) \<Rightarrow> bool \<Rightarrow> bytes option \<Rightarrow> int \<Rightarrow> string \<Rightarrow> int \<Rightarrow> db \<Rightarrow>
   (store_error + APIKey \<times> string) \<times> db" where
  "CreateKey sha io_ok rand now name rpmLimit d = CreateKeyFor sha io_ok rand now 0 name rpmLimit d"

text \<open>\<^verbatim>\<open>LookupKey\<close> selects no owner, so the owner of the result is the zero value.\<close>

definition LookupKey :: "(string \<Rightarrow> string) \<Rightarrow> bool \<Rightarrow> string \<Rightarrow> db \<Rightarrow> store_error + APIKey" where
  "LookupKey sha io_ok secret d =
     (if \<not> io_ok then Inl ErrKeyNotFound
      else case find (\<lambda>r. kr_hash r = HashKey sha secret) (db_keys d) of
        None \<Rightarrow> Inl ErrKeyNotFound
      | Some r \<Rightarrow>
          if kr_disabled r then Inl ErrKeyNotFound
          else Inr \<lparr>k_ID = kr_id r, k_Name = kr_name r, k_Prefix = kr_prefix r,
                    k_CreatedAt = kr_created_at r, k_Disabled = False,
                    k_RPMLimit = kr_rpm_limit r, k_UserID = 0\<rparr>)"

definition listKeys :: "int option \<Rightarrow> db \<Rightarrow> APIKey list" where
  "listKeys userID d =
     map (\<lambda>r. \<lparr>k_ID = kr_id r, k_Name = kr_name r, k_Prefix = kr_prefix r,
               k_CreatedAt = kr_created_at r, k_Disabled = kr_disabled r,
               k_RPMLimit = kr_rpm_limit r, k_UserID = kr_user_id r\<rparr>)
       (sort_key (\<lambda>r. - kr_id r)
         (filter (\<lambda>r. case userID of None \<Rightarrow> True | Some u \<Rightarrow> kr_user_id r = u) (db_keys d)))"

definition ListKeys :: "db \<Rightarrow> APIKey list" where
  "ListKeys d = listKeys None d"

definition ListKeysFor :: "int \<Rightarrow> db \<Rightarrow> APIKey list" where
  "ListKeysFor userID d = listKeys (Some userID) d"

definition SetKeyDisabled :: "int \<Rightarrow> bool \<Rightarrow> db \<Rightarrow> db" where
  "SetKeyDisabled i disabled d =
     d\<lparr>db_keys := map (\<lambda>r. if kr_id r = i then r\<lparr>kr_disabled := disabled\<rparr> else r) (db_keys d)\<rparr>"

definition DeleteKey :: "int \<Rightarrow> db \<Rightarrow> db" where
  "DeleteKey i d = d\<lparr>db_keys := filter (\<lambda>r. kr_id r \<noteq> i) (db_keys d)\<rparr>"

definition CountKeys :: "db \<Rightarrow> int" where
  "CountKeys d = int (length (db_keys d))"

definition KeyOwner :: "int \<Rightarrow> db \<Rightarrow> store_error + int" where
  "KeyOwner i d =
     (case find (\<lambda>r. kr_id r = i) (db_keys d) of
        None \<Rightarrow> Inl ErrKeyNotFound | Some r \<Rightarrow> Inr (kr_user_id r))"

definition ExtractBearer :: "string \<Rightarrow> string" where
  "ExtractBearer header =
     (let p = ''Bearer ''
      in if length header > length p \<and> EqualFold (take (length p) header) p
         then TrimSpace (drop (length p) header) else [])"

subsection \<open>Passwords\<close>

definition NormalizeEmail :: "string \<Rightarrow> string" where
  "NormalizeEmail email = ToLower (TrimSpace email)"

type_synonym kdf = "string \<Rightarrow> bytes \<Rightarrow> int \<Rightarrow> nat \<Rightarrow> bytes option"

definition hashPassword :: "kdf \<Rightarrow> bytes option \<Rightarrow> string \<Rightarrow> string option" where
  "hashPassword kdf rand password =
     (case rand of
        None \<Rightarrow> None
      | Some salt \<Rightarrow>
          (case kdf password salt pbkdf2Iterations 32 of
             None \<Rightarrow> None
           | Some dk \<Rightarrow>
               Some (''pbkdf2-sha256$'' @ Itoa pbkdf2Iterations @ ''$'' @
                     EncodeToString std_alphabet salt @ ''$'' @ EncodeToString std_alphabet dk)))"

definition verifyPassword :: "kdf \<Rightarrow> string \<Rightarrow> string \<Rightarrow> bool" where
  "verifyPassword kdf encoded password =
     (case Split encoded CHR ''$'' of
        [alg, it, sa, wa] \<Rightarrow>
          if alg \<noteq> ''pbkdf2-sha256'' then False
          else
            (case Atoi it of
               (iter, ok) \<Rightarrow>
                 if \<not> ok \<or> iter \<le> 0 then False
                 else
                   (case DecodeString std_alphabet sa of
                      None \<Rightarrow> False
                    | Some salt \<Rightarrow>
                        (case DecodeString std_alphabet wa of
                           None \<Rightarrow> False
                         | Some want \<Rightarrow>
                             (case kdf password salt iter (length want) of
                                None \<Rightarrow> False
                              | Some got \<Rightarrow> got = want))))
      | _ \<Rightarrow> False)"

subsection \<open>Accounts\<close>

definition IsAdmin :: "AdminUser \<Rightarrow> bool" where
  "IsAdmin u = (u_Role u = RoleAdmin)"

definition user_of_row :: "user_row \<Rightarrow> AdminUser" where
  "user_of_row r = \<lparr>u_ID = ur_id r, u_Email = ur_email r, u_CreatedAt = ur_created_at r,
     u_LastLogin = ur_last_login r, u_Role = ur_role r, u_Disabled = ur_disabled r\<rparr>"

definition CountAdminUsers :: "db \<Rightarrow> int" where
  "CountAdminUsers d = int (length (filter (\<lambda>r. ur_role r = RoleAdmin) (db_users d)))"

definition CountUsers :: "db \<Rightarrow> int" where
  "CountUsers d = int (length (filter (\<lambda>r. ur_role r = RoleUser) (db_users d)))"

definition SetAccountDisabled :: "int \<Rightarrow> bool \<Rightarrow> db \<Rightarrow> db" where
  "SetAccountDisabled i disabled d =
     (let d = d\<lparr>db_users := map (\<lambda>r. if ur_id r = i then r\<lparr>ur_disabled := disabled\<rparr> else r) (db_users d)\<rparr>
      in if \<not> disabled then d
         else d\<lparr>db_sessions := filter (\<lambda>s. sr_user_id s \<noteq> i) (db_sessions d)\<rparr>)"

definition createAccount ::
  "kdf \<Rightarrow> bool \<Rightarrow> bytes option \<Rightarrow> int \<Rightarrow> string \<Rightarrow> string \<Rightarrow> string \<Rightarrow> db \<Rightarrow> (store_error + AdminUser) \<times> db" where
  "createAccount kdf io_ok rand now email password role d =
     (let email = NormalizeEmail email
      in if email = [] \<or> \<not> Contains email ''@'' then (Inl InvalidEmail, d)
         else if rune_count password < 10 then (Inl ErrWeakPassword, d)
         else case hashPassword kdf rand password of
           None \<Rightarrow> (Inl RandError, d)
         | Some hash \<Rightarrow>
             if \<not> io_ok then (Inl DBError, d)
             else if email \<in> set (map ur_email (db_users d)) then (Inl ErrUserExists, d)
             else let i = db_next_user d;
                      row = \<lparr>ur_id = i, ur_email = email, ur_password_hash = hash,
                             ur_created_at = now, ur_last_login = 0, ur_role = role, ur_disabled = False\<rparr>
                  in (Inr \<lparr>u_ID = i, u_Email = email, u_CreatedAt = now, u_LastLogin = 0,
                           u_Role = role, u_Disabled = False\<rparr>,
                      d\<lparr>db_users := db_users d @ [row], db_next_user := i + 1\<rparr>))"

definition CreateAdminUser where
  "CreateAdminUser kdf io_ok rand now email password d =
     createAccount kdf io_ok rand now email password RoleAdmin d"

definition CreateUser where
  "CreateUser kdf io_ok rand now email password d =
     createAccount kdf io_ok rand now email password RoleUser d"

text \<open>\<open>io1\<close> and \<open>io2\<close> say whether the first and the second statement of a call reach the database.\<close>

definition SetAdminPassword ::
  "kdf \<Rightarrow> bool \<Rightarrow> bool \<Rightarrow> bytes option \<Rightarrow> string \<Rightarrow> string \<Rightarrow> db \<Rightarrow> store_error option \<times> db" where
  "SetAdminPassword kdf io1 io2 rand email password d =
     (let email = NormalizeEmail email
      in if rune_count password < 10 then (Some ErrWeakPassword, d)
         else case hashPassword kdf rand password of
           None \<Rightarrow> (Some RandError, d)
         | Some hash \<Rightarrow>
             if \<not> io1 then (Some DBError, d)
             else let d' = d\<lparr>db_users := map (\<lambda>r. if ur_email r = email then r\<lparr>ur_password_hash := hash\<rparr> else r) (db_users d)\<rparr>
             in case find (\<lambda>r. ur_email r = email) (db_users d') of
                  None \<Rightarrow> (Some ErrUserNotFound, d')
                | Some r \<Rightarrow>
                    if \<not> io2 then (Some DBError, d')
                    else (None, d'\<lparr>db_sessions := filter (\<lambda>s. sr_user_id s \<noteq> ur_id r) (db_sessions d')\<rparr>))"

definition VerifyAdminLogin ::
  "kdf \<Rightarrow> bool \<Rightarrow> bool \<Rightarrow> int \<Rightarrow> string \<Rightarrow> string \<Rightarrow> db \<Rightarrow> (store_error + AdminUser) \<times> db" where
  "VerifyAdminLogin kdf io1 io2 now email password d =
     (if \<not> io1 then (Inl DBError, d)
      else case find (\<lambda>r. ur_email r = NormalizeEmail email) (db_users d) of
        None \<Rightarrow> (Inl ErrBadCredential, d)
      | Some r \<Rightarrow>
          if \<not> verifyPassword kdf (ur_password_hash r) password then (Inl ErrBadCredential, d)
          else if ur_disabled r then (Inl ErrBadCredential, d)
          else (Inr ((user_of_row r)\<lparr>u_LastLogin := now\<rparr>),
                if io2
                then d\<lparr>db_users := map (\<lambda>x. if ur_id x = ur_id r then x\<lparr>ur_last_login := now\<rparr> else x) (db_users d)\<rparr>
                else d))"

definition ListAdminUsers :: "db \<Rightarrow> AdminUser list" where
  "ListAdminUsers d = map user_of_row (sort_key ur_created_at (db_users d))"

text \<open>Deleting an account cascades to its sessions, and the code deletes them as well.\<close>

definition DeleteAdminUser :: "bool \<Rightarrow> bool \<Rightarrow> int \<Rightarrow> db \<Rightarrow> store_error option \<times> db" where
  "DeleteAdminUser io1 io2 i d =
     (if \<not> io1 then (Some DBError, d)
      else if CountAdminUsers d \<le> 1 then (Some OnlyAdmin, d)
      else if i \<notin> set (map ur_id (db_users d)) then (Some ErrUserNotFound, d)
      else (if io2 then None else Some DBError,
            d\<lparr>db_users := filter (\<lambda>r. ur_id r \<noteq> i) (db_users d),
              db_sessions := filter (\<lambda>s. sr_user_id s \<noteq> i) (db_sessions d)\<rparr>))"

subsection \<open>Sessions\<close>

text \<open>The insert fails when the account does not exist (foreign key) or the token is taken.\<close>

definition CreateSession ::
  "(string \<Rightarrow> string) \<Rightarrow> bool \<Rightarrow> bytes option \<Rightarrow> int \<Rightarrow> int \<Rightarrow> db \<Rightarrow> (store_error + string) \<times> db" where
  "CreateSession sha io_ok rand now userID d =
     (case rand of
        None \<Rightarrow> (Inl RandError, d)
      | Some buf \<Rightarrow>
          let token = EncodeToString url_alphabet buf; h = HashKey sha token
          in if \<not> io_ok \<or> h \<in> set (map sr_token_hash (db_sessions d)) \<or> userID \<notin> set (map ur_id (db_users d))
             then (Inl DBError, d)
             else (Inr token,
                   d\<lparr>db_sessions := db_sessions d @
                      [\<lparr>sr_token_hash = h, sr_user_id = userID, sr_created_at = now,
                        sr_expires_at = now + SessionTTL\<rparr>]\<rparr>))"

definition session_match :: "(string \<Rightarrow> string) \<Rightarrow> string \<Rightarrow> int \<Rightarrow> session_row \<Rightarrow> user_row \<Rightarrow> bool" where
  "session_match sha token now s u \<longleftrightarrow>
     ur_id u = sr_user_id s \<and> sr_token_hash s = HashKey sha token \<and> now < sr_expires_at s \<and> \<not> ur_disabled u"

definition LookupSession ::
  "(string \<Rightarrow> string) \<Rightarrow> int \<Rightarrow> string \<Rightarrow> db \<Rightarrow> store_error + AdminUser" where
  "LookupSession sha now token d =
     (if token = [] then Inl ErrUserNotFound
      else case find (\<lambda>(s, u). session_match sha token now s u) (List.product (db_sessions d) (db_users d)) of
        None \<Rightarrow> Inl ErrUserNotFound
      | Some (s, u) \<Rightarrow> Inr (user_of_row u))"

definition DeleteSession :: "(string \<Rightarrow> string) \<Rightarrow> string \<Rightarrow> db \<Rightarrow> db" where
  "DeleteSession sha token d =
     d\<lparr>db_sessions := filter (\<lambda>s. sr_token_hash s \<noteq> HashKey sha token) (db_sessions d)\<rparr>"

definition PurgeExpiredSessions :: "int \<Rightarrow> db \<Rightarrow> db" where
  "PurgeExpiredSessions now d = d\<lparr>db_sessions := filter (\<lambda>s. \<not> sr_expires_at s \<le> now) (db_sessions d)\<rparr>"

subsection \<open>The invariant of the tables\<close>

definition users_ok :: "user_row list \<Rightarrow> int \<Rightarrow> bool" where
  "users_ok us next \<longleftrightarrow> distinct (map ur_id us) \<and> distinct (map ur_email us) \<and> (\<forall>r \<in> set us. ur_id r < next)"

definition keys_ok :: "key_row list \<Rightarrow> int \<Rightarrow> bool" where
  "keys_ok ks next \<longleftrightarrow> distinct (map kr_id ks) \<and> distinct (map kr_hash ks) \<and> (\<forall>r \<in> set ks. kr_id r < next)"

definition sessions_ok :: "session_row list \<Rightarrow> user_row list \<Rightarrow> bool" where
  "sessions_ok ss us \<longleftrightarrow> distinct (map sr_token_hash ss) \<and> sr_user_id ` set ss \<subseteq> ur_id ` set us"

definition db_inv :: "db \<Rightarrow> bool" where
  "db_inv d \<longleftrightarrow> users_ok (db_users d) (db_next_user d) \<and> keys_ok (db_keys d) (db_next_key d) \<and>
     sessions_ok (db_sessions d) (db_users d)"

text \<open>Every statement the store can execute, with any arguments and any outcome of I/O.\<close>

inductive db_step :: "(string \<Rightarrow> string) \<Rightarrow> kdf \<Rightarrow> db \<Rightarrow> db \<Rightarrow> bool" for sha kdf where
  create_key: "db_step sha kdf d (snd (CreateKeyFor sha io rand now u name rpm d))"
| set_key_disabled: "db_step sha kdf d (SetKeyDisabled i b d)"
| delete_key: "db_step sha kdf d (DeleteKey i d)"
| set_account_disabled: "db_step sha kdf d (SetAccountDisabled i b d)"
| create_account: "role = RoleAdmin \<or> role = RoleUser \<Longrightarrow>
    db_step sha kdf d (snd (createAccount kdf io rand now email pw role d))"
| set_password: "db_step sha kdf d (snd (SetAdminPassword kdf io1 io2 rand email pw d))"
| login: "db_step sha kdf d (snd (VerifyAdminLogin kdf io1 io2 now email pw d))"
| delete_account: "db_step sha kdf d (snd (DeleteAdminUser io1 io2 i d))"
| create_session: "db_step sha kdf d (snd (CreateSession sha io rand now u d))"
| delete_session: "db_step sha kdf d (DeleteSession sha token d)"
| purge: "db_step sha kdf d (PurgeExpiredSessions now d)"

lemma map_if_field:
  "(\<And>r. f (g r) = f r) \<Longrightarrow> map f (map (\<lambda>r. if P r then g r else r) xs) = map f xs"
  by (induction xs) auto

lemma distinct_map_filter: "distinct (map f xs) \<Longrightarrow> distinct (map f (filter P xs))"
  by (induction xs) auto

lemma users_ok_update:
  assumes "users_ok us n" and "\<And>r. ur_id (g r) = ur_id r" and "\<And>r. ur_email (g r) = ur_email r"
  shows "users_ok (map (\<lambda>r. if P r then g r else r) us) n"
  using assms by (auto simp: users_ok_def map_if_field simp del: map_map)

lemma sessions_ok_users: "sessions_ok ss us \<Longrightarrow> map ur_id us' = map ur_id us \<Longrightarrow> sessions_ok ss us'"
  unfolding sessions_ok_def by (metis set_map)

lemma sessions_ok_filter: "sessions_ok ss us \<Longrightarrow> sessions_ok (filter P ss) us"
  by (auto simp: sessions_ok_def distinct_map_filter)

lemma db_inv_CreateKeyFor: "db_inv d \<Longrightarrow> db_inv (snd (CreateKeyFor sha io rand now u name rpm d))"
  by (auto simp: CreateKeyFor_def Let_def db_inv_def keys_ok_def split: option.splits)

lemma keys_ok_update_disabled:
  "keys_ok ks n \<Longrightarrow> keys_ok (map (\<lambda>r. if kr_id r = i then r\<lparr>kr_disabled := b\<rparr> else r) ks) n"
  by (auto simp: keys_ok_def map_if_field simp del: map_map)

lemma db_inv_keys:
  "db_inv d \<Longrightarrow> db_inv (SetKeyDisabled i b d)" "db_inv d \<Longrightarrow> db_inv (DeleteKey i d)"
  by (auto simp: db_inv_def SetKeyDisabled_def DeleteKey_def keys_ok_update_disabled)
     (auto simp: keys_ok_def distinct_map_filter)

lemma db_inv_update_users:
  assumes "db_inv d" and "\<And>r. ur_id (g r) = ur_id r" and "\<And>r. ur_email (g r) = ur_email r"
  shows "db_inv (d\<lparr>db_users := map (\<lambda>r. if P r then g r else r) (db_users d)\<rparr>)"
  using assms by (auto simp: db_inv_def intro!: users_ok_update sessions_ok_users [where us = "db_users d"] map_if_field)

lemma db_inv_filter_sessions: "db_inv d \<Longrightarrow> db_inv (d\<lparr>db_sessions := filter P (db_sessions d)\<rparr>)"
  by (simp add: db_inv_def sessions_ok_filter)

lemma db_inv_createAccount: "db_inv d \<Longrightarrow> db_inv (snd (createAccount kdf io rand now email pw role d))"
  by (auto simp: createAccount_def Let_def db_inv_def users_ok_def sessions_ok_def split: option.splits)

lemma db_inv_CreateSession: "db_inv d \<Longrightarrow> db_inv (snd (CreateSession sha io rand now u d))"
  by (auto simp: CreateSession_def Let_def db_inv_def sessions_ok_def split: option.splits)

lemma db_inv_DeleteAdminUser: "db_inv d \<Longrightarrow> db_inv (snd (DeleteAdminUser io1 io2 i d))"
  by (auto simp: DeleteAdminUser_def db_inv_def users_ok_def sessions_ok_def distinct_map_filter)

lemma db_inv_SetAdminPassword: "db_inv d \<Longrightarrow> db_inv (snd (SetAdminPassword kdf io1 io2 rand email pw d))"
proof -
  assume d: "db_inv d"
  note u = db_inv_update_users [OF d, of "\<lambda>r. r\<lparr>ur_password_hash := h\<rparr>" for h]
  show ?thesis
    by (auto simp: SetAdminPassword_def Let_def d split: option.splits)
       (auto intro!: u db_inv_filter_sessions [OF u, simplified])
qed

lemma db_inv_step [inv_intros]: "db_step sha kdf d d' \<Longrightarrow> db_inv d \<Longrightarrow> db_inv d'"
proof (induction rule: db_step.induct)
  case (set_account_disabled d i b)
  note u = db_inv_update_users [OF set_account_disabled, of "\<lambda>r. r\<lparr>ur_disabled := b\<rparr>" "\<lambda>r. ur_id r = i"]
  show ?case using db_inv_filter_sessions [OF u, simplified] u by (simp add: SetAccountDisabled_def Let_def)
next
  case (login d io1 io2 now email pw)
  note u = db_inv_update_users [OF login, of "\<lambda>r. r\<lparr>ur_last_login := now\<rparr>" P for P]
  show ?case by (auto simp: VerifyAdminLogin_def login split: option.splits intro!: u)
qed (auto simp: db_inv_CreateKeyFor db_inv_keys db_inv_createAccount db_inv_SetAdminPassword
    db_inv_DeleteAdminUser db_inv_CreateSession DeleteSession_def PurgeExpiredSessions_def db_inv_filter_sessions)

subsection \<open>Accounts: properties\<close>

lemma count_admins_keep:
  "(\<And>r. ur_role (g r) = ur_role r) \<Longrightarrow>
   length (filter ((\<lambda>r. ur_role r = RoleAdmin) \<circ> (\<lambda>r. if P r then g r else r)) us) =
   length (filter (\<lambda>r. ur_role r = RoleAdmin) us)"
  by (induction us) auto

lemma count_delete_id:
  "distinct (map f xs) \<Longrightarrow> length (filter P xs) \<le> Suc (length (filter P (filter (\<lambda>r. f r \<noteq> i) xs)))"
proof (induction xs)
  case (Cons x xs)
  show ?case
  proof (cases "f x = i")
    case True
    with Cons.prems have "filter (\<lambda>r. f r \<noteq> i) xs = xs"
      by (auto simp: filter_id_conv) (metis imageI)
    with True show ?thesis by simp
  next
    case False
    with Cons show ?thesis by simp
  qed
qed simp

lemma admins_step:
  assumes "db_step sha kdf d d'" and "db_inv d" and "1 \<le> CountAdminUsers d"
  shows "1 \<le> CountAdminUsers d'"
  using assms
proof (induction rule: db_step.induct)
  case (delete_account d io1 io2 i)
  then have "length (filter (\<lambda>r. ur_role r = RoleAdmin) (db_users d)) \<le>
      Suc (length (filter (\<lambda>r. ur_role r = RoleAdmin) (filter (\<lambda>r. ur_id r \<noteq> i) (db_users d))))"
    by (intro count_delete_id) (simp add: db_inv_def users_ok_def)
  with delete_account show ?case by (auto simp: DeleteAdminUser_def CountAdminUsers_def)
next
  case (create_account role d io rand now email pw)
  then show ?case by (auto simp: createAccount_def Let_def CountAdminUsers_def split: option.splits)
next
  case (set_password d io1 io2 rand email pw)
  then show ?case
    by (auto simp: SetAdminPassword_def Let_def CountAdminUsers_def count_admins_keep split: option.splits)
next
  case (login d io1 io2 now email pw)
  then show ?case
    by (auto simp: VerifyAdminLogin_def CountAdminUsers_def count_admins_keep split: option.splits)
next
  case (set_account_disabled d i b)
  then show ?case by (simp add: SetAccountDisabled_def Let_def CountAdminUsers_def count_admins_keep)
qed (auto simp: CreateKeyFor_def SetKeyDisabled_def DeleteKey_def CreateSession_def DeleteSession_def
    PurgeExpiredSessions_def CountAdminUsers_def Let_def split: option.splits)


lemma find_product_Some:
  "find (\<lambda>(s, u). P s u) (List.product ss us) = Some (s, u) \<Longrightarrow> s \<in> set ss \<and> u \<in> set us \<and> P s u"
  using find_SomeD [of "\<lambda>(s, u). P s u" "List.product ss us" "(s, u)"] by auto

lemma find_product_None:
  "find (\<lambda>(s, u). P s u) (List.product ss us) = None \<longleftrightarrow> (\<forall>s \<in> set ss. \<forall>u \<in> set us. \<not> P s u)"
  by (auto simp: find_None_iff)

lemma LookupSession_Inr:
  "LookupSession sha now token d = Inr v \<Longrightarrow>
   \<exists>s \<in> set (db_sessions d). \<exists>u \<in> set (db_users d). session_match sha token now s u \<and> v = user_of_row u"
  by (auto simp: LookupSession_def split: if_splits option.splits dest!: find_product_Some)

text \<open>
  C16: an account that is suspended, that is deleted, or whose password is changed, loses every
  session at once: no cookie resolves to it any more, at any time.
\<close>

theorem sessions_evicted:
  assumes "db_inv d"
    and "d' = SetAccountDisabled i True d \<or> DeleteAdminUser io1 io2 i d = (None, d') \<or>
         (SetAdminPassword kdf io1 io2 rand email pw d = (None, d') \<and>
          (\<exists>r \<in> set (db_users d). ur_id r = i \<and> ur_email r = NormalizeEmail email))"
  shows "LookupSession sha now token d' = Inr v \<Longrightarrow> u_ID v \<noteq> i"
proof -
  have "sr_user_id s \<noteq> i" if "s \<in> set (db_sessions d')" for s
  proof -
    consider "d' = SetAccountDisabled i True d" | "DeleteAdminUser io1 io2 i d = (None, d')"
      | r where "SetAdminPassword kdf io1 io2 rand email pw d = (None, d')" "r \<in> set (db_users d)" "ur_id r = i"
          "ur_email r = NormalizeEmail email"
      using assms(2) by blast
    then show ?thesis
    proof cases
      case (3 r)
      then obtain h x where x: "find (\<lambda>r. ur_email r = NormalizeEmail email)
          (map (\<lambda>r. if ur_email r = NormalizeEmail email then r\<lparr>ur_password_hash := h\<rparr> else r) (db_users d)) = Some x"
        and s: "db_sessions d' = filter (\<lambda>s. sr_user_id s \<noteq> ur_id x) (db_sessions d)"
        by (auto simp: SetAdminPassword_def Let_def split: if_splits option.splits)
      from find_SomeD [OF x] obtain y where "y \<in> set (db_users d)" "ur_email y = NormalizeEmail email" "ur_id y = ur_id x"
        by (auto split: if_splits)
      moreover have "distinct (map ur_email (db_users d))" using assms(1) by (simp add: db_inv_def users_ok_def)
      ultimately have "y = r" using 3 by (metis distinct_map inj_onD)
      with s that 3 \<open>ur_id y = ur_id x\<close> show ?thesis by auto
    qed (use that in \<open>auto simp: SetAccountDisabled_def DeleteAdminUser_def Let_def split: if_splits\<close>)
  qed
  then show "LookupSession sha now token d' = Inr v \<Longrightarrow> u_ID v \<noteq> i"
    using LookupSession_Inr [of sha now token d' v] by (auto simp: session_match_def user_of_row_def) metis
qed

lemma LookupSession_unique:
  assumes "db_inv d" and "s \<in> set (db_sessions d)" and "sr_token_hash s = HashKey sha token"
    and "r \<in> set (db_users d)" and "ur_id r = sr_user_id s" and "token \<noteq> []"
  shows "LookupSession sha now token d =
    (if now < sr_expires_at s \<and> \<not> ur_disabled r then Inr (user_of_row r) else Inl ErrUserNotFound)"
proof -
  have us: "distinct (map ur_id (db_users d))" and ss: "distinct (map sr_token_hash (db_sessions d))"
    using assms(1) by (auto simp: db_inv_def users_ok_def sessions_ok_def)
  have uniq: "s' = s \<and> r' = r" if "s' \<in> set (db_sessions d)" "r' \<in> set (db_users d)"
    "session_match sha token t s' r'" for s' r' t
  proof -
    have "s' = s"
      using that assms(2,3) ss by (metis session_match_def distinct_map inj_onD)
    then show ?thesis
      using that assms(4,5) us by (metis session_match_def distinct_map inj_onD)
  qed
  have m: "session_match sha token now s r \<longleftrightarrow> now < sr_expires_at s \<and> \<not> ur_disabled r"
    using assms by (simp add: session_match_def)
  show ?thesis
  proof (cases "find (\<lambda>(s, u). session_match sha token now s u) (List.product (db_sessions d) (db_users d))")
    case None
    with assms have "\<not> session_match sha token now s r" unfolding find_product_None by blast
    with assms(6) None m show ?thesis by (simp add: LookupSession_def)
  next
    case (Some p)
    then obtain s' r' where p: "p = (s', r')" by (cases p)
    from find_product_Some [OF Some [unfolded p]] uniq
    have "s' = s" "r' = r" "session_match sha token now s r" by blast+
    with Some p assms(6) m show ?thesis by (simp add: LookupSession_def)
  qed
qed

lemma session_valid:
  assumes "db_inv d" and "r \<in> set (db_users d)"
    and "CreateSession sha io rand now (ur_id r) d = (Inr token, d')" and "token \<noteq> []"
  shows "LookupSession sha t token d' =
    (if t < now + SessionTTL \<and> \<not> ur_disabled r then Inr (user_of_row r) else Inl ErrUserNotFound)"
proof -
  define s where "s = \<lparr>sr_token_hash = HashKey sha token, sr_user_id = ur_id r, sr_created_at = now,
      sr_expires_at = now + SessionTTL\<rparr>"
  have d': "d' = d\<lparr>db_sessions := db_sessions d @ [s]\<rparr>"
    using assms(3) by (auto simp: CreateSession_def Let_def s_def split: option.splits if_splits)
  have "db_inv d'" using db_inv_CreateSession [OF assms(1), of sha io rand now "ur_id r"] assms(3) by simp
  moreover have "s \<in> set (db_sessions d')" "db_users d' = db_users d" by (simp_all add: d')
  ultimately have "LookupSession sha t token d' =
      (if t < sr_expires_at s \<and> \<not> ur_disabled r then Inr (user_of_row r) else Inl ErrUserNotFound)"
    using assms(2,4) by (intro LookupSession_unique) (auto simp: s_def)
  then show ?thesis by (simp add: s_def)
qed

text \<open>
  A session cookie resolves to the account it was issued to for exactly the session
  lifetime while the account is enabled, and to nothing afterwards.
\<close>

theorem session_lifetime:
  assumes "db_inv d" and "r \<in> set (db_users d)"
    and "CreateSession sha io rand now (ur_id r) d = (Inr token, d')" and "token \<noteq> []"
  shows "LookupSession sha t token d' =
    (if t < now + SessionTTL \<and> \<not> ur_disabled r then Inr (user_of_row r) else Inl ErrUserNotFound)"
  using assms by (rule session_valid)

lemma Split_Cons: "sep \<notin> set a \<Longrightarrow> Split (a @ sep # b) sep = a # Split b sep"
proof -
  have "sep \<notin> set a \<Longrightarrow> split_where (\<lambda>c. c = sep) acc (a @ sep # b) = (acc @ a) # Split b sep" for acc
    by (induction a arbitrary: acc) (auto simp: Split_def)
  then show "sep \<notin> set a \<Longrightarrow> Split (a @ sep # b) sep = a # Split b sep" by (simp add: Split_def)
qed

lemma Split_plain: "sep \<notin> set a \<Longrightarrow> Split a sep = [a]"
proof -
  have "sep \<notin> set a \<Longrightarrow> split_where (\<lambda>c. c = sep) acc a = [acc @ a]" for acc
    by (induction a arbitrary: acc) auto
  then show "sep \<notin> set a \<Longrightarrow> Split a sep = [a]" by (simp add: Split_def)
qed

lemma iterations_no_dollar: "CHR ''$'' \<notin> set (Itoa pbkdf2Iterations)"
  using nat_digits_all_digits [of 600000] by (auto simp: Itoa_def pbkdf2Iterations_def is_digit_def)

lemma Atoi_iterations: "Atoi (Itoa pbkdf2Iterations) = (600000, True)"
  using Atoi_Itoa [of pbkdf2Iterations] by (simp add: pbkdf2Iterations_def min_int64_def max_int64_def)

lemma verify_hash:
  assumes "\<And>p s n l dk. kdf p s n l = Some dk \<Longrightarrow> length dk = l"
    and "hashPassword kdf (Some salt) password = Some encoded"
  shows "verifyPassword kdf encoded password' \<longleftrightarrow>
    kdf password' salt 600000 32 = kdf password salt 600000 32"
proof -
  obtain dk where dk: "kdf password salt 600000 32 = Some dk"
    and e: "encoded = ''pbkdf2-sha256'' @ CHR ''$'' # Itoa pbkdf2Iterations @ CHR ''$'' #
      EncodeToString std_alphabet salt @ CHR ''$'' # EncodeToString std_alphabet dk"
    using assms(2) by (auto simp: hashPassword_def pbkdf2Iterations_def split: option.splits)
  have "Split encoded CHR ''$'' =
      [''pbkdf2-sha256'', Itoa pbkdf2Iterations, EncodeToString std_alphabet salt, EncodeToString std_alphabet dk]"
    unfolding e by (subst Split_Cons, simp) (simp only: Split_Cons [OF iterations_no_dollar]
      Split_Cons [OF std_no_dollar] Split_plain [OF std_no_dollar])
  with dk assms(1) [OF dk] show ?thesis
    by (auto simp: verifyPassword_def Atoi_iterations std64.decode_encode split: option.splits)
qed

text \<open>
  A stored password hash verifies exactly the passwords whose derived key equals that of the
  password it was made from, so the password itself always verifies. PBKDF2 is assumed to
  return a key of the length it is asked for.
\<close>

theorem verify_hashPassword:
  assumes "\<forall>p s n l dk. kdf p s n l = Some dk \<longrightarrow> length dk = l"
    and "hashPassword kdf (Some salt) password = Some encoded"
  shows "verifyPassword kdf encoded password \<and>
    (verifyPassword kdf encoded password' \<longleftrightarrow> kdf password' salt 600000 32 = kdf password salt 600000 32)"
  using verify_hash [OF _ assms(2)] assms(1) by blast

lemma find_key_row:
  "keys_ok ks n \<Longrightarrow> r \<in> set ks \<Longrightarrow> find (\<lambda>x. kr_hash x = kr_hash r) ks = Some r"
proof -
  assume "keys_ok ks n" and r: "r \<in> set ks"
  then have d: "distinct (map kr_hash ks)" by (simp add: keys_ok_def)
  obtain x where "find (\<lambda>x. kr_hash x = kr_hash r) ks = Some x"
    using r by (metis (mono_tags) find_None_iff not_Some_eq)
  with find_SomeD [OF this] d r show ?thesis by (metis distinct_map inj_onD)
qed

text \<open>
  A key that was just issued authenticates with its secret and its limits; once it is
  disabled or deleted its secret is refused, and both refusals look the same as that of an
  unknown key. Its recorded owner is the account it was issued to.
\<close>

theorem key_lifecycle:
  assumes "db_inv d" and "CreateKeyFor sha True rand now u name rpm d = (Inr (k, secret), d1)"
  shows "(\<exists>k'. LookupKey sha True secret d1 = Inr k' \<and> k_ID k' = k_ID k \<and> k_RPMLimit k' = rpm) \<and>
    LookupKey sha io secret (SetKeyDisabled (k_ID k) True d1) = Inl ErrKeyNotFound \<and>
    LookupKey sha io secret (DeleteKey (k_ID k) d1) = Inl ErrKeyNotFound \<and>
    KeyOwner (k_ID k) d1 = Inr u"
proof -
  define row where "row = \<lparr>kr_id = k_ID k, kr_name = name, kr_hash = HashKey sha secret, kr_prefix = k_Prefix k,
      kr_created_at = now, kr_disabled = False, kr_rpm_limit = rpm, kr_user_id = u\<rparr>"
  have d1: "db_keys d1 = db_keys d @ [row]" and new: "k_ID k = db_next_key d"
    using assms(2) by (auto simp: CreateKeyFor_def Let_def row_def split: option.splits if_splits)
  have inv: "db_inv d1" using db_inv_CreateKeyFor [OF assms(1), of sha True rand now u name rpm] assms(2) by simp
  have old: "r \<in> set (db_keys d) \<Longrightarrow> kr_hash r \<noteq> HashKey sha secret \<and> kr_id r \<noteq> k_ID k" for r
    using inv new assms(1) by (auto simp: d1 db_inv_def keys_ok_def row_def) (metis imageI)
  have "find (\<lambda>x. kr_hash x = HashKey sha secret) (db_keys d1) = Some row"
    using find_key_row [of "db_keys d1" "db_next_key d1" row] inv by (simp add: db_inv_def d1 row_def)
  then have look: "LookupKey sha True secret d1 = Inr \<lparr>k_ID = k_ID k, k_Name = name, k_Prefix = k_Prefix k,
      k_CreatedAt = now, k_Disabled = False, k_RPMLimit = rpm, k_UserID = 0\<rparr>"
    by (simp add: LookupKey_def row_def)
  have none: "find P (db_keys d) = None" if "\<And>r. r \<in> set (db_keys d) \<Longrightarrow> \<not> P r" for P
    using that by (auto simp: find_None_iff)
  have dis: "LookupKey sha io secret (SetKeyDisabled (k_ID k) True d1) = Inl ErrKeyNotFound"
  proof -
    have "map (\<lambda>r. if kr_id r = k_ID k then r\<lparr>kr_disabled := True\<rparr> else r) (db_keys d) = db_keys d"
      using old by (auto intro: map_idI)
    then show ?thesis using none [of "\<lambda>x. kr_hash x = HashKey sha secret"] old
      by (auto simp: LookupKey_def SetKeyDisabled_def d1 find_append row_def)
  qed
  have del: "LookupKey sha io secret (DeleteKey (k_ID k) d1) = Inl ErrKeyNotFound"
    using old by (auto simp: LookupKey_def DeleteKey_def d1 row_def split: option.splits dest!: find_SomeD)
  have "KeyOwner (k_ID k) d1 = Inr u"
    using none [of "\<lambda>x. kr_id x = k_ID k"] old by (simp add: KeyOwner_def d1 find_append row_def)
  with look dis del show ?thesis by simp
qed

text \<open>
  Signing in succeeds exactly for an existing, enabled account and a password that verifies;
  every other case is the same refusal and leaves the store unchanged.
\<close>

theorem login_exact:
  assumes "db_inv d"
  shows "if \<exists>r \<in> set (db_users d). ur_email r = NormalizeEmail email \<and> \<not> ur_disabled r \<and>
           verifyPassword kdf (ur_password_hash r) pw
    then \<exists>u. fst (VerifyAdminLogin kdf True io_upd now email pw d) = Inr u \<and> u_Email u = NormalizeEmail email
    else VerifyAdminLogin kdf True io_upd now email pw d = (Inl ErrBadCredential, d)"
    (is "if ?R then _ else _")
proof -
  have d: "distinct (map ur_email (db_users d))" using assms by (simp add: db_inv_def users_ok_def)
  show ?thesis
  proof (cases "find (\<lambda>r. ur_email r = NormalizeEmail email) (db_users d)")
    case None
    then have "\<not> ?R" by (auto simp: find_None_iff)
    with None show ?thesis by (simp add: VerifyAdminLogin_def)
  next
    case (Some r)
    note r = find_SomeD [OF Some]
    then have "x = r" if "x \<in> set (db_users d)" "ur_email x = NormalizeEmail email" for x
      using that d by (metis distinct_map inj_onD)
    with Some r have "?R \<longleftrightarrow> \<not> ur_disabled r \<and> verifyPassword kdf (ur_password_hash r) pw" by blast
    with Some r show ?thesis by (auto simp: VerifyAdminLogin_def user_of_row_def)
  qed
qed

subsection \<open>A concrete store\<close>

definition toy_sha :: "string \<Rightarrow> string" where "toy_sha x = x"

definition toy_kdf :: kdf where
  "toy_kdf p s n l = Some (take l (p @ replicate l (CHR ''0'')))"

definition empty_db :: db where
  "empty_db = \<lparr>db_keys = [], db_users = [], db_sessions = [], db_next_key = 1, db_next_user = 1\<rparr>"

definition one_user_db :: db where
  "one_user_db = snd (CreateAdminUser toy_kdf True (Some ''salt'') 1000 ''Ops@example.com'' ''correct horse'' empty_db)"

definition one_customer_db :: db where
  "one_customer_db = snd (CreateUser toy_kdf True (Some ''salt'') 1000 ''Ops@example.com'' ''correct horse'' empty_db)"

definition session_db :: db where
  "session_db = snd (CreateSession toy_sha True (Some ''token'') 1000 1 one_user_db)"

definition key_db :: db where
  "key_db = snd (CreateKeyFor toy_sha True (Some ''entropy'') 1000 1 ''laptop'' 60 one_user_db)"

lemma db_inv_empty: "db_inv empty_db"
  by (simp add: db_inv_def users_ok_def keys_ok_def sessions_ok_def empty_db_def)

lemma db_inv_one_user: "db_inv one_user_db"
  unfolding one_user_db_def CreateAdminUser_def by (rule db_inv_createAccount [OF db_inv_empty])

definition ops_hash :: string where
  "ops_hash = the (hashPassword toy_kdf (Some ''salt'') ''correct horse'')"

lemma toy_kdf_length: "toy_kdf p s n l = Some dk \<Longrightarrow> length dk = l"
  by (auto simp: toy_kdf_def)

lemma ops_hash_eq: "hashPassword toy_kdf (Some ''salt'') ''correct horse'' = Some ops_hash"
  by (simp add: ops_hash_def hashPassword_def toy_kdf_def)

lemma ops_email: "NormalizeEmail ''Ops@example.com'' = ''ops@example.com''" "Contains ''ops@example.com'' ''@''"
  by code_simp+

lemma ops_password: "rune_count ''correct horse'' = 13"
  by (simp add: rune_count_ascii)

definition ops_token :: string where
  "ops_token = EncodeToString url_alphabet ''token''"

lemma ops_token_nonempty: "ops_token \<noteq> []"
  by (simp add: ops_token_def EncodeToString_nonempty)

lemma one_user_eq:
  "one_user_db = empty_db\<lparr>db_users := [\<lparr>ur_id = 1, ur_email = ''ops@example.com'', ur_password_hash = ops_hash,
     ur_created_at = 1000, ur_last_login = 0, ur_role = RoleAdmin, ur_disabled = False\<rparr>], db_next_user := 2\<rparr>"
  by (simp add: one_user_db_def CreateAdminUser_def createAccount_def Let_def ops_email ops_password ops_hash_eq empty_db_def)

lemma one_customer_eq:
  "one_customer_db = empty_db\<lparr>db_users := [\<lparr>ur_id = 1, ur_email = ''ops@example.com'', ur_password_hash = ops_hash,
     ur_created_at = 1000, ur_last_login = 0, ur_role = RoleUser, ur_disabled = False\<rparr>], db_next_user := 2\<rparr>"
  by (simp add: one_customer_db_def CreateUser_def createAccount_def Let_def ops_email ops_password ops_hash_eq empty_db_def)

lemma ops_verifies: "verifyPassword toy_kdf ops_hash ''correct horse''"
  using verify_hash [OF toy_kdf_length ops_hash_eq, where password' = "''correct horse''"] by simp

lemma one_user_row:
  "\<exists>r. db_users one_user_db = [r] \<and> ur_id r = 1 \<and> ur_email r = ''ops@example.com'' \<and> \<not> ur_disabled r \<and>
     verifyPassword toy_kdf (ur_password_hash r) ''correct horse''"
  using verify_hash [OF toy_kdf_length ops_hash_eq, where password' = "''correct horse''"] by (simp add: one_user_eq)


lemma session_db_token: "CreateSession toy_sha True (Some ''token'') 1000 1 one_user_db = (Inr ops_token, session_db)"
proof -
  have "fst (CreateSession toy_sha True (Some ''token'') 1000 1 one_user_db) = Inr ops_token"
    by (simp add: CreateSession_def Let_def ops_token_def one_user_eq empty_db_def)
  then show ?thesis by (simp add: session_db_def prod_eq_iff)
qed

theorem session_lifetime_witness:
  "LookupSession toy_sha 44200 ops_token session_db = Inl ErrUserNotFound \<and>
   (\<exists>u. LookupSession toy_sha 44199 ops_token session_db = Inr u)"
proof -
  obtain r where r: "db_users one_user_db = [r]" "ur_id r = 1" "\<not> ur_disabled r" using one_user_row by blast
  then have "LookupSession toy_sha t ops_token session_db =
      (if t < 1000 + SessionTTL \<and> \<not> ur_disabled r then Inr (user_of_row r) else Inl ErrUserNotFound)" for t
    using session_db_token ops_token_nonempty by (intro session_lifetime [OF db_inv_one_user]) auto
  with r show ?thesis by (simp add: SessionTTL_def)
qed

theorem sessions_evicted_witness:
  "LookupSession toy_sha 2000 ops_token (SetAccountDisabled 1 True session_db) = Inl ErrUserNotFound"
proof -
  have inv: "db_inv session_db" unfolding session_db_def by (rule db_inv_CreateSession [OF db_inv_one_user])
  have "db_users session_db = db_users one_user_db"
    by (simp add: session_db_def CreateSession_def Let_def)
  then have one: "\<forall>u \<in> set (db_users (SetAccountDisabled 1 True session_db)). ur_id u = 1"
    by (simp add: SetAccountDisabled_def Let_def one_user_eq)
  show ?thesis
  proof (cases "LookupSession toy_sha 2000 ops_token (SetAccountDisabled 1 True session_db)")
    case (Inl e)
    then show ?thesis by (auto simp: LookupSession_def split: if_splits option.splits)
  next
    case (Inr v)
    then have "u_ID v \<noteq> 1"
      by (rule sessions_evicted [OF inv, where i = 1, rotated]) simp
    moreover have "u_ID v = 1" using LookupSession_Inr [OF Inr] one by (auto simp: user_of_row_def)
    ultimately show ?thesis by simp
  qed
qed

theorem verify_hashPassword_witness:
  "verifyPassword toy_kdf ops_hash ''correct horse'' \<and> \<not> verifyPassword toy_kdf ops_hash ''wrong''"
proof -
  have "toy_kdf ''wrong'' ''salt'' 600000 32 \<noteq> toy_kdf ''correct horse'' ''salt'' 600000 32"
    by (simp add: toy_kdf_def)
  then show ?thesis
    using verify_hashPassword [OF _ ops_hash_eq, where password' = "''wrong''"] toy_kdf_length by blast
qed

theorem key_lifecycle_witness:
  "\<exists>(k :: APIKey) secret. LookupKey toy_sha True secret (DeleteKey (k_ID k) key_db) = Inl ErrKeyNotFound \<and> KeyOwner (k_ID k) key_db = Inr 1"
proof -
  obtain k secret where "CreateKeyFor toy_sha True (Some ''entropy'') 1000 1 ''laptop'' 60 one_user_db = (Inr (k, secret), key_db)"
  proof -
    obtain y where "fst (CreateKeyFor toy_sha True (Some ''entropy'') 1000 1 ''laptop'' 60 one_user_db) = Inr y"
      by (simp add: CreateKeyFor_def Let_def one_user_eq empty_db_def)
    with that show thesis by (cases y) (simp add: key_db_def prod_eq_iff)
  qed
  from key_lifecycle [OF db_inv_one_user this, where io = True] show ?thesis by blast
qed

theorem login_exact_witness: "\<exists>u. fst (VerifyAdminLogin toy_kdf True True 5 '' OPS@example.com'' ''correct horse'' one_user_db) = Inr u"
proof -
  have "NormalizeEmail '' OPS@example.com'' = ''ops@example.com''" by code_simp
  with one_user_row login_exact [OF db_inv_one_user, where kdf = toy_kdf and now = 5 and io_upd = True
      and email = "'' OPS@example.com''" and pw = "''correct horse''"]
  show ?thesis by (auto split: if_splits)
qed

end
