(* ===== verification/Gateway_Auth.thy ===== *)
theory Gateway_Auth
  imports Store_Accounts Store_Log
begin

text \<open>
  Authentication and limits of the gateway (\<^verbatim>\<open>src/internal/gateway/auth.go\<close>, \<^verbatim>\<open>adminauth.go\<close>,
  \<^verbatim>\<open>account.go\<close>): the key cache, the per-key rate limiter, the login limiter, and the handlers
  of the sign-in, account and key endpoints, each as a function from the gateway state to a
  response and the new state.

  A call carries what the code reads from outside: the clock (\<open>w_now\<close>, nanoseconds), whether
  the database answers (\<open>w_io\<close>; \<open>w_io2\<close> for the second statement of an operation that has two)
  and with which error text otherwise (\<open>w_dberr\<close>), and the random bytes (\<open>w_rand\<close>). The maps of
  the limiters are association lists; no result depends on their order. A request holds the
  headers, cookies and the decoded body fields a handler reads.
\<close>

subsection \<open>Requests, responses, state\<close>

record world =
  w_now :: time
  w_io :: bool
  w_io2 :: bool
  w_dberr :: string
  w_rand :: "bytes option"

definition unix :: "time \<Rightarrow> int" where
  "unix t = t div second"

record request =
  rq_Authorization :: string
  rq_CFConnectingIP :: string
  rq_XForwardedFor :: string
  rq_XForwardedProto :: string
  rq_TLS :: bool
  rq_RemoteAddr :: string
  rq_cookies :: "(string \<times> string) list"
  rq_email :: string
  rq_password :: string
  rq_new_password :: string
  rq_name :: string
  rq_path_id :: string
  rq_RequestID :: string

datatype payload =
    PError string string
  | POk
  | PSignedIn string string
  | PAuthState bool bool string
  | PMe string string bool int
  | PNotSignedIn
  | PKeys "APIKey list"
  | PSecret APIKey string
  | PUsers "AdminUser list" string
  | PUser AdminUser

record response =
  rs_status :: int
  rs_body :: payload
  rs_cookie :: "(string \<times> string \<times> bool \<times> int) option"

definition writeError :: "int \<Rightarrow> string \<Rightarrow> string \<Rightarrow> response" where
  "writeError status typ msg = \<lparr>rs_status = status, rs_body = PError typ msg, rs_cookie = None\<rparr>"

definition writeJSON :: "int \<Rightarrow> payload \<Rightarrow> response" where
  "writeJSON status v = \<lparr>rs_status = status, rs_body = v, rs_cookie = None\<rparr>"

record cachedKey =
  ck_key :: "APIKey option"
  ck_at :: time
  ck_ok :: bool

record rlWindow =
  rw_start :: time
  rw_count :: int

record gateway =
  g_db :: db
  g_keys :: "(string \<times> cachedKey) list"
  g_windows :: "(int \<times> rlWindow) list"
  g_logins :: "(string \<times> time list) list"
  g_log :: log_state
  g_AdminToken :: string

definition sessionCookie :: string where "sessionCookie = ''llmfast_session''"
definition userCookie :: string where "userCookie = ''llmfast_user''"

text \<open>\<^verbatim>\<open>r.Cookie(name)\<close>; a missing cookie and an empty one are treated alike by every caller.\<close>

definition cookie :: "request \<Rightarrow> string \<Rightarrow> string" where
  "cookie r name = (case map_of (rq_cookies r) name of None \<Rightarrow> [] | Some v \<Rightarrow> v)"

subsection \<open>The key cache\<close>

definition keyCacheTTL :: duration where "keyCacheTTL = 30 * second"

definition cache_get :: "time \<Rightarrow> string \<Rightarrow> (string \<times> cachedKey) list \<Rightarrow> cachedKey option" where
  "cache_get now secret m =
     (case map_of m secret of
        None \<Rightarrow> None
      | Some e \<Rightarrow> if now - ck_at e > keyCacheTTL then None else Some e)"

definition cache_put ::
  "time \<Rightarrow> string \<Rightarrow> APIKey option \<Rightarrow> bool \<Rightarrow> (string \<times> cachedKey) list \<Rightarrow> (string \<times> cachedKey) list" where
  "cache_put now secret k ok m =
     (let m = (if length m > 10000 then [] else m)
      in AList.update secret \<lparr>ck_key = k, ck_at = now, ck_ok = ok\<rparr> m)"

definition cache_purge :: "gateway \<Rightarrow> gateway" where
  "cache_purge g = g\<lparr>g_keys := []\<rparr>"

definition reject_record :: "world \<Rightarrow> request \<Rightarrow> string \<Rightarrow> Record" where
  "reject_record w r reason =
     \<lparr>r_TS = w_now w, r_RequestID = rq_RequestID r, r_Model = ''-'', r_Backend = [], r_APIKeyID = 0,
      r_Status = 401, r_Streamed = False, r_PromptTokens = 0, r_CompletionTokens = 0,
      r_ReasoningTokens = 0, r_CachedTokens = 0, r_TTFTMs = -1, r_TotalMs = 0, r_GenMs = 0,
      r_TPS = 0, r_CostUSD = 0, r_Error = reason\<rparr>"

definition reject :: "world \<Rightarrow> request \<Rightarrow> string \<Rightarrow> gateway \<Rightarrow> (response + APIKey) \<times> gateway" where
  "reject w r reason g =
     (Inl (writeError 401 ''authentication_error'' ''Invalid API key.''),
      g\<lparr>g_log := Log (reject_record w r reason) (g_log g)\<rparr>)"

definition authenticate ::
  "(string \<Rightarrow> string) \<Rightarrow> world \<Rightarrow> request \<Rightarrow> gateway \<Rightarrow> (response + APIKey) \<times> gateway" where
  "authenticate sha w r g =
     (let secret = ExtractBearer (rq_Authorization r)
      in if secret = [] then
           (Inl (writeError 401 ''authentication_error''
                  (''Missing Authorization header. Pass your key as: Authorization: Bearer '' @ KeyPrefix @ ''...'')),
            g\<lparr>g_log := Log (reject_record w r ''missing authorization header'') (g_log g)\<rparr>)
         else case cache_get (w_now w) secret (g_keys g) of
           Some e \<Rightarrow>
             (case (ck_ok e, ck_key e) of
                (True, Some k) \<Rightarrow> (Inr k, g)
              | _ \<Rightarrow> reject w r ''unknown api key'' g)
         | None \<Rightarrow>
             (case LookupKey sha (w_io w) secret (g_db g) of
                Inl _ \<Rightarrow>
                  reject w r ''unknown or disabled api key''
                    (g\<lparr>g_keys := cache_put (w_now w) secret None False (g_keys g)\<rparr>)
              | Inr k \<Rightarrow> (Inr k, g\<lparr>g_keys := cache_put (w_now w) secret (Some k) True (g_keys g)\<rparr>)))"

subsection \<open>The rate limiter\<close>

definition rl_allow :: "time \<Rightarrow> int \<Rightarrow> int \<Rightarrow> (int \<times> rlWindow) list \<Rightarrow> bool \<times> (int \<times> rlWindow) list" where
  "rl_allow now keyID limit ws =
     (if limit \<le> 0 then (True, ws)
      else case map_of ws keyID of
        None \<Rightarrow> (True, AList.update keyID \<lparr>rw_start = now, rw_count = 1\<rparr> ws)
      | Some win \<Rightarrow>
          if now - rw_start win \<ge> minute
          then (True, AList.update keyID \<lparr>rw_start = now, rw_count = 1\<rparr> ws)
          else if rw_count win \<ge> limit then (False, ws)
          else (True, AList.update keyID (win\<lparr>rw_count := rw_count win + 1\<rparr>) ws))"

definition rl_sweep :: "time \<Rightarrow> (int \<times> rlWindow) list \<Rightarrow> (int \<times> rlWindow) list" where
  "rl_sweep now ws = filter (\<lambda>(k, win). \<not> now - rw_start win > 5 * minute) ws"

subsection \<open>The login limiter\<close>

definition loginWindow :: duration where "loginWindow = 15 * minute"
definition loginMaxTries :: nat where "loginMaxTries = 10"

text \<open>
  \<^verbatim>\<open>allow\<close> compacts the slice of the address in place. The bounding loop reads only the last
  element of each slice, which the compaction leaves as it was.
\<close>

definition login_allow :: "time \<Rightarrow> string \<Rightarrow> (string \<times> time list) list \<Rightarrow> bool \<times> (string \<times> time list) list" where
  "login_allow now ip m =
     (let old = (case map_of m ip of None \<Rightarrow> [] | Some ts \<Rightarrow> ts);
          kept = filter (\<lambda>t. now - t < loginWindow) old;
          m = (if length m > 10000
               then filter (\<lambda>(k, v). \<not> (v = [] \<or> now - last v > loginWindow)) m else m)
      in if length kept \<ge> loginMaxTries then (False, AList.update ip kept m)
         else (True, AList.update ip (kept @ [now]) m))"

definition login_reset :: "string \<Rightarrow> (string \<times> time list) list \<Rightarrow> (string \<times> time list) list" where
  "login_reset ip m = AList.delete ip m"

text \<open>\<^verbatim>\<open>net.SplitHostPort\<close>: the host, or \<open>None\<close> for an address it refuses.\<close>

definition SplitHostPort :: "string \<Rightarrow> string option" where
  "SplitHostPort hp =
     (case LastIndex hp '':'' of
        None \<Rightarrow> None
      | Some i \<Rightarrow>
          if HasPrefix hp ''['' then
            (case Index hp '']'' of
               None \<Rightarrow> None
             | Some e \<Rightarrow>
                 if e + 1 = i \<and> \<not> Contains (drop 1 hp) ''['' \<and> \<not> Contains (drop (e + 1) hp) '']''
                 then Some (take (e - 1) (drop 1 hp)) else None)
          else if Contains (take i hp) '':'' \<or> Contains hp ''['' \<or> Contains hp '']'' then None
          else Some (take i hp))"

definition clientIP :: "request \<Rightarrow> string" where
  "clientIP r =
     (if rq_CFConnectingIP r \<noteq> [] then rq_CFConnectingIP r
      else let fwd = rq_XForwardedFor r
           in if fwd \<noteq> [] then
                (case Index fwd '','' of
                   Some i \<Rightarrow> if i > 0 then TrimSpace (take i fwd) else TrimSpace fwd
                 | None \<Rightarrow> TrimSpace fwd)
              else case SplitHostPort (rq_RemoteAddr r) of
                None \<Rightarrow> rq_RemoteAddr r | Some host \<Rightarrow> host)"

subsection \<open>Sessions and the admin guard\<close>

definition sessionUser :: "(string \<Rightarrow> string) \<Rightarrow> string \<Rightarrow> world \<Rightarrow> request \<Rightarrow> gateway \<Rightarrow> AdminUser option" where
  "sessionUser sha name w r g =
     (if cookie r name = [] \<or> \<not> w_io w then None
      else case LookupSession sha (unix (w_now w)) (cookie r name) (g_db g) of
        Inl _ \<Rightarrow> None | Inr u \<Rightarrow> Some u)"

definition hasAdminUsers :: "world \<Rightarrow> gateway \<Rightarrow> bool" where
  "hasAdminUsers w g = (w_io w \<and> CountAdminUsers (g_db g) > 0)"

text \<open>\<open>None\<close> lets the request through; \<open>Some\<close> is the refusal already written.\<close>

definition requireAdmin :: "(string \<Rightarrow> string) \<Rightarrow> world \<Rightarrow> request \<Rightarrow> gateway \<Rightarrow> response option" where
  "requireAdmin sha w r g =
     (case sessionUser sha sessionCookie w r g of
        Some u \<Rightarrow> None
      | None \<Rightarrow>
          let want = g_AdminToken g; got = ExtractBearer (rq_Authorization r)
          in if want \<noteq> [] \<and> got \<noteq> [] \<and> got = want then None
             else if want = [] \<and> \<not> hasAdminUsers w g then
               Some (writeError 403 ''config_error''
                 ''No admin account exists and no admin token is configured. Create an account with: llmfast -config <file> -add-admin <email>'')
             else Some (writeError 401 ''authentication_error'' ''Not signed in.''))"

definition isHTTPS :: "request \<Rightarrow> bool" where
  "isHTTPS r = (rq_TLS r \<or> EqualFold (rq_XForwardedProto r) ''https'')"

subsection \<open>Operator endpoints\<close>

definition start_session ::
  "(string \<Rightarrow> string) \<Rightarrow> string \<Rightarrow> payload \<Rightarrow> world \<Rightarrow> request \<Rightarrow> AdminUser \<Rightarrow> gateway \<Rightarrow> response \<times> gateway" where
  "start_session sha name body w r u g =
     (case CreateSession sha (w_io w) (w_rand w) (unix (w_now w)) (u_ID u) (g_db g) of
        (Inl e, d) \<Rightarrow> (writeError 500 ''server_error'' (error_text (w_dberr w) e), g\<lparr>g_db := d\<rparr>)
      | (Inr token, d) \<Rightarrow>
          ((writeJSON 200 body)\<lparr>rs_cookie := Some (name, token, isHTTPS r, SessionTTL)\<rparr>, g\<lparr>g_db := d\<rparr>))"

definition startSession where
  "startSession sha w r u g = start_session sha sessionCookie (PSignedIn (u_Email u) []) w r u g"

definition startUserSession where
  "startUserSession sha w r u g = start_session sha userCookie (PSignedIn (u_Email u) (u_Role u)) w r u g"

definition adminAuthState :: "(string \<Rightarrow> string) \<Rightarrow> world \<Rightarrow> request \<Rightarrow> gateway \<Rightarrow> response" where
  "adminAuthState sha w r g =
     (if \<not> w_io w then writeError 500 ''server_error'' (w_dberr w)
      else let needs_setup = (CountAdminUsers (g_db g) = 0)
           in case sessionUser sha sessionCookie w r g of
                Some u \<Rightarrow> writeJSON 200 (PAuthState needs_setup True (u_Email u))
              | None \<Rightarrow> writeJSON 200 (PAuthState needs_setup False []))"

definition adminSetup :: "(string \<Rightarrow> string) \<Rightarrow> kdf \<Rightarrow> world \<Rightarrow> request \<Rightarrow> gateway \<Rightarrow> response \<times> gateway" where
  "adminSetup sha kdf w r g =
     (if \<not> w_io w then (writeError 500 ''server_error'' (w_dberr w), g)
      else if CountAdminUsers (g_db g) > 0 then
        (writeError 403 ''invalid_request_error''
           ''An admin account already exists. Sign in, or add more accounts from the dashboard.'', g)
      else case CreateAdminUser kdf (w_io w) (w_rand w) (unix (w_now w)) (rq_email r) (rq_password r) (g_db g) of
        (Inl e, d) \<Rightarrow> (writeError 400 ''invalid_request_error'' (error_text (w_dberr w) e), g\<lparr>g_db := d\<rparr>)
      | (Inr u, d) \<Rightarrow> startSession sha w r u (g\<lparr>g_db := d\<rparr>))"

text \<open>\<^verbatim>\<open>adminLogin\<close> and \<^verbatim>\<open>userLogin\<close> differ in the refusal they write and in the session they start.\<close>

definition sign_in ::
  "(world \<Rightarrow> store_error \<Rightarrow> response) \<Rightarrow> kdf \<Rightarrow>
   (world \<Rightarrow> request \<Rightarrow> AdminUser \<Rightarrow> gateway \<Rightarrow> response \<times> gateway) \<Rightarrow> world \<Rightarrow> request \<Rightarrow> gateway \<Rightarrow>
   response \<times> gateway" where
  "sign_in refuse kdf start w r g =
     (let ip = clientIP r; (ok, logins) = login_allow (w_now w) ip (g_logins g); g = g\<lparr>g_logins := logins\<rparr>
      in if \<not> ok then
           (writeError 429 ''rate_limit_error'' ''Too many sign-in attempts. Wait 15 minutes and try again.'', g)
         else case VerifyAdminLogin kdf (w_io w) (w_io2 w) (unix (w_now w)) (rq_email r) (rq_password r) (g_db g) of
           (Inl e, d) \<Rightarrow> (refuse w e, g\<lparr>g_db := d\<rparr>)
         | (Inr u, d) \<Rightarrow> start w r u (g\<lparr>g_db := d, g_logins := login_reset ip logins\<rparr>))"

definition bad_login :: response where
  "bad_login = writeError 401 ''authentication_error'' ''Incorrect email or password.''"

definition adminLogin where
  "adminLogin sha kdf w r g =
     sign_in (\<lambda>w e. if e = ErrBadCredential then bad_login
                     else writeError 500 ''server_error'' (error_text (w_dberr w) e))
       kdf (startSession sha) w r g"

definition logout :: "(string \<Rightarrow> string) \<Rightarrow> string \<Rightarrow> request \<Rightarrow> gateway \<Rightarrow> response \<times> gateway" where
  "logout sha name r g =
     (let g = (if cookie r name \<noteq> [] then g\<lparr>g_db := DeleteSession sha (cookie r name) (g_db g)\<rparr> else g)
      in ((writeJSON 200 POk)\<lparr>rs_cookie := Some (name, [], isHTTPS r, -1)\<rparr>, g))"

definition adminLogout where
  "adminLogout sha r g = logout sha sessionCookie r g"

definition adminListUsers :: "(string \<Rightarrow> string) \<Rightarrow> world \<Rightarrow> request \<Rightarrow> gateway \<Rightarrow> response" where
  "adminListUsers sha w r g =
     (if \<not> w_io w then writeError 500 ''server_error'' (w_dberr w)
      else writeJSON 200 (PUsers (ListAdminUsers (g_db g))
             (case sessionUser sha sessionCookie w r g of Some u \<Rightarrow> u_Email u | None \<Rightarrow> [])))"

definition adminCreateUser :: "kdf \<Rightarrow> world \<Rightarrow> request \<Rightarrow> gateway \<Rightarrow> response \<times> gateway" where
  "adminCreateUser kdf w r g =
     (case CreateAdminUser kdf (w_io w) (w_rand w) (unix (w_now w)) (rq_email r) (rq_password r) (g_db g) of
        (Inl e, d) \<Rightarrow> (writeError 400 ''invalid_request_error'' (error_text (w_dberr w) e), g\<lparr>g_db := d\<rparr>)
      | (Inr u, d) \<Rightarrow> (writeJSON 200 (PUser u), g\<lparr>g_db := d\<rparr>))"

text \<open>Both password endpoints check the current password, set the new one, and sign in again.\<close>

definition change_password ::
  "kdf \<Rightarrow> (world \<Rightarrow> request \<Rightarrow> AdminUser \<Rightarrow> gateway \<Rightarrow> response \<times> gateway) \<Rightarrow> world \<Rightarrow> request \<Rightarrow> AdminUser \<Rightarrow>
   gateway \<Rightarrow> response \<times> gateway" where
  "change_password kdf start w r u g =
     (case VerifyAdminLogin kdf (w_io w) (w_io2 w) (unix (w_now w)) (u_Email u) (rq_password r) (g_db g) of
        (Inl _, d) \<Rightarrow>
          (writeError 401 ''authentication_error'' ''Your current password is not correct.'', g\<lparr>g_db := d\<rparr>)
      | (Inr _, d) \<Rightarrow>
          (case SetAdminPassword kdf (w_io w) (w_io2 w) (w_rand w) (u_Email u) (rq_new_password r) d of
             (Some e, d) \<Rightarrow> (writeError 400 ''invalid_request_error'' (error_text (w_dberr w) e), g\<lparr>g_db := d\<rparr>)
           | (None, d) \<Rightarrow> start w r u (g\<lparr>g_db := d\<rparr>)))"

definition adminChangePassword where
  "adminChangePassword sha kdf w r g =
     (case sessionUser sha sessionCookie w r g of
        None \<Rightarrow> (writeError 403 ''invalid_request_error''
                  ''Changing a password requires signing in; a bearer token cannot do it.'', g)
      | Some u \<Rightarrow> change_password kdf (startSession sha) w r u g)"

definition adminDeleteUser :: "world \<Rightarrow> request \<Rightarrow> gateway \<Rightarrow> response \<times> gateway" where
  "adminDeleteUser w r g =
     (case Atoi (rq_path_id r) of
        (i, ok) \<Rightarrow>
          if \<not> ok then (writeError 400 ''invalid_request_error'' ''invalid user id'', g)
          else case DeleteAdminUser (w_io w) (w_io2 w) i (g_db g) of
            (Some e, d) \<Rightarrow> (writeError 400 ''invalid_request_error'' (error_text (w_dberr w) e), g\<lparr>g_db := d\<rparr>)
          | (None, d) \<Rightarrow> (writeJSON 200 POk, g\<lparr>g_db := d\<rparr>))"

subsection \<open>Customer endpoints\<close>

definition currentUser where
  "currentUser sha w r g = sessionUser sha userCookie w r g"

definition userGuard ::
  "(string \<Rightarrow> string) \<Rightarrow> (world \<Rightarrow> request \<Rightarrow> AdminUser \<Rightarrow> gateway \<Rightarrow> response \<times> gateway) \<Rightarrow> world \<Rightarrow> request \<Rightarrow>
   gateway \<Rightarrow> response \<times> gateway" where
  "userGuard sha h w r g =
     (case currentUser sha w r g of
        None \<Rightarrow> (writeError 401 ''authentication_error'' ''Not signed in.'', g)
      | Some u \<Rightarrow> h w r u g)"

definition userRegister :: "(string \<Rightarrow> string) \<Rightarrow> kdf \<Rightarrow> world \<Rightarrow> request \<Rightarrow> gateway \<Rightarrow> response \<times> gateway" where
  "userRegister sha kdf w r g =
     (let (ok, logins) = login_allow (w_now w) (clientIP r) (g_logins g); g = g\<lparr>g_logins := logins\<rparr>
      in if \<not> ok then
           (writeError 429 ''rate_limit_error'' ''Too many attempts. Wait 15 minutes and try again.'', g)
         else case CreateUser kdf (w_io w) (w_rand w) (unix (w_now w)) (rq_email r) (rq_password r) (g_db g) of
           (Inl ErrUserExists, d) \<Rightarrow>
             (writeError 400 ''invalid_request_error''
                ''That email cannot be registered. If you already have an account, sign in.'', g\<lparr>g_db := d\<rparr>)
         | (Inl e, d) \<Rightarrow> (writeError 400 ''invalid_request_error'' (error_text (w_dberr w) e), g\<lparr>g_db := d\<rparr>)
         | (Inr u, d) \<Rightarrow> startUserSession sha w r u (g\<lparr>g_db := d\<rparr>))"

definition userLogin where
  "userLogin sha kdf w r g = sign_in (\<lambda>w e. bad_login) kdf (startUserSession sha) w r g"

definition userLogout where
  "userLogout sha r g = logout sha userCookie r g"

definition userMe :: "(string \<Rightarrow> string) \<Rightarrow> world \<Rightarrow> request \<Rightarrow> gateway \<Rightarrow> response" where
  "userMe sha w r g =
     (case currentUser sha w r g of
        None \<Rightarrow> writeJSON 200 PNotSignedIn
      | Some u \<Rightarrow> writeJSON 200 (PMe (u_Email u) (u_Role u) (IsAdmin u) (u_CreatedAt u)))"

definition userListKeys :: "world \<Rightarrow> request \<Rightarrow> AdminUser \<Rightarrow> gateway \<Rightarrow> response \<times> gateway" where
  "userListKeys w r u g =
     (if \<not> w_io w then (writeError 500 ''server_error'' (w_dberr w), g)
      else (writeJSON 200 (PKeys (ListKeysFor (u_ID u) (g_db g))), g))"

definition userCreateKey :: "(string \<Rightarrow> string) \<Rightarrow> world \<Rightarrow> request \<Rightarrow> AdminUser \<Rightarrow> gateway \<Rightarrow> response \<times> gateway" where
  "userCreateKey sha w r u g =
     (let name = (if rq_name r = [] then ''default'' else rq_name r)
      in if w_io w \<and> length (ListKeysFor (u_ID u) (g_db g)) \<ge> 10 then
           (writeError 400 ''invalid_request_error''
              ''You already have 10 keys. Delete one before creating another.'', g)
         else case CreateKeyFor sha (w_io w) (w_rand w) (unix (w_now w)) (u_ID u) name 0 (g_db g) of
           (Inl e, d) \<Rightarrow> (writeError 500 ''server_error'' (error_text (w_dberr w) e), g\<lparr>g_db := d\<rparr>)
         | (Inr (key, secret), d) \<Rightarrow> (writeJSON 200 (PSecret key secret), g\<lparr>g_db := d\<rparr>))"

definition userDeleteKey :: "world \<Rightarrow> request \<Rightarrow> AdminUser \<Rightarrow> gateway \<Rightarrow> response \<times> gateway" where
  "userDeleteKey w r u g =
     (case Atoi (rq_path_id r) of
        (i, ok) \<Rightarrow>
          if \<not> ok then (writeError 400 ''invalid_request_error'' ''invalid key id'', g)
          else case KeyOwner i (g_db g) of
            Inr owner \<Rightarrow>
              if \<not> w_io w \<or> owner \<noteq> u_ID u then (writeError 404 ''invalid_request_error'' ''No such key.'', g)
              else (writeJSON 200 POk, cache_purge (g\<lparr>g_db := DeleteKey i (g_db g)\<rparr>))
          | Inl _ \<Rightarrow> (writeError 404 ''invalid_request_error'' ''No such key.'', g))"

definition userChangePassword where
  "userChangePassword sha kdf w r u g = change_password kdf (startUserSession sha) w r u g"

end
