(* ===== verification/Gateway_Limits.thy ===== *)
theory Gateway_Limits
  imports Gateway_Auth
begin

text \<open>
  What the authentication and the limits of the gateway guarantee over whole sequences of
  calls: the login limiter, the rate limiter, the delay of a revocation, the separation of
  accounts, and who passes the admin guard.
\<close>


subsection \<open>The login limiter admits ten attempts per quarter of an hour\<close>

datatype login_event = Attempt time string | Cleared string

text \<open>Run a sequence of events; the second component collects the admitted attempts of \<open>ip\<close>.\<close>

fun login_run ::
  "string \<Rightarrow> login_event list \<Rightarrow> (string \<times> time list) list \<times> time list \<Rightarrow> (string \<times> time list) list \<times> time list" where
  "login_run ip [] (m, hist) = (m, hist)"
| "login_run ip (Attempt t a # es) (m, hist) =
     (case login_allow t a m of
        (ok, m') \<Rightarrow> login_run ip es (m', if ok \<and> a = ip then hist @ [t] else hist))"
| "login_run ip (Cleared a # es) (m, hist) = login_run ip es (login_reset a m, hist)"

fun login_times :: "login_event list \<Rightarrow> time list" where
  "login_times [] = []"
| "login_times (Attempt t a # es) = t # login_times es"
| "login_times (Cleared a # es) = login_times es"

definition attempts_of :: "(string \<times> time list) list \<Rightarrow> string \<Rightarrow> time list" where
  "attempts_of m ip = (case map_of m ip of None \<Rightarrow> [] | Some ts \<Rightarrow> ts)"

definition in_window :: "time \<Rightarrow> duration \<Rightarrow> time list \<Rightarrow> time list" where
  "in_window a d ts = filter (\<lambda>t. a \<le> t \<and> t < a + d) ts"

definition recent :: "time \<Rightarrow> time list \<Rightarrow> time list" where
  "recent now ts = filter (\<lambda>t. now - t < loginWindow) ts"

lemma recent_later: "now \<le> now' \<Longrightarrow> recent now' (recent now ts) = recent now' ts"
  by (auto simp: recent_def intro: filter_cong)

lemma login_allow_eq:
  "login_allow now a m =
     (let m' = (if length m > 10000 then filter (\<lambda>(k, v). \<not> (v = [] \<or> now - last v > loginWindow)) m else m)
      in if loginMaxTries \<le> length (recent now (attempts_of m a)) then (False, AList.update a (recent now (attempts_of m a)) m')
         else (True, AList.update a (recent now (attempts_of m a) @ [now]) m'))"
  by (simp add: login_allow_def attempts_of_def recent_def Let_def)

lemma map_of_filter_value:
  "distinct (keys_of m) \<Longrightarrow> map_of (filter (\<lambda>(k, v). P v) m) k =
     (case map_of m k of None \<Rightarrow> None | Some v \<Rightarrow> if P v then Some v else None)"
  by (induction m) (auto simp: map_of_eq_None_iff split: option.splits)

definition login_inv :: "time \<Rightarrow> string \<Rightarrow> (string \<times> time list) list \<Rightarrow> time list \<Rightarrow> bool" where
  "login_inv t0 ip m hist \<longleftrightarrow> distinct (keys_of m) \<and>
     (\<forall>a. sorted (attempts_of m a) \<and> (\<forall>t \<in> set (attempts_of m a). t \<le> t0)) \<and>
     (\<forall>now \<ge> t0. recent now hist = recent now (attempts_of m ip)) \<and>
     (\<forall>a. length (in_window a loginWindow hist) \<le> loginMaxTries)"

lemma attempts_bounded:
  assumes "distinct (keys_of m)" and "sorted (attempts_of m a)" and "now \<le> now'"
  shows "recent now' (attempts_of (if length m > 10000
      then filter (\<lambda>(k, v). \<not> (v = [] \<or> now - last v > loginWindow)) m else m) a) = recent now' (attempts_of m a)"
proof (cases "map_of m a")
  case (Some v)
  have "recent now' v = []" if "v = [] \<or> loginWindow < now - last v"
  proof -
    have "sorted v" using assms(2) Some by (simp add: attempts_of_def)
    then have "t \<le> last v" if "t \<in> set v" for t
      using that by (cases v rule: rev_cases) (auto simp: sorted_append)
    with that assms(3) show ?thesis by (fastforce simp: recent_def filter_empty_conv)
  qed
  with Some assms(1) show ?thesis by (auto simp: attempts_of_def map_of_filter_value recent_def)
qed (auto simp: attempts_of_def map_of_filter_value assms(1))

lemma in_window_snoc_le:
  assumes "length (in_window a loginWindow hist) \<le> loginMaxTries" and "length (recent t hist) < loginMaxTries"
  shows "length (in_window a loginWindow (hist @ [t])) \<le> loginMaxTries"
proof (cases "a \<le> t \<and> t < a + loginWindow")
  case True
  have "length (filter (\<lambda>x. a \<le> x \<and> x < a + loginWindow) hist) \<le> length (filter (\<lambda>x. t - x < loginWindow) hist)"
    using True by (induction hist) auto
  with True assms(2) show ?thesis by (simp add: in_window_def recent_def)
qed (use assms in \<open>auto simp: in_window_def\<close>)

lemma sorted_snoc_le: "sorted xs \<Longrightarrow> \<forall>x \<in> set xs. x \<le> t \<Longrightarrow> sorted (xs @ [t])"
  by (simp add: sorted_append)

lemma login_inv_attempt:
  assumes inv: "login_inv t0 ip m hist" and t: "t0 \<le> t" and step: "login_allow t a m = (ok, m')"
  shows "login_inv t ip m' (if ok \<and> a = ip then hist @ [t] else hist)"
proof -
  let ?m = "if length m > 10000 then filter (\<lambda>(k, v). \<not> (v = [] \<or> t - last v > loginWindow)) m else m"
  let ?kept = "recent t (attempts_of m a)"
  have d: "distinct (keys_of m)" and srt: "\<And>a. sorted (attempts_of m a)"
    and le: "\<And>a x. x \<in> set (attempts_of m a) \<Longrightarrow> x \<le> t0"
    and rec: "\<And>now. t0 \<le> now \<Longrightarrow> recent now hist = recent now (attempts_of m ip)"
    and win: "\<And>a. length (in_window a loginWindow hist) \<le> loginMaxTries"
    using inv by (auto simp: login_inv_def)
  define new where "new = (if ok then ?kept @ [t] else ?kept)"
  have m': "m' = AList.update a new ?m" and ok: "ok \<longleftrightarrow> length ?kept < loginMaxTries"
    using step by (auto simp: login_allow_eq Let_def new_def split: if_splits)
  have dm: "distinct (keys_of ?m)" using d by (auto simp: distinct_map_filter)
  have att: "attempts_of m' b = (if b = a then new else attempts_of ?m b)" for b
    by (simp add: m' attempts_of_def)
  have sub: "set (attempts_of ?m b) \<subseteq> set (attempts_of m b)" "sorted (attempts_of ?m b)" for b
    using srt [of b] by (cases "map_of m b"; simp add: attempts_of_def map_of_filter_value [OF d])+
  have new_ok: "sorted new" "\<forall>x \<in> set new. x \<le> t"
    using srt [of a] order_trans [OF le [of _ a] t]
    by (auto simp: new_def recent_def sorted_filter [where f = "\<lambda>x. x", simplified] intro!: sorted_snoc_le)
  have "recent now (if ok \<and> a = ip then hist @ [t] else hist) = recent now (attempts_of m' ip)" if "t \<le> now" for now
  proof (cases "a = ip")
    case True
    have "recent now new = recent now (attempts_of m ip) @ (if ok then recent now [t] else [])"
      using that True recent_later [of t now "attempts_of m ip"] by (simp add: new_def recent_def)
    with True rec [of now] that t att show ?thesis by (auto simp: recent_def)
  next
    case False
    with rec [of now] that t att attempts_bounded [OF d srt that] show ?thesis by simp
  qed
  moreover have "length (in_window b loginWindow (if ok \<and> a = ip then hist @ [t] else hist)) \<le> loginMaxTries" for b
    using win [of b] ok rec [OF t] by (auto intro: in_window_snoc_le)
  moreover have "sorted (attempts_of m' b)" "\<forall>x \<in> set (attempts_of m' b). x \<le> t" for b
    using att [of b] new_ok sub [of b] order_trans [OF le [of _ b] t] by (cases "b = a"; auto)+
  ultimately show ?thesis using dm by (simp add: login_inv_def m')
qed

lemma login_inv_reset:
  "login_inv t0 ip m hist \<Longrightarrow> a \<noteq> ip \<Longrightarrow> login_inv t0 ip (login_reset a m) hist"
  by (auto simp: login_inv_def login_reset_def attempts_of_def)

lemma login_run_inv:
  "login_inv t0 ip m hist \<Longrightarrow> sorted (t0 # login_times es) \<Longrightarrow> Cleared ip \<notin> set es \<Longrightarrow>
   \<exists>t1. login_inv t1 ip (fst (login_run ip es (m, hist))) (snd (login_run ip es (m, hist)))"
proof (induction es arbitrary: t0 m hist)
  case (Cons e es)
  show ?case
  proof (cases e)
    case (Attempt t a)
    obtain ok m' where st: "login_allow t a m = (ok, m')" by fastforce
    have "login_inv t ip m' (if ok \<and> a = ip then hist @ [t] else hist)"
      using Cons.prems Attempt by (intro login_inv_attempt [OF _ _ st]) auto
    from Cons.IH [OF this] Cons.prems Attempt st show ?thesis by auto
  next
    case (Cleared a)
    with Cons.prems have "login_inv t0 ip (login_reset a m) hist" by (auto intro: login_inv_reset)
    from Cons.IH [OF this] Cons.prems Cleared show ?thesis by auto
  qed
qed auto

text \<open>
  From one address at most ten sign-in attempts are admitted in any quarter of an hour,
  whatever other addresses do meanwhile and however often the table of attempts is pruned, as
  long as no attempt of the address succeeds.
\<close>

theorem login_limit:
  assumes "sorted (login_times es)" and "Cleared ip \<notin> set es"
  shows "length (in_window a loginWindow (snd (login_run ip es ([], [])))) \<le> 10"
proof -
  obtain t0 where t0: "sorted (t0 # login_times es)"
  proof (cases "login_times es")
    case (Cons t ts)
    with assms(1) that [of t] show thesis by auto
  qed (use that in auto)
  have "login_inv t0 ip [] []" by (simp add: login_inv_def attempts_of_def recent_def in_window_def)
  from login_run_inv [OF this t0 assms(2)] show ?thesis by (auto simp: login_inv_def loginMaxTries_def)
qed

subsection \<open>The rate limiter admits at most twice the limit in any minute\<close>

datatype rl_event = Call time int int | Sweep time

text \<open>The admitted calls of a key, each with the start of the window it was counted in.\<close>

fun rl_run :: "int \<Rightarrow> rl_event list \<Rightarrow> (int \<times> rlWindow) list \<Rightarrow> (time \<times> time) list" where
  "rl_run k [] ws = []"
| "rl_run k (Call t k' l # es) ws =
     (case rl_allow t k' l ws of
        (ok, ws') \<Rightarrow>
          (if ok \<and> k' = k then [(t, case map_of ws' k of Some win \<Rightarrow> rw_start win | None \<Rightarrow> t)] else [])
          @ rl_run k es ws')"
| "rl_run k (Sweep t # es) ws = rl_run k es (rl_sweep t ws)"

fun rl_times :: "rl_event list \<Rightarrow> time list" where
  "rl_times [] = []"
| "rl_times (Call t k l # es) = t # rl_times es"
| "rl_times (Sweep t # es) = t # rl_times es"

definition in_start :: "time \<Rightarrow> (time \<times> time) list \<Rightarrow> nat" where
  "in_start s T = length (filter (\<lambda>(t, x). x = s) T)"

text \<open>What a run does after the window \<open>w0\<close> of the key, with limit \<open>L\<close>.\<close>

definition rl_ok :: "int \<Rightarrow> time \<Rightarrow> rlWindow option \<Rightarrow> (time \<times> time) list \<Rightarrow> bool" where
  "rl_ok L t0 w0 T \<longleftrightarrow>
     (\<forall>(t, s) \<in> set T. s \<le> t \<and> t < s + minute) \<and>
     (\<forall>s. int (in_start s T) + (case w0 of Some w \<Rightarrow> if rw_start w = s then rw_count w else 0 | None \<Rightarrow> 0) \<le> L) \<and>
     (\<forall>(t, s) \<in> set T. \<forall>(t', s') \<in> set T. s = s' \<or> s + minute \<le> s' \<or> s' + minute \<le> s) \<and>
     (\<forall>(t, s) \<in> set T. case w0 of Some w \<Rightarrow> s = rw_start w \<or> rw_start w + minute \<le> s | None \<Rightarrow> t0 \<le> s)"

definition win_ok :: "int \<Rightarrow> time \<Rightarrow> rlWindow option \<Rightarrow> bool" where
  "win_ok L t0 w0 \<longleftrightarrow> (case w0 of Some w \<Rightarrow> rw_start w \<le> t0 \<and> 0 \<le> rw_count w \<and> rw_count w \<le> L | None \<Rightarrow> True)"

lemma map_of_sweep:
  "distinct (keys_of ws) \<Longrightarrow> map_of (rl_sweep t ws) k =
     (case map_of ws k of None \<Rightarrow> None | Some win \<Rightarrow> if t - rw_start win > 5 * minute then None else Some win)"
  unfolding rl_sweep_def by (subst map_of_filter_value) (auto split: option.splits)

lemma in_start_simps [simp]:
  "in_start s [] = 0" "in_start s ((t, x) # T) = (if x = s then Suc (in_start s T) else in_start s T)"
  by (simp_all add: in_start_def)

lemma in_start_0: "(\<And>t. (t, s) \<notin> set T) \<Longrightarrow> in_start s T = 0"
  by (auto simp: in_start_def filter_empty_conv)

lemma rl_ok_cnt:
  "rl_ok L t0 (Some w) T \<Longrightarrow> int (in_start s T) + (if rw_start w = s then rw_count w else 0) \<le> L"
  by (simp add: rl_ok_def)

text \<open>A window opened at \<open>t\<close>, when the previous one is a minute old.\<close>

lemma rl_ok_open:
  assumes ok: "rl_ok L t (Some \<lparr>rw_start = t, rw_count = 1\<rparr>) T" and w: "win_ok L t0 w0" and t: "t0 \<le> t"
    and old: "case w0 of Some w \<Rightarrow> rw_start w + minute \<le> t | None \<Rightarrow> True"
  shows "rl_ok L t0 w0 ((t, t) # T)"
proof -
  have ge: "s = t \<or> t + minute \<le> s" if "(u, s) \<in> set T" for u s
    using ok that by (fastforce simp: rl_ok_def)
  have cnt: "int (in_start s T) + (if t = s then 1 else 0) \<le> L" for s
    using rl_ok_cnt [OF ok, of s] by (simp split: if_splits)
  have z: "in_start (rw_start w) T = 0" if "w0 = Some w" for w
    using ge old that by (intro in_start_0) (fastforce simp: duration_defs)
  have "int (in_start s ((t, t) # T)) + (case w0 of Some w \<Rightarrow> if rw_start w = s then rw_count w else 0 | None \<Rightarrow> 0) \<le> L" for s
  proof (cases w0)
    case (Some w)
    show ?thesis
    proof (cases "rw_start w = s")
      case True
      with Some old have "s \<noteq> t" by (auto simp: duration_defs)
      with True Some z w show ?thesis by (simp add: win_ok_def)
    next
      case False
      with Some cnt [of s] show ?thesis by (auto split: if_splits)
    qed
  qed (use cnt [of s] in \<open>auto split: if_splits\<close>)
  moreover have "\<forall>(u, s) \<in> set ((t, t) # T). case w0 of Some w \<Rightarrow> s = rw_start w \<or> rw_start w + minute \<le> s | None \<Rightarrow> t0 \<le> s"
    using ge old t by (auto split: option.splits) (auto simp: duration_defs dest!: ge)
  moreover have "\<forall>(u, s) \<in> set ((t, t) # T). s \<le> u \<and> u < s + minute"
    using ok by (auto simp: rl_ok_def)
  moreover have "\<forall>(u, s) \<in> set ((t, t) # T). \<forall>(u', s') \<in> set ((t, t) # T). s = s' \<or> s + minute \<le> s' \<or> s' + minute \<le> s"
    using ok ge by (fastforce simp: rl_ok_def)
  ultimately show ?thesis unfolding rl_ok_def by blast
qed

lemma rl_ok_count:
  assumes ok: "rl_ok L t (Some (w\<lparr>rw_count := rw_count w + 1\<rparr>)) T" and "rw_start w \<le> t" and "t < rw_start w + minute"
  shows "rl_ok L t0 (Some w) ((t, rw_start w) # T)"
proof -
  have sep: "\<forall>(u, s) \<in> set T. s = rw_start w \<or> rw_start w + minute \<le> s"
    using ok by (auto simp: rl_ok_def)
  have cnt: "int (in_start s T) + (if rw_start w = s then rw_count w + 1 else 0) \<le> L" for s
    using rl_ok_cnt [OF ok, of s] by (simp split: if_splits)
  have "int (in_start s ((t, rw_start w) # T)) + (if rw_start w = s then rw_count w else 0) \<le> L" for s
    using cnt [of s] by auto
  with ok sep assms(2,3) show ?thesis unfolding rl_ok_def by (fastforce split: if_splits)
qed

lemma rl_ok_later: "rl_ok L t w T \<Longrightarrow> t0 \<le> t \<Longrightarrow> rl_ok L t0 w T"
  unfolding rl_ok_def by (auto split: option.splits)

lemma rl_ok_swept:
  assumes "rl_ok L t None T" and "win_ok L t0 (Some w)" and "t - rw_start w > 5 * minute"
  shows "rl_ok L t0 (Some w) T"
proof -
  have ge: "t \<le> s" if "(u, s) \<in> set T" for u s using assms(1) that by (fastforce simp: rl_ok_def)
  have z: "in_start (rw_start w) T = 0"
    using ge assms(3) by (intro in_start_0) (fastforce simp: duration_defs)
  have "int (in_start s T) + (if rw_start w = s then rw_count w else 0) \<le> L" for s
    using assms(1,2) z by (cases "rw_start w = s") (auto simp: rl_ok_def win_ok_def)
  moreover have "\<forall>(u, s) \<in> set T. s = rw_start w \<or> rw_start w + minute \<le> s"
    using assms(3) by (auto simp: duration_defs dest!: ge)
  ultimately show ?thesis using assms(1) by (auto simp: rl_ok_def split: if_splits)
qed

lemma rl_run_ok:
  "1 \<le> L \<Longrightarrow> distinct (keys_of ws) \<Longrightarrow> win_ok L t0 (map_of ws k) \<Longrightarrow> sorted (t0 # rl_times es) \<Longrightarrow>
   \<forall>t l. Call t k l \<in> set es \<longrightarrow> l = L \<Longrightarrow> rl_ok L t0 (map_of ws k) (rl_run k es ws)"
proof (induction es arbitrary: ws t0)
  case Nil
  then show ?case by (cases "map_of ws k") (auto simp: rl_ok_def win_ok_def)
next
  case (Cons e es)
  show ?case
  proof (cases e)
    case (Sweep t)
    have t: "t0 \<le> t" "sorted (t # rl_times es)" using Cons.prems Sweep by auto
    have d: "distinct (keys_of (rl_sweep t ws))" using Cons.prems by (simp add: rl_sweep_def distinct_map_filter)
    have "win_ok L t (map_of (rl_sweep t ws) k)"
      using Cons.prems t by (cases "map_of ws k") (auto simp: win_ok_def map_of_sweep)
    from Cons.IH [OF _ d this t(2)] Cons.prems
    have IH: "rl_ok L t (map_of (rl_sweep t ws) k) (rl_run k es (rl_sweep t ws))" by auto
    show ?thesis
    proof (cases "map_of ws k")
      case (Some w)
      have sw: "map_of (rl_sweep t ws) k = (if t - rw_start w > 5 * minute then None else Some w)"
        using map_of_sweep [OF Cons.prems(2), of t k] Some by simp
      have "rl_ok L t0 (Some w) (rl_run k es (rl_sweep t ws))"
      proof (cases "t - rw_start w > 5 * minute")
        case True
        with sw IH have "rl_ok L t None (rl_run k es (rl_sweep t ws))" by simp
        then show ?thesis using Cons.prems(3) Some True by (intro rl_ok_swept) simp_all
      next
        case False
        with sw IH have "rl_ok L t (Some w) (rl_run k es (rl_sweep t ws))" by simp
        then show ?thesis using t(1) by (rule rl_ok_later)
      qed
      with Some Sweep show ?thesis by simp
    next
      case None
      then have "map_of (rl_sweep t ws) k = None" using map_of_sweep [OF Cons.prems(2), of t k] by simp
      with IH rl_ok_later [OF _ t(1)] None Sweep show ?thesis by simp
    qed
  next
    case (Call t k' l)
    have t: "t0 \<le> t" "sorted (t # rl_times es)" using Cons.prems Call by auto
    obtain ok ws' where st: "rl_allow t k' l ws = (ok, ws')" by fastforce
    have d: "distinct (keys_of ws')"
      using st Cons.prems by (auto simp: rl_allow_def split: if_splits option.splits)
    note IH = Cons.IH [OF _ d _ t(2)]
    show ?thesis
    proof (cases "k' = k")
      case False
      then have "map_of ws' k = map_of ws k"
        using st by (auto simp: rl_allow_def split: if_splits option.splits)
      moreover have "win_ok L t (map_of ws k)" using Cons.prems t by (cases "map_of ws k") (auto simp: win_ok_def)
      ultimately show ?thesis using IH Cons.prems False Call st t rl_ok_later by auto
    next
      case True
      then have l: "l = L" using Cons.prems Call by auto
      consider (opened) "ok" "map_of ws' k = Some \<lparr>rw_start = t, rw_count = 1\<rparr>"
          "case map_of ws k of Some w \<Rightarrow> rw_start w + minute \<le> t | None \<Rightarrow> True"
        | (counted) w where "ok" "map_of ws k = Some w" "map_of ws' k = Some (w\<lparr>rw_count := rw_count w + 1\<rparr>)"
            "t < rw_start w + minute" "rw_count w < L"
        | (refused) "\<not> ok" "ws' = ws"
        using st True l Cons.prems(1) by (auto simp: rl_allow_def split: if_splits option.splits)
      then show ?thesis
      proof cases
        case opened
        then have "win_ok L t (map_of ws' k)" using Cons.prems(1) by (simp add: win_ok_def)
        from IH [OF Cons.prems(1) this] Cons.prems Call
        have "rl_ok L t (Some \<lparr>rw_start = t, rw_count = 1\<rparr>) (rl_run k es ws')" using opened by auto
        from rl_ok_open [OF this Cons.prems(3) t(1) opened(3)] show ?thesis
          using Call True st opened by simp
      next
        case (counted w)
        have w: "rw_start w \<le> t0" "0 \<le> rw_count w" using Cons.prems(3) counted by (auto simp: win_ok_def)
        then have "win_ok L t (map_of ws' k)" using counted t by (simp add: win_ok_def)
        from IH [OF Cons.prems(1) this] Cons.prems Call
        have "rl_ok L t (Some (w\<lparr>rw_count := rw_count w + 1\<rparr>)) (rl_run k es ws')" using counted by auto
        from rl_ok_count [OF this] show ?thesis
          using Call True st counted w t by simp
      next
        case refused
        have "win_ok L t (map_of ws k)" using Cons.prems t by (cases "map_of ws k") (auto simp: win_ok_def)
        from IH [unfolded refused(2), OF Cons.prems(1) this] Cons.prems Call
        have "rl_ok L t (map_of ws k) (rl_run k es ws)" by auto
        with refused Call True st t rl_ok_later show ?thesis by simp
      qed
    qed
  qed
qed

lemma two_starts:
  assumes ok: "rl_ok L t0 None T"
  shows "\<exists>s1 s2. \<forall>(t, s) \<in> set T. a \<le> t \<and> t < a + minute \<longrightarrow> s = s1 \<or> s = s2"
proof -
  define S where "S = {s. \<exists>t. (t, s) \<in> set T \<and> a \<le> t \<and> t < a + minute}"
  have "S \<subseteq> snd ` set T" by (force simp: S_def)
  then have fin: "finite S" by (rule finite_subset) simp
  have rng: "a - minute < s" "s < a + minute" if "s \<in> S" for s
    using that ok by (fastforce simp: S_def rl_ok_def)+
  have sep: "s = s' \<or> s + minute \<le> s' \<or> s' + minute \<le> s" if "s \<in> S" "s' \<in> S" for s s'
    using that ok by (fastforce simp: S_def rl_ok_def)
  show ?thesis
  proof (cases "S = {}")
    case False
    define s1 where "s1 = Min S"
    have s1: "s1 \<in> S" "\<And>s. s \<in> S \<Longrightarrow> s1 \<le> s" using fin False by (simp_all add: s1_def)
    have "\<exists>s2. \<forall>s \<in> S. s = s1 \<or> s = s2"
    proof (cases "S = {s1}")
      case False
      then obtain s2 where s2: "s2 \<in> S" "s2 \<noteq> s1" using s1 by blast
      have "s = s1 \<or> s = s2" if "s \<in> S" for s
        using sep [OF that s1(1)] sep [OF that s2(1)] sep [OF s2(1) s1(1)] s1(2) [OF that] s1(2) [OF s2(1)] s2(2)
          rng [OF that] rng [OF s1(1)] rng [OF s2(1)] by (auto simp: duration_defs)
      then show ?thesis by blast
    qed blast
    then show ?thesis unfolding S_def by blast
  qed (auto simp: S_def)
qed

lemma filter_two:
  "\<forall>x \<in> set xs. P x \<longrightarrow> Q x \<or> R x \<Longrightarrow> length (filter P xs) \<le> length (filter Q xs) + length (filter R xs)"
  by (induction xs) auto


theorem login_limit_witness:
  "length (in_window 0 loginWindow (snd (login_run ''a'' (map (\<lambda>i. Attempt i ''a'') [0..19]) ([], [])))) \<le> 10"
proof -
  have "login_times (map (\<lambda>i. Attempt i ''a'') xs) = xs" for xs by (induction xs) auto
  then show ?thesis by (intro login_limit) auto
qed


subsection \<open>Revocation\<close>

text \<open>
  The calls that use the key cache, after the key's row has been disabled or deleted at time
  \<open>t0\<close>: authentications and purges.
\<close>

datatype key_event = Auth world request | Purge

fun key_run :: "(string \<Rightarrow> string) \<Rightarrow> key_event list \<Rightarrow> gateway \<Rightarrow> gateway" where
  "key_run sha [] g = g"
| "key_run sha (Auth w r # es) g = key_run sha es (snd (authenticate sha w r g))"
| "key_run sha (Purge # es) g = key_run sha es (cache_purge g)"

definition revoked_inv :: "(string \<Rightarrow> string) \<Rightarrow> time \<Rightarrow> string \<Rightarrow> gateway \<Rightarrow> bool" where
  "revoked_inv sha t0 secret g \<longleftrightarrow>
     (\<forall>io. LookupKey sha io secret (g_db g) = Inl ErrKeyNotFound) \<and>
     (\<forall>e. map_of (g_keys g) secret = Some e \<longrightarrow> ck_at e \<le> t0 \<or> \<not> ck_ok e)"

lemma map_of_cache_put:
  "map_of (cache_put now s k ok m) s' =
     (if s' = s then Some \<lparr>ck_key = k, ck_at = now, ck_ok = ok\<rparr> else if length m > 10000 then None else map_of m s')"
  by (simp add: cache_put_def Let_def)

lemma authenticate_db: "g_db (snd (authenticate sha w r g)) = g_db g"
  by (auto simp: authenticate_def reject_def Let_def split: option.splits sum.splits bool.splits)

lemma authenticate_keys:
  "g_keys (snd (authenticate sha w r g)) =
     (let secret = ExtractBearer (rq_Authorization r)
      in if secret = [] \<or> cache_get (w_now w) secret (g_keys g) \<noteq> None then g_keys g
         else case LookupKey sha (w_io w) secret (g_db g) of
           Inl _ \<Rightarrow> cache_put (w_now w) secret None False (g_keys g)
         | Inr k \<Rightarrow> cache_put (w_now w) secret (Some k) True (g_keys g))"
  by (auto simp: authenticate_def reject_def Let_def split: option.splits sum.splits bool.splits)

lemma revoked_auth: "revoked_inv sha t0 secret g \<Longrightarrow> revoked_inv sha t0 secret (snd (authenticate sha w r g))"
  by (auto simp: revoked_inv_def authenticate_db authenticate_keys map_of_cache_put Let_def
      split: if_splits sum.splits)

lemma revoked_run: "revoked_inv sha t0 secret g \<Longrightarrow> revoked_inv sha t0 secret (key_run sha es g)"
proof (induction es arbitrary: g)
  case (Cons e es)
  have "revoked_inv sha t0 secret (cache_purge g)"
    using Cons.prems by (simp add: revoked_inv_def cache_purge_def)
  with Cons show ?case by (cases e) (auto simp: revoked_auth)
qed simp

lemma revoked_refused:
  assumes "revoked_inv sha t0 secret g" and "ExtractBearer (rq_Authorization r) = secret" and "t0 + 30 * second < w_now w"
  shows "\<exists>resp. fst (authenticate sha w r g) = Inl resp \<and> rs_status resp = 401"
proof (cases "map_of (g_keys g) secret")
  case None
  with assms show ?thesis
    by (auto simp: authenticate_def reject_def writeError_def cache_get_def revoked_inv_def Let_def)
next
  case (Some e)
  with assms(1) have "ck_at e \<le> t0 \<or> \<not> ck_ok e" by (auto simp: revoked_inv_def)
  with Some assms show ?thesis
    by (auto simp: authenticate_def reject_def writeError_def cache_get_def revoked_inv_def keyCacheTTL_def Let_def)
qed

text \<open>
  C9: once a key has been disabled or deleted, its secret stops working within the cache
  lifetime of thirty seconds on every later request, whatever requests have been made with it
  or with other keys in the meantime.
\<close>

theorem revocation_lag:
  assumes "\<forall>io. LookupKey sha io secret (g_db g) = Inl ErrKeyNotFound"
    and "\<forall>e. map_of (g_keys g) secret = Some e \<longrightarrow> ck_at e \<le> revoked_at"
    and "ExtractBearer (rq_Authorization r) = secret" and "revoked_at + 30 * second < w_now w"
  shows "\<exists>resp. fst (authenticate sha w r (key_run sha es g)) = Inl resp \<and> rs_status resp = 401"
proof -
  have "revoked_inv sha revoked_at secret (key_run sha es g)"
    using assms(1,2) by (intro revoked_run) (auto simp: revoked_inv_def)
  then show ?thesis by (rule revoked_refused [OF _ assms(3,4)])
qed

subsection \<open>Accounts are separated\<close>

definition foreign_keys :: "AdminUser \<Rightarrow> gateway \<Rightarrow> key_row list" where
  "foreign_keys u g = filter (\<lambda>r. kr_user_id r \<noteq> u_ID u) (db_keys (g_db g))"

lemma filter_owned_out:
  "\<forall>r \<in> set xs. kr_id r = i \<longrightarrow> \<not> P r \<Longrightarrow> filter P (filter (\<lambda>r. kr_id r \<noteq> i) xs) = filter P xs"
  by (auto simp: filter_filter intro: filter_cong)

lemma KeyOwner_Inr:
  "keys_ok (db_keys d) n \<Longrightarrow> KeyOwner i d = Inr u \<Longrightarrow> r \<in> set (db_keys d) \<Longrightarrow> kr_id r = i \<Longrightarrow> kr_user_id r = u"
proof -
  assume ok: "keys_ok (db_keys d) n" and o: "KeyOwner i d = Inr u" and r: "r \<in> set (db_keys d)" "kr_id r = i"
  from o obtain x where x: "find (\<lambda>r. kr_id r = i) (db_keys d) = Some x" "kr_user_id x = u"
    by (auto simp: KeyOwner_def split: option.splits)
  from find_SomeD [OF x(1)] r ok have "x = r" by (auto simp: keys_ok_def distinct_map dest: inj_onD)
  with x show "kr_user_id r = u" by simp
qed

text \<open>
  C13: a signed-in customer can neither see nor touch another account's keys: creating, listing
  and deleting keys leave the rows of every other account as they are, a listing shows only
  the customer's own keys, and an account never gets more than ten.
\<close>

theorem keys_separated:
  assumes "db_inv (g_db g)"
    and "(resp, g') = userListKeys w r u g \<or> (resp, g') = userCreateKey sha w r u g \<or> (resp, g') = userDeleteKey w r u g"
  shows "foreign_keys u g' = foreign_keys u g \<and>
    (\<forall>ks. rs_body resp = PKeys ks \<longrightarrow> (\<forall>k \<in> set ks. k_UserID k = u_ID u)) \<and>
    (length (ListKeysFor (u_ID u) (g_db g)) \<le> 10 \<longrightarrow> length (ListKeysFor (u_ID u) (g_db g')) \<le> 10)"
proof -
  have len: "length (ListKeysFor i d) = length (filter (\<lambda>r. kr_user_id r = i) (db_keys d))" for i d
    by (simp add: ListKeysFor_def listKeys_def)
  consider "(resp, g') = userListKeys w r u g" | "(resp, g') = userCreateKey sha w r u g" | "(resp, g') = userDeleteKey w r u g"
    using assms(2) by blast
  then show ?thesis
  proof cases
    case 1
    then show ?thesis
      by (auto simp: userListKeys_def writeJSON_def writeError_def ListKeysFor_def listKeys_def split: if_splits)
  next
    case 2
    then show ?thesis
      by (auto simp: userCreateKey_def CreateKeyFor_def writeJSON_def writeError_def len foreign_keys_def Let_def
          split: if_splits option.splits sum.splits prod.splits)
  next
    case 3
    let ?i = "fst (Atoi (rq_path_id r))"
    have "filter (\<lambda>x. kr_user_id x \<noteq> u_ID u) (filter (\<lambda>x. kr_id x \<noteq> ?i) (db_keys (g_db g))) =
        filter (\<lambda>x. kr_user_id x \<noteq> u_ID u) (db_keys (g_db g))" if "KeyOwner ?i (g_db g) = Inr (u_ID u)"
      using KeyOwner_Inr [OF _ that] assms(1) by (intro filter_owned_out) (auto simp: db_inv_def)
    moreover have "length (filter (\<lambda>x. kr_id x \<noteq> i \<and> kr_user_id x = u_ID u) ks) \<le>
        length (filter (\<lambda>x. kr_user_id x = u_ID u) ks)" for i ks
      by (induction ks) auto
    ultimately show ?thesis using 3
      by (auto simp: userDeleteKey_def writeJSON_def writeError_def cache_purge_def DeleteKey_def len foreign_keys_def
          split: if_splits sum.splits prod.splits intro: order_trans)
  qed
qed

subsection \<open>The admin guard\<close>

text \<open>
  The admin surface opens exactly for a live session of any account, or for the configured
  token; nobody else passes, and the refusal names the missing configuration only when there is
  neither a token nor an operator account. The role of the session's account is not consulted.
\<close>

theorem requireAdmin_exact:
  "(requireAdmin sha w r g = None \<longleftrightarrow>
      (w_io w \<and> cookie r sessionCookie \<noteq> [] \<and>
       (\<exists>u. LookupSession sha (unix (w_now w)) (cookie r sessionCookie) (g_db g) = Inr u)) \<or>
      (g_AdminToken g \<noteq> [] \<and> ExtractBearer (rq_Authorization r) = g_AdminToken g)) \<and>
   (\<forall>resp. requireAdmin sha w r g = Some resp \<longrightarrow>
      rs_status resp = (if g_AdminToken g = [] \<and> \<not> (w_io w \<and> CountAdminUsers (g_db g) > 0) then 403 else 401))"
  by (auto simp: requireAdmin_def sessionUser_def hasAdminUsers_def writeError_def Let_def
      split: option.splits sum.splits if_splits)

theorem requireAdmin_exact_witness:
  "requireAdmin toy_sha \<lparr>w_now = 0, w_io = True, w_io2 = True, w_dberr = [], w_rand = None\<rparr>
     \<lparr>rq_Authorization = ''Bearer token'', rq_CFConnectingIP = [], rq_XForwardedFor = [], rq_XForwardedProto = [],
      rq_TLS = False, rq_RemoteAddr = [], rq_cookies = [], rq_email = [], rq_password = [], rq_new_password = [],
      rq_name = [], rq_path_id = [], rq_RequestID = []\<rparr>
     \<lparr>g_db = empty_db, g_keys = [], g_windows = [], g_logins = [], g_log = log_init, g_AdminToken = ''token''\<rparr> = None"
proof -
  have "ExtractBearer ''Bearer token'' = ''token''" by code_simp
  then show ?thesis
    using requireAdmin_exact [of toy_sha "\<lparr>w_now = 0, w_io = True, w_io2 = True, w_dberr = [], w_rand = None\<rparr>"] by simp
qed

definition plain_request :: request where
  "plain_request = \<lparr>rq_Authorization = [], rq_CFConnectingIP = [], rq_XForwardedFor = [], rq_XForwardedProto = [],
      rq_TLS = False, rq_RemoteAddr = ''10.0.0.1:9'', rq_cookies = [], rq_email = [], rq_password = [],
      rq_new_password = [], rq_name = [], rq_path_id = [], rq_RequestID = []\<rparr>"

definition plain_gateway :: "db \<Rightarrow> gateway" where
  "plain_gateway d = \<lparr>g_db = d, g_keys = [], g_windows = [], g_logins = [], g_log = log_init, g_AdminToken = []\<rparr>"

text \<open>
  C15: the admin sign-in hands a customer an operator session: for an enabled account of role
  user with the right password, an admin login that is not throttled and whose session insert
  succeeds sets the admin cookie, and with that cookie the account passes the admin guard until
  the session expires.
\<close>

theorem customer_reaches_admin:
  assumes "db_inv (g_db g)" and "u \<in> set (db_users (g_db g))" and "ur_role u = RoleUser" and "\<not> ur_disabled u"
    and "ur_email u = NormalizeEmail (rq_email r)" and "verifyPassword kdf (ur_password_hash u) (rq_password r)"
    and "adminLogin sha kdf w r g = (resp, g')" and "rs_status resp = 200"
  shows "\<exists>token. rs_cookie resp = Some (sessionCookie, token, isHTTPS r, SessionTTL) \<and>
    (\<forall>w' r'. token \<noteq> [] \<and> w_io w' \<and> cookie r' sessionCookie = token \<and> unix (w_now w') < unix (w_now w) + SessionTTL \<longrightarrow>
       requireAdmin sha w' r' g' = None)"
proof -
  have dm: "distinct (map ur_email (db_users (g_db g)))" using assms(1) by (simp add: db_inv_def users_ok_def)
  have f: "find (\<lambda>x. ur_email x = NormalizeEmail (rq_email r)) (db_users (g_db g)) = Some u"
  proof -
    obtain x where x: "find (\<lambda>x. ur_email x = NormalizeEmail (rq_email r)) (db_users (g_db g)) = Some x"
      using assms(2,5) by (metis (mono_tags) find_None_iff not_Some_eq)
    with find_SomeD [OF x] assms(2,5) dm show ?thesis by (metis distinct_map inj_onD)
  qed
  define d1 where "d1 = snd (VerifyAdminLogin kdf (w_io w) (w_io2 w) (unix (w_now w)) (rq_email r) (rq_password r) (g_db g))"
  have io: "w_io w"
  proof (rule ccontr)
    assume "\<not> w_io w"
    with assms(7,8) show False
      by (auto simp: adminLogin_def sign_in_def VerifyAdminLogin_def bad_login_def writeError_def Let_def
          split: prod.splits if_splits)
  qed
  have ver: "VerifyAdminLogin kdf (w_io w) (w_io2 w) (unix (w_now w)) (rq_email r) (rq_password r) (g_db g) =
      (Inr ((user_of_row u)\<lparr>u_LastLogin := unix (w_now w)\<rparr>), d1)"
    using f io assms(4,6) by (simp add: VerifyAdminLogin_def d1_def)
  have inv1: "db_inv d1" unfolding d1_def by (rule db_inv_step [OF db_step.login assms(1)])
  define u' where "u' = (if w_io2 w then u\<lparr>ur_last_login := unix (w_now w)\<rparr> else u)"
  have u1: "u' \<in> set (db_users d1)"
    using f io assms(2,4,6) by (auto simp: VerifyAdminLogin_def d1_def u'_def intro: rev_image_eqI)
  have id1: "ur_id u' = ur_id u" and dis1: "\<not> ur_disabled u'" using assms(4) by (simp_all add: u'_def)
  obtain token d2 where cs: "CreateSession sha (w_io w) (w_rand w) (unix (w_now w)) (ur_id u) d1 = (Inr token, d2)"
      and resp: "rs_cookie resp = Some (sessionCookie, token, isHTTPS r, SessionTTL)" and g': "g_db g' = d2"
    using assms(7,8) ver
    by (auto simp: adminLogin_def sign_in_def startSession_def start_session_def writeError_def writeJSON_def user_of_row_def Let_def
        split: prod.splits if_splits sum.splits)
  have "requireAdmin sha w' r' g' = None"
    if "token \<noteq> []" "w_io w'" "cookie r' sessionCookie = token" "unix (w_now w') < unix (w_now w) + SessionTTL" for w' r'
    using session_valid [OF inv1 u1, unfolded id1, OF cs, of "unix (w_now w')"] that dis1 g'
    by (simp add: requireAdmin_def sessionUser_def)
  with resp show ?thesis by blast
qed

subsection \<open>Concrete gateways\<close>

definition revoked_gateway :: gateway where
  "revoked_gateway = (plain_gateway empty_db)\<lparr>g_keys := [(''k'', \<lparr>ck_key = Some \<lparr>k_ID = 1, k_Name = [], k_Prefix = [],
     k_CreatedAt = 0, k_Disabled = False, k_RPMLimit = 0, k_UserID = 0\<rparr>, ck_at = 5, ck_ok = True\<rparr>)]\<rparr>"

definition bearer_request :: request where
  "bearer_request = plain_request\<lparr>rq_Authorization := ''Bearer k''\<rparr>"

theorem revocation_lag_witness:
  "\<exists>resp. fst (authenticate toy_sha \<lparr>w_now = 6 + 30 * second, w_io = True, w_io2 = True, w_dberr = [], w_rand = None\<rparr> bearer_request
      (key_run toy_sha [Auth \<lparr>w_now = 7, w_io = True, w_io2 = True, w_dberr = [], w_rand = None\<rparr> bearer_request] revoked_gateway)) = Inl resp \<and>
    rs_status resp = 401"
proof (rule revocation_lag [where revoked_at = 5 and secret = "''k''"])
  show "ExtractBearer (rq_Authorization bearer_request) = ''k''" by code_simp
qed (simp_all add: revoked_gateway_def plain_gateway_def empty_db_def LookupKey_def)

definition sample_customer :: AdminUser where
  "sample_customer = \<lparr>u_ID = 1, u_Email = ''ops@example.com'', u_CreatedAt = 0, u_LastLogin = 0, u_Role = RoleUser, u_Disabled = False\<rparr>"

theorem keys_separated_witness:
  "foreign_keys sample_customer (snd (userCreateKey toy_sha \<lparr>w_now = 0, w_io = True, w_io2 = True, w_dberr = [], w_rand = Some ''x''\<rparr> plain_request
      sample_customer (plain_gateway key_db))) = foreign_keys sample_customer (plain_gateway key_db)"
proof -
  let ?w = "\<lparr>w_now = 0, w_io = True, w_io2 = True, w_dberr = [], w_rand = Some ''x''\<rparr>"
  have inv: "db_inv (g_db (plain_gateway key_db))"
    using db_inv_CreateKeyFor [OF db_inv_one_user] by (simp add: plain_gateway_def key_db_def)
  show ?thesis
    using keys_separated [OF inv, where w = ?w and r = plain_request and u = sample_customer and sha = toy_sha
        and resp = "fst (userCreateKey toy_sha ?w plain_request sample_customer (plain_gateway key_db))"
        and g' = "snd (userCreateKey toy_sha ?w plain_request sample_customer (plain_gateway key_db))"] by simp
qed

definition login_request :: request where
  "login_request = plain_request\<lparr>rq_email := ''Ops@example.com'', rq_password := ''correct horse''\<rparr>"

definition login_world :: world where
  "login_world = \<lparr>w_now = 0, w_io = True, w_io2 = True, w_dberr = [], w_rand = Some ''token''\<rparr>"

theorem customer_reaches_admin_witness:
  "requireAdmin toy_sha login_world (plain_request\<lparr>rq_cookies := [(sessionCookie, ops_token)]\<rparr>)
     (snd (adminLogin toy_sha toy_kdf login_world login_request (plain_gateway one_customer_db))) = None"
proof -
  let ?g = "plain_gateway one_customer_db"
  let ?u = "\<lparr>ur_id = 1, ur_email = ''ops@example.com'', ur_password_hash = ops_hash,
     ur_created_at = 1000, ur_last_login = 0, ur_role = RoleUser, ur_disabled = False\<rparr>"
  have inv: "db_inv (g_db ?g)"
    unfolding plain_gateway_def one_customer_db_def CreateUser_def using db_inv_createAccount [OF db_inv_empty] by simp
  have ok: "rs_status (fst (adminLogin toy_sha toy_kdf login_world login_request ?g)) = 200"
    and tok: "rs_cookie (fst (adminLogin toy_sha toy_kdf login_world login_request ?g)) =
        Some (sessionCookie, ops_token, isHTTPS login_request, SessionTTL)"
    by (simp_all add: adminLogin_def sign_in_def startSession_def start_session_def login_request_def login_world_def
        plain_gateway_def one_customer_eq empty_db_def login_allow_def loginMaxTries_def VerifyAdminLogin_def ops_email
        ops_verifies CreateSession_def user_of_row_def writeJSON_def ops_token_def Let_def)
  have m: "?u \<in> set (db_users (g_db ?g))" by (simp add: plain_gateway_def one_customer_eq)
  have e: "ur_email ?u = NormalizeEmail (rq_email login_request)" by (simp add: login_request_def ops_email)
  have v: "verifyPassword toy_kdf (ur_password_hash ?u) (rq_password login_request)"
    by (simp add: login_request_def ops_verifies)
  note customer_reaches_admin [OF inv m _ _ e v surjective_pairing ok]
  then show ?thesis
    using tok ops_token_nonempty by (auto simp: cookie_def login_world_def SessionTTL_def)
qed

end
