(* ===== verification/Go_Json.thy ===== *)
theory Go_Json
  imports Go_Encoding "HOL-Library.List_Lexorder" "HOL-Library.Char_ord"
begin

text \<open>
  The part of \<^verbatim>\<open>encoding/json\<close> the program uses. A document is a tree whose numbers, strings and
  object keys keep their literal text, as \<^verbatim>\<open>json.RawMessage\<close> does; \<open>unquote\<close> decodes a string literal
  and \<open>quote_go\<close> encodes a Go string the way \<^verbatim>\<open>json.Marshal\<close> does, HTML characters escaped. The
  parser is driven by fuel; \<open>Unmarshal\<close> supplies more than the length of the text can use
  (\<open>value_fuel\<close>). The limit of ten thousand nested values is not represented.
\<close>

datatype json =
    JNull
  | JBool bool
  | JNum bytes
  | JStr bytes
  | JArr "json list"
  | JObj "(bytes \<times> json) list"

abbreviation quote :: char where "quote \<equiv> CHR 0x22"
abbreviation backslash :: char where "backslash \<equiv> CHR 0x5C"

subsection \<open>Scanning\<close>

definition is_ws :: "char \<Rightarrow> bool" where
  "is_ws c \<longleftrightarrow> c \<in> {CHR 0x20, CHR 0x09, CHR 0x0D, CHR 0x0A}"

definition skip_ws :: "bytes \<Rightarrow> bytes" where
  "skip_ws s = dropWhile is_ws s"

definition hex_digit :: "char \<Rightarrow> nat option" where
  "hex_digit c =
     (let n = of_char c
      in if 48 \<le> n \<and> n \<le> 57 then Some (n - 48)
         else if 97 \<le> n \<and> n \<le> 102 then Some (n - 87)
         else if 65 \<le> n \<and> n \<le> 70 then Some (n - 55) else None)"

definition is_hex :: "char \<Rightarrow> bool" where
  "is_hex c \<longleftrightarrow> hex_digit c \<noteq> None"

definition escapes :: string where
  "escapes = ''bfnrt/'' @ [quote, backslash]"

text \<open>The text up to the closing quote, and what follows it.\<close>

fun scan_string :: "bytes \<Rightarrow> (bytes \<times> bytes) option" where
  "scan_string [] = None"
| "scan_string (c # cs) =
     (if c = quote then Some ([], cs)
      else if c = backslash then
        (case cs of
           [] \<Rightarrow> None
         | e # r \<Rightarrow>
             if e = CHR ''u'' then
               (case r of
                  h1 # h2 # h3 # h4 # r' \<Rightarrow>
                    if is_hex h1 \<and> is_hex h2 \<and> is_hex h3 \<and> is_hex h4
                    then map_option (apfst (\<lambda>t. c # e # h1 # h2 # h3 # h4 # t)) (scan_string r') else None
                | _ \<Rightarrow> None)
             else if e \<in> set escapes then map_option (apfst (\<lambda>t. c # e # t)) (scan_string r) else None)
      else if of_char c < (0x20 :: nat) then None
      else map_option (apfst (Cons c)) (scan_string cs))"

definition scan_digits :: "bytes \<Rightarrow> bytes \<times> bytes" where
  "scan_digits s = (takeWhile is_digit s, dropWhile is_digit s)"

definition scan_sign :: "string \<Rightarrow> bytes \<Rightarrow> bytes" where
  "scan_sign cs s = (case s of [] \<Rightarrow> [] | c # _ \<Rightarrow> if c \<in> set cs then [c] else [])"

definition scan_frac :: "bytes \<Rightarrow> (bytes \<times> bytes) option" where
  "scan_frac s =
     (case s of
        [] \<Rightarrow> Some ([], s)
      | c # r \<Rightarrow>
          if c = CHR ''.'' then (case scan_digits r of (ds, r') \<Rightarrow> if ds = [] then None else Some (c # ds, r'))
          else Some ([], s))"

definition scan_exp :: "bytes \<Rightarrow> (bytes \<times> bytes) option" where
  "scan_exp s =
     (case s of
        e # r \<Rightarrow>
          if e = CHR ''e'' \<or> e = CHR ''E'' then
            let sg = scan_sign ''+-'' r;
                (ds, r') = scan_digits (drop (length sg) r)
            in if ds = [] then None else Some (e # sg @ ds, r')
          else Some ([], s)
      | [] \<Rightarrow> Some ([], s))"

definition scan_number :: "bytes \<Rightarrow> (bytes \<times> bytes) option" where
  "scan_number s =
     (let sg = scan_sign ''-'' s;
          (ip, r1) = scan_digits (drop (length sg) s)
      in if ip = [] \<or> (hd ip = CHR ''0'' \<and> 1 < length ip) then None
         else case scan_frac r1 of
           None \<Rightarrow> None
         | Some (fp, r2) \<Rightarrow>
             (case scan_exp r2 of None \<Rightarrow> None | Some (ex, r3) \<Rightarrow> Some (sg @ ip @ fp @ ex, r3)))"

fun strip :: "bytes \<Rightarrow> bytes \<Rightarrow> bytes option" where
  "strip [] s = Some s"
| "strip (p # ps) (c # cs) = (if c = p then strip ps cs else None)"
| "strip (p # ps) [] = None"

fun scan_lit :: "(bytes \<times> json) list \<Rightarrow> bytes \<Rightarrow> (json \<times> bytes) option" where
  "scan_lit [] s = None"
| "scan_lit ((w, v) # ws) s = (case strip w s of Some r \<Rightarrow> Some (v, r) | None \<Rightarrow> scan_lit ws s)"

definition scan_atom :: "bytes \<Rightarrow> (json \<times> bytes) option" where
  "scan_atom s =
     (case scan_lit [(''null'', JNull), (''true'', JBool True), (''false'', JBool False)] s of
        Some x \<Rightarrow> Some x
      | None \<Rightarrow> map_option (apfst JNum) (scan_number s))"

definition expect :: "char \<Rightarrow> bytes \<Rightarrow> bytes option" where
  "expect c s = (case skip_ws s of [] \<Rightarrow> None | d # r \<Rightarrow> if d = c then Some r else None)"

definition scan_key :: "bytes \<Rightarrow> (bytes \<times> bytes) option" where
  "scan_key s =
     (case expect quote s of
        None \<Rightarrow> None
      | Some q \<Rightarrow>
          (case scan_string q of
             None \<Rightarrow> None
           | Some (k, r) \<Rightarrow> map_option (Pair k) (expect CHR '':'' r)))"

fun scan_value :: "nat \<Rightarrow> bytes \<Rightarrow> (json \<times> bytes) option"
and scan_elems :: "nat \<Rightarrow> bytes \<Rightarrow> (json list \<times> bytes) option"
and scan_members :: "nat \<Rightarrow> bytes \<Rightarrow> ((bytes \<times> json) list \<times> bytes) option" where
  "scan_value 0 s = None"
| "scan_value (Suc n) s =
     (case skip_ws s of
        [] \<Rightarrow> None
      | c # cs \<Rightarrow>
          if c = CHR ''{'' then
            (case expect CHR ''}'' cs of
               Some r \<Rightarrow> Some (JObj [], r)
             | None \<Rightarrow> map_option (apfst JObj) (scan_members n cs))
          else if c = CHR ''['' then
            (case expect CHR '']'' cs of
               Some r \<Rightarrow> Some (JArr [], r)
             | None \<Rightarrow> map_option (apfst JArr) (scan_elems n cs))
          else if c = quote then map_option (apfst JStr) (scan_string cs)
          else scan_atom (c # cs))"
| "scan_elems 0 s = None"
| "scan_elems (Suc n) s =
     (case scan_value n s of
        None \<Rightarrow> None
      | Some (v, r) \<Rightarrow>
          (case expect CHR '','' r of
             Some r' \<Rightarrow> map_option (apfst (Cons v)) (scan_elems n r')
           | None \<Rightarrow> map_option (Pair [v]) (expect CHR '']'' r)))"
| "scan_members 0 s = None"
| "scan_members (Suc n) s =
     (case scan_key s of
        None \<Rightarrow> None
      | Some (k, q) \<Rightarrow>
          (case scan_value n q of
             None \<Rightarrow> None
           | Some (v, r) \<Rightarrow>
               (case expect CHR '','' r of
                  Some r' \<Rightarrow> map_option (apfst (Cons (k, v))) (scan_members n r')
                | None \<Rightarrow> map_option (Pair [(k, v)]) (expect CHR ''}'' r))))"

definition Unmarshal :: "bytes \<Rightarrow> json option" where
  "Unmarshal s =
     (case scan_value (2 * length s + 2) s of
        None \<Rightarrow> None
      | Some (v, r) \<Rightarrow> if skip_ws r = [] then Some v else None)"

subsection \<open>Printing\<close>

definition quoted :: "bytes \<Rightarrow> bytes" where
  "quoted raw = quote # raw @ [quote]"

definition member_text :: "bytes \<times> bytes \<Rightarrow> bytes" where
  "member_text m = quoted (fst m) @ '':'' @ snd m"

primrec json_text :: "json \<Rightarrow> bytes" where
  "json_text JNull = ''null''"
| "json_text (JBool b) = (if b then ''true'' else ''false'')"
| "json_text (JNum l) = l"
| "json_text (JStr raw) = quoted raw"
| "json_text (JArr vs) = ''['' @ Join (map json_text vs) '','' @ '']''"
| "json_text (JObj ms) = ''{'' @ Join (map member_text (map (map_prod id json_text) ms)) '','' @ ''}''"

subsection \<open>String literals\<close>

definition utf8 :: "nat \<Rightarrow> bytes" where
  "utf8 r =
     (if r < 0x80 then [char_of r]
      else if r < 0x800 then [char_of (0xC0 + r div 64), char_of (0x80 + r mod 64)]
      else if r < 0x10000 then
        [char_of (0xE0 + r div 4096), char_of (0x80 + r div 64 mod 64), char_of (0x80 + r mod 64)]
      else [char_of (0xF0 + r div 262144), char_of (0x80 + r div 4096 mod 64),
            char_of (0x80 + r div 64 mod 64), char_of (0x80 + r mod 64)])"

definition replacement :: bytes where
  "replacement = [CHR 0xEF, CHR 0xBF, CHR 0xBD]"

fun hex4 :: "bytes \<Rightarrow> nat option" where
  "hex4 (a # b # c # d # r) =
     (case (hex_digit a, hex_digit b, hex_digit c, hex_digit d) of
        (Some x, Some y, Some z, Some w) \<Rightarrow> Some (((x * 16 + y) * 16 + z) * 16 + w)
      | _ \<Rightarrow> None)"
| "hex4 _ = None"

definition escape_value :: "char \<Rightarrow> char" where
  "escape_value e =
     (if e = CHR ''b'' then CHR 0x08 else if e = CHR ''f'' then CHR 0x0C
      else if e = CHR ''n'' then CHR 0x0A else if e = CHR ''r'' then CHR 0x0D
      else if e = CHR ''t'' then CHR 0x09 else e)"

text \<open>A low surrogate escape at the head of a literal.\<close>

definition low_surrogate :: "bytes \<Rightarrow> nat option" where
  "low_surrogate s =
     (case strip [backslash, CHR ''u''] s of
        None \<Rightarrow> None
      | Some r \<Rightarrow>
          (case hex4 r of
             None \<Rightarrow> None
           | Some l \<Rightarrow> if 0xDC00 \<le> l \<and> l < 0xE000 then Some l else None))"

function unquote :: "bytes \<Rightarrow> bytes" where
  "unquote [] = []"
| "unquote (c # cs) =
     (if c = backslash then
        (case cs of
           [] \<Rightarrow> []
         | e # r \<Rightarrow>
             if e = CHR ''u'' then
               (case hex4 r of
                  None \<Rightarrow> []
                | Some u \<Rightarrow>
                    if 0xD800 \<le> u \<and> u < 0xE000 then
                      (case low_surrogate (drop 4 r) of
                         Some l \<Rightarrow>
                           if u < 0xDC00
                           then utf8 (0x10000 + (u - 0xD800) * 1024 + (l - 0xDC00)) @ unquote (drop 10 r)
                           else replacement @ unquote (drop 4 r)
                       | None \<Rightarrow> replacement @ unquote (drop 4 r))
                    else utf8 u @ unquote (drop 4 r))
             else escape_value e # unquote r)
      else if of_char c < (128 :: nat) then c # unquote cs
      else if rune_len (c # cs) = 1 then replacement @ unquote cs
      else take (rune_len (c # cs)) (c # cs) @ unquote (drop (rune_len (c # cs)) (c # cs)))"
  by pat_completeness auto
termination
  by (relation "measure length") (auto simp: rune_len_pos)

definition hex_char :: "nat \<Rightarrow> char" where
  "hex_char n = char_of (if n < 10 then 48 + n else 87 + n)"

definition u_escape :: "nat \<Rightarrow> bytes" where
  "u_escape r = [backslash, CHR ''u'', hex_char (r div 4096 mod 16), hex_char (r div 256 mod 16),
     hex_char (r div 16 mod 16), hex_char (r mod 16)]"

definition escape_ascii :: "char \<Rightarrow> bytes" where
  "escape_ascii c =
     (if c = quote \<or> c = backslash then [backslash, c]
      else if c = CHR 0x08 then [backslash, CHR ''b''] else if c = CHR 0x0C then [backslash, CHR ''f'']
      else if c = CHR 0x0A then [backslash, CHR ''n''] else if c = CHR 0x0D then [backslash, CHR ''r'']
      else if c = CHR 0x09 then [backslash, CHR ''t'']
      else if of_char c < (0x20 :: nat) \<or> c \<in> set ''<>&'' then u_escape (of_char c)
      else [c])"

definition is_line_sep :: "bytes \<Rightarrow> bool" where
  "is_line_sep s \<longleftrightarrow> take 2 s = [CHR 0xE2, CHR 0x80] \<and> 2 < length s \<and> s ! 2 \<in> {CHR 0xA8, CHR 0xA9}"

function quote_go :: "bytes \<Rightarrow> bytes" where
  "quote_go [] = []"
| "quote_go (c # cs) =
     (if of_char c < (128 :: nat) then escape_ascii c @ quote_go cs
      else if rune_len (c # cs) = 1 then u_escape 0xFFFD @ quote_go cs
      else if is_line_sep (c # cs)
      then u_escape (if cs ! 1 = CHR 0xA8 then 0x2028 else 0x2029) @ quote_go (drop 2 cs)
      else take (rune_len (c # cs)) (c # cs) @ quote_go (drop (rune_len (c # cs)) (c # cs)))"
  by pat_completeness auto
termination
  by (relation "measure length") (auto simp: rune_len_pos)

text \<open>What \<^verbatim>\<open>json.Marshal\<close> does to the text of a \<^verbatim>\<open>RawMessage\<close>: white space goes, HTML characters are escaped.\<close>

fun escape_html :: "bytes \<Rightarrow> bytes" where
  "escape_html [] = []"
| "escape_html (c # cs) =
     (if c \<in> set ''<>&'' then u_escape (of_char c) @ escape_html cs
      else if is_line_sep (c # cs)
      then u_escape (if cs ! 1 = CHR 0xA8 then 0x2028 else 0x2029) @ escape_html (drop 2 cs)
      else c # escape_html cs)"

primrec map_literals :: "(bytes \<Rightarrow> bytes) \<Rightarrow> json \<Rightarrow> json" where
  "map_literals f JNull = JNull"
| "map_literals f (JBool b) = JBool b"
| "map_literals f (JNum l) = JNum l"
| "map_literals f (JStr raw) = JStr (f raw)"
| "map_literals f (JArr vs) = JArr (map (map_literals f) vs)"
| "map_literals f (JObj ms) = JObj (map (\<lambda>(k, v). (f k, v)) (map (map_prod id (map_literals f)) ms))"

subsection \<open>Decoding into Go values\<close>

text \<open>
  A key names a field when it equals the field's name or matches it under case folding (the
  long s and the Kelvin sign fold to ASCII letters). A struct takes its members in order; a
  \<^verbatim>\<open>null\<close> leaves a plain field as it is and resets a pointer; a value of the wrong type is an error.
\<close>

fun fold_name :: "string \<Rightarrow> string" where
  "fold_name [] = []"
| "fold_name (c # cs) =
     (if take 2 (c # cs) = [CHR 0xC5, CHR 0xBF] then CHR ''S'' # fold_name (drop 1 cs)
      else if take 3 (c # cs) = [CHR 0xE2, CHR 0x84, CHR 0xAA] then CHR ''K'' # fold_name (drop 2 cs)
      else upper_char c # fold_name cs)"

definition key_is :: "string \<Rightarrow> bytes \<Rightarrow> bool" where
  "key_is name raw \<longleftrightarrow> unquote raw = name \<or> fold_name (unquote raw) = fold_name name"

definition dec_string :: "json \<Rightarrow> string \<Rightarrow> string option" where
  "dec_string v old = (case v of JNull \<Rightarrow> Some old | JStr raw \<Rightarrow> Some (unquote raw) | _ \<Rightarrow> None)"

definition dec_bool :: "json \<Rightarrow> bool \<Rightarrow> bool option" where
  "dec_bool v old = (case v of JNull \<Rightarrow> Some old | JBool b \<Rightarrow> Some b | _ \<Rightarrow> None)"

definition dec_int :: "json \<Rightarrow> int \<Rightarrow> int option" where
  "dec_int v old =
     (case v of
        JNull \<Rightarrow> Some old
      | JNum l \<Rightarrow> (case Atoi l of (i, ok) \<Rightarrow> if ok then Some i else None)
      | _ \<Rightarrow> None)"

definition dec_ptr :: "(json \<Rightarrow> 'a \<Rightarrow> 'a option) \<Rightarrow> 'a \<Rightarrow> json \<Rightarrow> 'a option \<Rightarrow> 'a option option" where
  "dec_ptr dec zero v old =
     (if v = JNull then Some None
      else map_option Some (dec v (case old of None \<Rightarrow> zero | Some x \<Rightarrow> x)))"

fun dec_members :: "(bytes \<Rightarrow> json \<Rightarrow> 's \<Rightarrow> 's option) \<Rightarrow> (bytes \<times> json) list \<Rightarrow> 's \<Rightarrow> 's option" where
  "dec_members f [] s = Some s"
| "dec_members f ((k, v) # ms) s = (case f k v s of None \<Rightarrow> None | Some s' \<Rightarrow> dec_members f ms s')"

definition dec_struct :: "(bytes \<Rightarrow> json \<Rightarrow> 's \<Rightarrow> 's option) \<Rightarrow> json \<Rightarrow> 's \<Rightarrow> 's option" where
  "dec_struct f v s =
     (case v of JNull \<Rightarrow> Some s | JObj ms \<Rightarrow> dec_members f ms s | _ \<Rightarrow> None)"

text \<open>A Go map with string keys, filled from the members in order, and its encoding with sorted keys.\<close>

definition go_map :: "(bytes \<times> 'a) list \<Rightarrow> (string \<times> 'a) list" where
  "go_map ms = fold (\<lambda>(k, v) m. AList.update (unquote k) v m) ms []"

definition map_members :: "(string \<times> 'a) list \<Rightarrow> (bytes \<times> 'a) list" where
  "map_members m = map (\<lambda>(k, v). (quote_go k, v)) (sort_key fst m)"

text \<open>\<^verbatim>\<open>json.Marshal\<close> of a \<^verbatim>\<open>map[string]json.RawMessage\<close>.\<close>

definition Marshal_raw :: "(string \<times> json) list \<Rightarrow> bytes" where
  "Marshal_raw m = json_text (JObj (map (\<lambda>(k, v). (k, map_literals escape_html v)) (map_members m)))"

text \<open>
  Decoding into \<^verbatim>\<open>any\<close> and encoding again. Numbers pass through a \<^verbatim>\<open>float64\<close>; \<open>fmt\<close> is that round trip on
  a number's text, with no result for a number out of range, which makes the decoding fail.
\<close>

primrec any_ok :: "(bytes \<Rightarrow> bytes option) \<Rightarrow> json \<Rightarrow> bool" where
  "any_ok fmt JNull = True"
| "any_ok fmt (JBool b) = True"
| "any_ok fmt (JNum l) = (fmt l \<noteq> None)"
| "any_ok fmt (JStr raw) = True"
| "any_ok fmt (JArr vs) = list_all id (map (any_ok fmt) vs)"
| "any_ok fmt (JObj ms) = list_all snd (map (map_prod id (any_ok fmt)) ms)"

primrec any_json :: "(bytes \<Rightarrow> bytes option) \<Rightarrow> json \<Rightarrow> json" where
  "any_json fmt JNull = JNull"
| "any_json fmt (JBool b) = JBool b"
| "any_json fmt (JNum l) = JNum (case fmt l of Some t \<Rightarrow> t | None \<Rightarrow> l)"
| "any_json fmt (JStr raw) = JStr (quote_go (unquote raw))"
| "any_json fmt (JArr vs) = JArr (map (any_json fmt) vs)"
| "any_json fmt (JObj ms) = JObj (map_members (go_map (map (map_prod id (any_json fmt)) ms)))"

subsection \<open>Well-formed literals\<close>

inductive raw_ok :: "bytes \<Rightarrow> bool" where
  raw_Nil: "raw_ok []"
| raw_plain: "c \<noteq> quote \<Longrightarrow> c \<noteq> backslash \<Longrightarrow> \<not> of_char c < (0x20 :: nat) \<Longrightarrow> raw_ok s \<Longrightarrow> raw_ok (c # s)"
| raw_escape: "e \<in> set escapes \<Longrightarrow> raw_ok s \<Longrightarrow> raw_ok (backslash # e # s)"
| raw_unicode: "is_hex a \<Longrightarrow> is_hex b \<Longrightarrow> is_hex c \<Longrightarrow> is_hex d \<Longrightarrow> raw_ok s \<Longrightarrow>
    raw_ok (backslash # CHR ''u'' # a # b # c # d # s)"

lemma u_not_escape [simp]: "CHR ''u'' \<notin> set escapes"
  by (simp add: escapes_def)

lemma scan_string_raw: "raw_ok s \<Longrightarrow> scan_string (s @ quote # r) = Some (s, r)"
  by (induction rule: raw_ok.induct) (auto simp: escapes_def)

lemma raw_ok_append: "raw_ok s \<Longrightarrow> raw_ok t \<Longrightarrow> raw_ok (s @ t)"
  by (induction rule: raw_ok.induct) (auto intro: raw_ok.intros)

lemma scan_string_SomeD: "scan_string s = Some (raw, r) \<Longrightarrow> raw_ok raw \<and> s = raw @ quote # r"
proof (induction s arbitrary: raw r rule: length_induct)
  case (1 s)
  show ?case
  proof (cases s)
    case Nil
    with 1 show ?thesis by simp
  next
    case (Cons c cs)
    have IH: "raw_ok t' \<and> t = t' @ quote # r'" if "scan_string t = Some (t', r')" "length t < length s" for t t' r'
      using 1(1) that by blast
    consider "c = quote" | "c = backslash" | "c \<noteq> quote" "c \<noteq> backslash" by blast
    then show ?thesis
    proof cases
      case 1
      with Cons \<open>scan_string s = Some (raw, r)\<close> show ?thesis by (auto intro: raw_ok.intros)
    next
      case 2
      obtain e t where t: "cs = e # t"
        using Cons 2 \<open>scan_string s = Some (raw, r)\<close> by (cases cs) auto
      show ?thesis
      proof (cases "e = CHR ''u''")
        case True
        obtain a b d f t' where t': "t = a # b # d # f # t'"
          using Cons 2 t True \<open>scan_string s = Some (raw, r)\<close>
          by (auto split: list.splits)
        obtain raw' where raw': "scan_string t' = Some (raw', r)" and hex: "is_hex a" "is_hex b" "is_hex d" "is_hex f"
          and eq: "raw = backslash # CHR ''u'' # a # b # d # f # raw'"
          using Cons 2 t t' True \<open>scan_string s = Some (raw, r)\<close> by (auto split: if_splits)
        have "raw_ok raw' \<and> t' = raw' @ quote # r" by (rule IH [OF raw']) (simp add: Cons t t')
        with hex show ?thesis by (simp add: Cons 2 t t' True eq raw_unicode)
      next
        case False
        obtain raw' where raw': "scan_string t = Some (raw', r)" and e: "e \<in> set escapes"
          and eq: "raw = backslash # e # raw'"
          using Cons 2 t False \<open>scan_string s = Some (raw, r)\<close> by (auto split: if_splits)
        have "raw_ok raw' \<and> t = raw' @ quote # r" by (rule IH [OF raw']) (simp add: Cons t)
        with e show ?thesis by (simp add: Cons 2 t eq raw_escape)
      qed
    next
      case 3
      then obtain raw' where raw': "scan_string cs = Some (raw', r)" and c: "\<not> of_char c < (0x20 :: nat)"
        and eq: "raw = c # raw'"
        using Cons \<open>scan_string s = Some (raw, r)\<close> by (auto split: if_splits)
      have "raw_ok raw' \<and> cs = raw' @ quote # r" by (rule IH [OF raw']) (simp add: Cons)
      with 3 c show ?thesis by (simp add: Cons eq raw_plain)
    qed
  qed
qed

definition number_ok :: "bytes \<Rightarrow> bool" where
  "number_ok l \<longleftrightarrow> scan_number l = Some (l, [])"

text \<open>What may follow a number: a character that no number contains.\<close>

definition delimiter :: "bytes \<Rightarrow> bool" where
  "delimiter r \<longleftrightarrow> (case r of [] \<Rightarrow> True | c # _ \<Rightarrow> \<not> is_digit c \<and> c \<notin> set ''.eE+-'')"

lemma scan_digits_append:
  "delimiter r \<Longrightarrow> scan_digits (s @ r) = (fst (scan_digits s), snd (scan_digits s) @ r)"
proof (induction s)
  case Nil
  then show ?case by (cases r) (auto simp: scan_digits_def delimiter_def)
qed (simp add: scan_digits_def)

lemma scan_frac_append: "delimiter r \<Longrightarrow> scan_frac (s @ r) = map_option (apsnd (\<lambda>t. t @ r)) (scan_frac s)"
proof (cases s)
  case Nil
  moreover assume "delimiter r"
  ultimately show ?thesis by (cases r) (auto simp: scan_frac_def delimiter_def)
qed (auto simp: scan_frac_def scan_digits_append split: prod.splits)

lemma scan_sign_append:
  "delimiter r \<Longrightarrow> set cs \<subseteq> set ''+-'' \<Longrightarrow> scan_sign cs (s @ r) = scan_sign cs s"
  by (cases s; cases r) (auto simp: scan_sign_def delimiter_def)

lemma length_scan_sign: "length (scan_sign cs s) \<le> length s"
  by (cases s) (auto simp: scan_sign_def)

lemma scan_exp_append: "delimiter r \<Longrightarrow> scan_exp (s @ r) = map_option (apsnd (\<lambda>t. t @ r)) (scan_exp s)"
proof (cases s)
  case Nil
  moreover assume "delimiter r"
  ultimately show ?thesis by (cases r) (auto simp: scan_exp_def delimiter_def)
next
  case (Cons e t)
  moreover assume "delimiter r"
  ultimately show ?thesis
    using length_scan_sign [of "''+-''" t]
    by (simp add: scan_exp_def Let_def scan_sign_append scan_digits_append split: prod.splits)
qed

lemma scan_number_append:
  "delimiter r \<Longrightarrow> scan_number (s @ r) = map_option (apsnd (\<lambda>t. t @ r)) (scan_number s)"
  using length_scan_sign [of "''-''" s]
  by (simp add: scan_number_def Let_def scan_sign_append scan_digits_append scan_frac_append scan_exp_append
      split: prod.splits option.splits)

lemma scan_digits_length: "scan_digits s = (a, b) \<Longrightarrow> s = a @ b"
  by (auto simp: scan_digits_def)

lemma scan_frac_split: "scan_frac s = Some (a, b) \<Longrightarrow> s = a @ b"
  by (auto simp: scan_frac_def split: list.splits if_splits prod.splits dest: scan_digits_length)

lemma scan_sign_split: "scan_sign cs s @ drop (length (scan_sign cs s)) s = s"
  by (cases s) (auto simp: scan_sign_def)

lemma scan_exp_split: "scan_exp s = Some (a, b) \<Longrightarrow> s = a @ b"
proof (cases s)
  case (Cons e t)
  moreover assume "scan_exp s = Some (a, b)"
  ultimately show ?thesis
    using scan_sign_split [of "''+-''" t]
    by (auto simp: scan_exp_def Let_def split: if_splits prod.splits dest!: scan_digits_length)
qed (simp add: scan_exp_def)

lemma scan_number_split: "scan_number s = Some (l, r) \<Longrightarrow> s = l @ r"
  using scan_sign_split [of "''-''" s]
  by (auto simp: scan_number_def Let_def split: if_splits prod.splits option.splits
      dest!: scan_digits_length scan_frac_split scan_exp_split)

primrec json_ok :: "json \<Rightarrow> bool" where
  "json_ok JNull = True"
| "json_ok (JBool b) = True"
| "json_ok (JNum l) = number_ok l"
| "json_ok (JStr raw) = raw_ok raw"
| "json_ok (JArr vs) = list_all id (map json_ok vs)"
| "json_ok (JObj ms) = list_all (\<lambda>(k, b). raw_ok k \<and> b) (map (map_prod id json_ok) ms)"

lemma json_ok_JArr: "json_ok (JArr vs) \<longleftrightarrow> (\<forall>v \<in> set vs. json_ok v)"
  by (auto simp: list_all_iff)

lemma json_ok_JObj: "json_ok (JObj ms) \<longleftrightarrow> (\<forall>(k, v) \<in> set ms. raw_ok k \<and> json_ok v)"
  by (auto simp: list_all_iff)

declare json_ok.simps(5,6) [simp del]
declare json_ok_JArr [simp] json_ok_JObj [simp]

subsection \<open>Parsing what was printed\<close>

text \<open>The first character of a text decides how it is scanned.\<close>

definition starts :: "bytes \<Rightarrow> bool" where
  "starts s \<longleftrightarrow> s \<noteq> [] \<and> \<not> is_ws (hd s)"

lemma skip_ws_starts: "starts s \<Longrightarrow> skip_ws (s @ r) = s @ r"
  by (cases s) (auto simp: starts_def skip_ws_def)

lemma expect_here: "\<not> is_ws c \<Longrightarrow> expect c (c # r) = Some r"
  by (simp add: expect_def skip_ws_def)

lemma expect_other: "\<not> is_ws d \<Longrightarrow> d \<noteq> c \<Longrightarrow> expect c (d # r) = None"
  by (simp add: expect_def skip_ws_def)

lemma ws_punctuation [simp]:
  "\<not> is_ws CHR '',''" "\<not> is_ws CHR '']''" "\<not> is_ws CHR ''}''" "\<not> is_ws CHR '':''" "\<not> is_ws quote"
  "\<not> is_ws CHR ''{''" "\<not> is_ws CHR ''[''"
  by (simp_all add: is_ws_def)

lemma number_ok_hd:
  assumes "number_ok l"
  obtains c t where "l = c # t" "is_digit c \<or> c = CHR ''-''"
proof -
  have sc: "scan_number l = Some (l, [])" using assms by (simp add: number_ok_def)
  then obtain ip r1 where ip: "scan_digits (drop (length (scan_sign ''-'' l)) l) = (ip, r1)" "ip \<noteq> []"
    by (auto simp: scan_number_def Let_def split: prod.splits if_splits)
  obtain c t where l: "l = c # t"
    using ip by (cases l) (auto simp: scan_digits_def scan_sign_def)
  have "is_digit c \<or> c = CHR ''-''"
  proof (rule ccontr)
    assume n: "\<not> (is_digit c \<or> c = CHR ''-'')"
    then have "fst (scan_digits (drop (length (scan_sign ''-'' l)) l)) = []"
      by (simp add: l scan_sign_def scan_digits_def)
    with ip show False by simp
  qed
  with that l show thesis by blast
qed

lemma scan_atom_number: "number_ok l \<Longrightarrow> delimiter r \<Longrightarrow> scan_atom (l @ r) = Some (JNum l, r)"
proof -
  assume l: "number_ok l" and r: "delimiter r"
  from l obtain c t where c: "l = c # t" "is_digit c \<or> c = CHR ''-''" by (rule number_ok_hd)
  then have "c \<notin> set ''ntf''" by (auto simp: is_digit_def)
  with c have "scan_lit [(''null'', JNull), (''true'', JBool True), (''false'', JBool False)] (l @ r) = None"
    by simp
  with scan_number_append [OF r, of l] l show ?thesis by (simp add: scan_atom_def number_ok_def)
qed

lemma is_digit_not_ws: "is_digit c \<Longrightarrow> \<not> is_ws c"
  by (auto simp: is_digit_def is_ws_def)

lemma starts_json_text: "json_ok v \<Longrightarrow> starts (json_text v)"
proof (cases v)
  case (JNum l)
  moreover assume "json_ok v"
  ultimately have "number_ok l" by simp
  then show ?thesis using JNum by (auto elim!: number_ok_hd simp: starts_def is_digit_not_ws) (simp add: is_ws_def)
qed (auto simp: starts_def quoted_def is_ws_def)

lemma json_text_nonempty [simp]: "json_ok v \<Longrightarrow> json_text v \<noteq> []"
  using starts_json_text starts_def by blast

lemma delimiter_Cons [simp]: "delimiter (CHR '','' # r)" "delimiter (CHR '']'' # r)" "delimiter (CHR ''}'' # r)"
  by (simp_all add: delimiter_def is_digit_def)

lemma Join_Cons2: "Join (x # y # ys) sep = x @ sep @ Join (y # ys) sep"
  by simp

lemma scan_elems_text:
  assumes "vs \<noteq> []" and "\<forall>v \<in> set vs. json_ok v"
    and "\<And>v n r. v \<in> set vs \<Longrightarrow> 2 * length (json_text v) \<le> n \<Longrightarrow> delimiter r \<Longrightarrow>
      scan_value n (json_text v @ r) = Some (v, r)"
    and "2 * length (Join (map json_text vs) '','') + 1 \<le> n"
  shows "scan_elems n (Join (map json_text vs) '','' @ CHR '']'' # r) = Some (vs, r)"
  using assms
proof (induction vs arbitrary: n)
  case (Cons v vs)
  obtain m where n: "n = Suc m" using Cons.prems(4) by (cases n) auto
  show ?case
  proof (cases vs)
    case Nil
    have "scan_value m (json_text v @ CHR '']'' # r) = Some (v, CHR '']'' # r)"
      using Cons.prems Nil n by auto
    with Nil show ?thesis by (simp add: n expect_here expect_other)
  next
    case (Cons w ws)
    have "scan_elems m (Join (map json_text vs) '','' @ CHR '']'' # r) = Some (vs, r)"
      using Cons.prems n Cons by (intro Cons.IH) (auto simp: Join_Cons2 simp del: Join.simps)
    moreover have "scan_value m (json_text v @ CHR '','' # x) = Some (v, CHR '','' # x)" for x
      using Cons.prems n Cons by (auto simp: Join_Cons2 simp del: Join.simps)
    ultimately show ?thesis by (simp add: n Cons expect_here)
  qed
qed simp

definition members_text :: "(bytes \<times> json) list \<Rightarrow> bytes list" where
  "members_text ms = map (\<lambda>(k, v). quoted k @ '':'' @ json_text v) ms"

lemma json_text_JObj: "json_text (JObj ms) = ''{'' @ Join (members_text ms) '','' @ ''}''"
proof -
  have "map member_text (map (map_prod id json_text) ms) = members_text ms"
    by (auto simp: members_text_def member_text_def)
  then show ?thesis by simp
qed

declare json_text.simps(6) [simp del]
declare json_text_JObj [simp]

lemma scan_key_text: "raw_ok k \<Longrightarrow> scan_key (quoted k @ CHR '':'' # r) = Some (k, r)"
  by (simp add: scan_key_def quoted_def expect_here scan_string_raw)

lemma scan_members_text:
  assumes "ms \<noteq> []" and "\<forall>(k, v) \<in> set ms. raw_ok k \<and> json_ok v"
    and "\<And>k v n r. (k, v) \<in> set ms \<Longrightarrow> 2 * length (json_text v) \<le> n \<Longrightarrow> delimiter r \<Longrightarrow>
      scan_value n (json_text v @ r) = Some (v, r)"
    and "2 * length (Join (members_text ms) '','') + 1 \<le> n"
  shows "scan_members n (Join (members_text ms) '','' @ CHR ''}'' # r) = Some (ms, r)"
  using assms
proof (induction ms arbitrary: n)
  case (Cons m ms)
  obtain k v where m: "m = (k, v)" by (cases m)
  obtain i where n: "n = Suc i" using Cons.prems(4) by (cases n) auto
  have k: "raw_ok k" using Cons.prems(2) m by auto
  show ?case
  proof (cases ms)
    case Nil
    have "scan_value i (json_text v @ CHR ''}'' # r) = Some (v, CHR ''}'' # r)"
      using Cons.prems Nil n by (auto simp: members_text_def m)
    with Nil k show ?thesis by (simp add: n m members_text_def scan_key_text expect_here expect_other)
  next
    case (Cons w ws)
    have J: "Join (members_text (m # ms)) '','' = quoted k @ CHR '':'' # json_text v @ CHR '','' # Join (members_text ms) '',''"
      by (cases w) (simp add: members_text_def m Cons)
    have len: "2 * length (json_text v) \<le> i" using Cons.prems(4) unfolding J n by simp
    have "scan_members i (Join (members_text ms) '','' @ CHR ''}'' # r) = Some (ms, r)"
    proof (rule Cons.IH)
      show "2 * length (Join (members_text ms) '','') + 1 \<le> i" using Cons.prems(4) n by (simp add: J)
    qed (use Cons.prems Cons in auto)
    moreover have "scan_value i (json_text v @ CHR '','' # x) = Some (v, CHR '','' # x)" for x
      using Cons.prems(3) [of k v i "CHR '','' # x"] len m by simp
    ultimately show ?thesis using k by (simp add: J) (simp add: n m scan_key_text expect_here)
  qed
qed simp

lemma expect_Join:
  "vs \<noteq> [] \<Longrightarrow> starts (hd vs) \<Longrightarrow> hd (hd vs) \<noteq> c \<Longrightarrow> expect c (Join vs sep @ r) = None"
  by (cases vs rule: list.exhaust; cases "tl vs"; cases "hd vs") (auto simp: starts_def expect_other)

lemma hd_json_text: "json_ok v \<Longrightarrow> hd (json_text v) \<noteq> CHR '']''"
proof (cases v)
  case (JNum l)
  moreover assume "json_ok v"
  ultimately have "number_ok l" by simp
  then show ?thesis using JNum by (auto elim!: number_ok_hd simp: is_digit_def)
qed (auto simp: quoted_def)

lemma scan_value_literals:
  "scan_value (Suc n) (''null'' @ r) = Some (JNull, r)" "scan_value (Suc n) (''true'' @ r) = Some (JBool True, r)"
  "scan_value (Suc n) (''false'' @ r) = Some (JBool False, r)"
  by (simp_all add: skip_ws_def is_ws_def scan_atom_def)

lemma scan_value_text:
  "json_ok v \<Longrightarrow> 2 * length (json_text v) \<le> n \<Longrightarrow> delimiter r \<Longrightarrow> scan_value n (json_text v @ r) = Some (v, r)"
proof (induction v arbitrary: n r)
  case (JNum l)
  then obtain c t where c: "l = c # t" "is_digit c \<or> c = CHR ''-''" by (auto elim: number_ok_hd)
  moreover obtain m where "n = Suc m" using JNum.prems c by (cases n) auto
  moreover have "\<not> is_ws c" using c is_digit_not_ws by (auto simp: is_ws_def [of "CHR ''-''"])
  moreover have "c \<notin> {CHR ''{'', CHR ''['', quote}" using c by (auto simp: is_digit_def)
  ultimately show ?case using scan_atom_number [of l r] JNum.prems by (simp add: skip_ws_def)
next
  case (JArr vs)
  obtain m where n: "n = Suc m" using JArr.prems by (cases n) auto
  show ?case
  proof (cases "vs = []")
    case False
    then have "expect CHR '']'' (Join (map json_text vs) '','' @ CHR '']'' # r) = None"
      using JArr.prems starts_json_text hd_json_text by (intro expect_Join) (auto simp: hd_map)
    moreover have "scan_elems m (Join (map json_text vs) '','' @ CHR '']'' # r) = Some (vs, r)"
      using JArr False n by (intro scan_elems_text) auto
    ultimately show ?thesis by (simp add: n skip_ws_def)
  qed (simp add: n skip_ws_def expect_here)
next
  case (JObj ms)
  obtain m where n: "n = Suc m" using JObj.prems by (cases n) auto
  show ?case
  proof (cases "ms = []")
    case False
    then have "expect CHR ''}'' (Join (members_text ms) '','' @ CHR ''}'' # r) = None"
      by (intro expect_Join) (auto simp: members_text_def hd_map quoted_def starts_def is_ws_def split: prod.splits)
    moreover have "scan_members m (Join (members_text ms) '','' @ CHR ''}'' # r) = Some (ms, r)"
      using JObj False n by (intro scan_members_text) (auto 4 4 intro: snds.intros)
    ultimately show ?thesis by (simp add: n skip_ws_def)
  qed (simp add: n skip_ws_def expect_here members_text_def)
next
  case JNull
  then show ?case using scan_value_literals(1) [of "n - 1" r] by (cases n) simp_all
next
  case (JBool b)
  then show ?case using scan_value_literals(2,3) [of "n - 1" r] by (cases n; cases b) simp_all
next
  case (JStr raw)
  then show ?case by (cases n) (simp_all add: skip_ws_def quoted_def scan_string_raw)
qed

lemma Unmarshal_json_text: "json_ok v \<Longrightarrow> Unmarshal (json_text v) = Some v"
  using scan_value_text [of v "2 * length (json_text v) + 2" "[]"]
  by (simp add: Unmarshal_def delimiter_def skip_ws_def)

subsection \<open>What a scanned value looks like\<close>

lemma scan_digits_exact: "list_all is_digit a \<Longrightarrow> t = [] \<or> \<not> is_digit (hd t) \<Longrightarrow> scan_digits (a @ t) = (a, t)"
  by (induction a) (cases t, auto simp: scan_digits_def)

lemma scan_digits_all: "scan_digits s = (a, b) \<Longrightarrow> list_all is_digit a"
  by (auto simp: scan_digits_def list_all_iff dest: set_takeWhileD)

lemma scan_frac_exact:
  assumes "scan_frac s = Some (a, b)" and "t = [] \<or> hd t \<in> {CHR ''e'', CHR ''E''}"
  shows "scan_frac (a @ t) = Some (a, t)" and "a = [] \<or> \<not> is_digit (hd a)"
proof -
  have t: "t = [] \<or> \<not> is_digit (hd t) \<and> hd t \<noteq> CHR ''.''" using assms(2) by (auto simp: is_digit_def)
  show "scan_frac (a @ t) = Some (a, t)"
  proof (cases "a = []")
    case True
    with t show ?thesis by (cases t) (auto simp: scan_frac_def)
  next
    case False
    then obtain r ds where "scan_digits r = (ds, b)" "ds \<noteq> []" "a = CHR ''.'' # ds"
      using assms(1) by (auto simp: scan_frac_def split: list.splits if_splits prod.splits)
    moreover from calculation t have "scan_digits (ds @ t) = (ds, t)"
      by (intro scan_digits_exact) (auto dest: scan_digits_all)
    ultimately show ?thesis by (simp add: scan_frac_def)
  qed
  show "a = [] \<or> \<not> is_digit (hd a)"
    using assms(1) by (auto simp: scan_frac_def is_digit_def split: list.splits if_splits prod.splits)
qed

lemma scan_exp_exact:
  assumes "scan_exp s = Some (a, b)"
  shows "scan_exp a = Some (a, [])" and "a = [] \<or> hd a \<in> {CHR ''e'', CHR ''E''}"
proof -
  have "scan_exp a = Some (a, []) \<and> (a = [] \<or> hd a \<in> {CHR ''e'', CHR ''E''})"
  proof (cases "a = []")
    case False
    then obtain e r sg ds where s: "s = e # r" and e: "e = CHR ''e'' \<or> e = CHR ''E''" and sg: "sg = scan_sign ''+-'' r"
      and ds: "scan_digits (drop (length sg) r) = (ds, b)" "ds \<noteq> []" and a: "a = e # sg @ ds"
      using assms by (auto simp: scan_exp_def Let_def split: list.splits if_splits prod.splits)
    have dig: "list_all is_digit ds" using ds(1) by (rule scan_digits_all)
    then have "scan_sign ''+-'' ds = []" using ds(2) by (cases ds) (auto simp: scan_sign_def is_digit_def)
    then have "scan_sign ''+-'' (sg @ ds) = sg" by (auto simp: sg scan_sign_def split: list.splits)
    with e dig ds(2) show ?thesis using scan_digits_exact [OF dig, of "[]"] by (simp add: a scan_exp_def)
  qed (simp add: scan_exp_def)
  then show "scan_exp a = Some (a, [])" and "a = [] \<or> hd a \<in> {CHR ''e'', CHR ''E''}" by blast+
qed

lemma scan_number_ok:
  assumes "scan_number s = Some (l, r)"
  shows "number_ok l"
proof -
  define sg where "sg = scan_sign ''-'' s"
  obtain ip r1 fp r2 ex where ip: "scan_digits (drop (length sg) s) = (ip, r1)" "ip \<noteq> []"
      "\<not> (hd ip = CHR ''0'' \<and> 1 < length ip)"
    and fp: "scan_frac r1 = Some (fp, r2)" and ex: "scan_exp r2 = Some (ex, r)" and l: "l = sg @ ip @ fp @ ex"
    using assms unfolding scan_number_def Let_def sg_def [symmetric]
    by (auto split: prod.splits if_splits option.splits)
  note ex' = scan_exp_exact [OF ex]
  note fp' = scan_frac_exact [OF fp ex'(2)]
  have dig: "list_all is_digit ip" using ip(1) by (rule scan_digits_all)
  have "fp @ ex = [] \<or> \<not> is_digit (hd (fp @ ex))" using fp'(2) ex'(2) by (cases fp) (auto simp: is_digit_def)
  then have d: "scan_digits (ip @ fp @ ex) = (ip, fp @ ex)" by (rule scan_digits_exact [OF dig])
  have "scan_sign ''-'' (ip @ x) = []" for x using dig ip(2) by (cases ip) (auto simp: scan_sign_def is_digit_def)
  then have "scan_sign ''-'' l = sg" by (auto simp: l sg_def scan_sign_def split: list.splits)
  with d ip fp' ex' show ?thesis by (simp add: number_ok_def scan_number_def l)
qed

lemma skip_ws_length: "length (skip_ws s) \<le> length s"
  by (simp add: skip_ws_def length_dropWhile_le)

lemma expect_length: "expect c s = Some r \<Longrightarrow> length r < length s"
  using skip_ws_length [of s] by (auto simp: expect_def split: list.splits if_splits)

lemma scan_string_length: "scan_string s = Some (k, r) \<Longrightarrow> length r < length s"
  by (auto dest: scan_string_SomeD)

lemma scan_key_length: "scan_key s = Some (k, r) \<Longrightarrow> raw_ok k \<and> length r < length s"
  by (auto simp: scan_key_def split: option.splits dest!: expect_length scan_string_SomeD)

lemma strip_length: "strip w s = Some r \<Longrightarrow> length r \<le> length s"
  by (induction w s rule: strip.induct) (auto split: if_splits)

lemma scan_atom_ok: "scan_atom s = Some (v, r) \<Longrightarrow> json_ok v \<and> length r \<le> length s"
  by (auto simp: scan_atom_def scan_number_ok split: option.splits dest: strip_length scan_number_split)

lemma scan_ok:
  "scan_value n s = Some (v, r) \<Longrightarrow> json_ok v \<and> length r \<le> length s"
  "scan_elems n s = Some (vs, r) \<Longrightarrow> (\<forall>v \<in> set vs. json_ok v) \<and> length r \<le> length s"
  "scan_members n s = Some (ms, r) \<Longrightarrow> (\<forall>(k, v) \<in> set ms. raw_ok k \<and> json_ok v) \<and> length r \<le> length s"
proof (induction n s and n s and n s arbitrary: v r and vs r and ms r rule: scan_value_scan_elems_scan_members.induct)
  case (2 n s)
  obtain c cs where c: "skip_ws s = c # cs" using 2(3) by (auto split: list.splits)
  with skip_ws_length [of s] have l: "Suc (length cs) \<le> length s" by simp
  show ?case
    using 2(3) 2(1,2) [OF c] l c scan_atom_ok [of "c # cs" v r]
    by (auto split: if_splits option.splits dest!: expect_length scan_string_SomeD)
next
  case (4 n s)
  then show ?case by (fastforce split: option.splits dest!: expect_length)
next
  case (6 n s)
  then show ?case by (fastforce split: option.splits dest!: expect_length scan_key_length)
qed simp_all

lemma Unmarshal_ok: "Unmarshal s = Some v \<Longrightarrow> json_ok v"
  by (auto simp: Unmarshal_def simp del: scan_value.simps split: option.splits if_splits dest: scan_ok(1))

text \<open>
  Fuel: a value of length \<open>l\<close> needs at most \<open>2 * l + 1\<close>, so the fuel of \<open>Unmarshal\<close> never runs out.
\<close>

lemma scan_fuel:
  "2 * length s + 1 \<le> n \<Longrightarrow> scan_value (Suc n) s = scan_value n s"
  "2 * length s + 2 \<le> n \<Longrightarrow> scan_elems (Suc n) s = scan_elems n s"
  "2 * length s + 2 \<le> n \<Longrightarrow> scan_members (Suc n) s = scan_members n s"
proof (induction n s and n s and n s rule: scan_value_scan_elems_scan_members.induct)
  case (2 n s)
  show ?case
  proof (cases "skip_ws s")
    case (Cons c cs)
    with skip_ws_length [of s] 2(3) have "2 * length cs + 2 \<le> n" by simp
    with Cons 2(1,2) [OF Cons] show ?thesis by (simp split: option.split)
  qed simp
next
  case (4 n s)
  have v: "scan_value (Suc n) s = scan_value n s" using 4 by simp
  show ?case
  proof (cases "scan_value n s")
    case None
    then show ?thesis by (simp only: scan_elems.simps v) simp
  next
    case (Some p)
    obtain w r where p: "p = (w, r)" by (cases p)
    have "scan_elems (Suc n) r' = scan_elems n r'" if "expect CHR '','' r = Some r'" for r'
      using 4(2) [OF Some p [symmetric] that] expect_length [OF that] scan_ok(1) [OF Some [unfolded p]] 4(3) by simp
    with Some p show ?thesis
      by (simp only: scan_elems.simps(2) [of "Suc n"] scan_elems.simps(2) [of n s] v) (simp split: option.split)
  qed
next
  case (6 n s)
  show ?case
  proof (cases "scan_key s")
    case None
    then show ?thesis by simp
  next
    case (Some kq)
    obtain k q where kq: "kq = (k, q)" by (cases kq)
    note ql = scan_key_length [OF Some [unfolded kq]]
    have v: "scan_value (Suc n) q = scan_value n q" using 6(1) [OF Some kq [symmetric]] ql 6(3) by simp
    show ?thesis
    proof (cases "scan_value n q")
      case None
      with Some kq show ?thesis
        by (simp only: scan_members.simps(2) [of "Suc n"] scan_members.simps(2) [of n s]) (simp only: option.case prod.case v)
    next
      case (Some p)
      obtain w r where p: "p = (w, r)" by (cases p)
      have "scan_members (Suc n) r' = scan_members n r'" if "expect CHR '','' r = Some r'" for r'
        using 6(2) [OF \<open>scan_key s = Some kq\<close> kq [symmetric] Some p [symmetric] that] expect_length [OF that] scan_ok(1) [OF Some [unfolded p]]
          ql 6(3) by simp
      with Some p kq \<open>scan_key s = Some kq\<close> show ?thesis
        by (simp only: scan_members.simps(2) [of "Suc n"] scan_members.simps(2) [of n s])
          (simp only: option.case prod.case v, simp split: option.split)
    qed
  qed
qed simp_all

lemma value_fuel: "2 * length s + 1 \<le> n \<Longrightarrow> n \<le> m \<Longrightarrow> scan_value m s = scan_value n s"
proof -
  assume n: "2 * length s + 1 \<le> n"
  have "scan_value (n + k) s = scan_value n s" for k
    using n by (induction k) (auto simp: scan_fuel(1) simp del: scan_value.simps)
  then show "n \<le> m \<Longrightarrow> ?thesis" by (metis le_add_diff_inverse)
qed

subsection \<open>Encoded strings are literals\<close>

lemma raw_ok_high: "\<forall>c \<in> set s. 128 \<le> (of_char c :: nat) \<Longrightarrow> raw_ok s"
proof (induction s)
  case (Cons c cs)
  then have "(128 :: nat) \<le> of_char c" by simp
  then show ?case using Cons by (intro raw_plain) auto
qed (rule raw_Nil)

lemma rune_bytes_high:
  assumes "128 \<le> (of_char (hd s) :: nat)" and "s \<noteq> []"
  shows "\<forall>c \<in> set (take (rune_len s) s). 128 \<le> (of_char c :: nat)"
proof -
  have "128 \<le> (of_char (s ! i) :: nat)" if "i < rune_len s" "i < length s" for i
  proof (cases "i = 0")
    case True
    with assms show ?thesis by (simp add: hd_conv_nth)
  next
    case False
    moreover have "rune_len s \<le> 4" by (simp add: rune_len_def Let_def)
    ultimately have "i = 1 \<or> i = 2 \<or> i = 3" using that(1) by linarith
    with that show ?thesis by (auto simp: rune_len_def Let_def cont_byte_def split: if_splits)
  qed
  then show ?thesis by (auto simp: in_set_conv_nth)
qed

lemma is_hex_hex_char [simp]: "n < 16 \<Longrightarrow> is_hex (hex_char n)"
  by (auto simp: is_hex_def hex_digit_def hex_char_def Let_def)

lemma raw_ok_u_escape: "raw_ok (u_escape r)"
  unfolding u_escape_def by (intro raw_unicode raw_Nil) simp_all

lemma raw_ok_escape_ascii: "of_char c < (128 :: nat) \<Longrightarrow> raw_ok (escape_ascii c)"
  using raw_escape [OF _ raw_Nil] raw_plain [OF _ _ _ raw_Nil, of c] raw_ok_u_escape
  by (simp add: escape_ascii_def escapes_def)

lemma raw_ok_quote_go: "raw_ok (quote_go s)"
proof (induction s rule: quote_go.induct)
  case (2 c cs)
  have "raw_ok (take (rune_len (c # cs)) (c # cs))" if "\<not> of_char c < (128 :: nat)"
    using rune_bytes_high [of "c # cs"] that by (intro raw_ok_high) simp
  with 2 show ?case
    by (auto simp del: take_Cons intro!: raw_ok_append raw_ok_escape_ascii raw_ok_u_escape)
qed (simp add: raw_Nil)

text \<open>Escaping a literal again leaves a literal.\<close>

lemma hex_not_html: "is_hex c \<Longrightarrow> c \<notin> set ''<>&'' \<and> c \<noteq> CHR 0xE2"
  by (auto simp: is_hex_def hex_digit_def Let_def)

lemma escape_html_skip: "c \<notin> set ''<>&'' \<Longrightarrow> c \<noteq> CHR 0xE2 \<Longrightarrow> escape_html (c # s) = c # escape_html s"
  by (auto simp: is_line_sep_def)

lemma raw_ok_escape_html: "raw_ok s \<Longrightarrow> raw_ok (escape_html s)"
proof (induction "length s" arbitrary: s rule: less_induct)
  case less
  from less.prems show ?case
  proof (cases rule: raw_ok.cases)
    case raw_Nil
    then show ?thesis by (simp add: raw_ok.raw_Nil)
  next
    case (raw_plain c t)
    show ?thesis
    proof (cases "is_line_sep (c # t)")
      case True
      then obtain b u where t: "t = CHR 0x80 # b # u" "c = CHR 0xE2" "b \<in> {CHR 0xA8, CHR 0xA9}"
        by (cases t; cases "tl t") (auto simp: is_line_sep_def)
      have "raw_ok (b # u)" using raw_plain(5) t by (auto elim: raw_ok.cases)
      then have "raw_ok u" using t by (auto elim: raw_ok.cases)
      with less.hyps [of u] raw_plain t show ?thesis
        using True by (auto intro!: raw_ok_append raw_ok_u_escape)
    next
      case False
      with less.hyps [of t] raw_plain show ?thesis
        by (auto intro!: raw_ok_append raw_ok_u_escape raw_ok.raw_plain)
    qed
  next
    case (raw_escape e t)
    have "e \<notin> set ''<>&'' \<and> e \<noteq> CHR 0xE2" using raw_escape(2) by (auto simp: escapes_def)
    with less.hyps [of t] raw_escape show ?thesis
      by (simp add: escape_html_skip raw_ok.raw_escape del: escape_html.simps)
  next
    case (raw_unicode a b c d t)
    with less.hyps [of t] hex_not_html [of a] hex_not_html [of b] hex_not_html [of c] hex_not_html [of d] show ?thesis
      by (simp add: escape_html_skip raw_ok.raw_unicode del: escape_html.simps)
  qed
qed

lemma json_ok_map_literals: "(\<And>raw. raw_ok raw \<Longrightarrow> raw_ok (f raw)) \<Longrightarrow> json_ok v \<Longrightarrow> json_ok (map_literals f v)"
  by (induction v) (auto 4 4 intro: snds.intros)

subsection \<open>Objects printed from maps\<close>

text \<open>Keys that are their own literal.\<close>

definition plain_char :: "char \<Rightarrow> bool" where
  "plain_char c \<longleftrightarrow> 0x20 \<le> (of_char c :: nat) \<and> (of_char c :: nat) < 128 \<and> c \<notin> set ''<>&'' \<and> c \<noteq> quote \<and> c \<noteq> backslash"

definition plain_key :: "string \<Rightarrow> bool" where
  "plain_key k \<longleftrightarrow> list_all plain_char k"

lemma escape_ascii_plain:
  assumes "plain_char c"
  shows "escape_ascii c = [c]"
proof -
  have "32 \<le> (of_char c :: nat)" using assms by (simp add: plain_char_def)
  then have "c \<noteq> CHR 0x08" "c \<noteq> CHR 0x0C" "c \<noteq> CHR 0x0A" "c \<noteq> CHR 0x0D" "c \<noteq> CHR 0x09"
    by auto
  with assms show ?thesis by (simp add: escape_ascii_def plain_char_def)
qed

lemma quote_go_plain: "plain_key k \<Longrightarrow> quote_go k = k"
proof (induction k)
  case (Cons c cs)
  then have "plain_char c" "quote_go cs = cs" by (simp_all add: plain_key_def)
  moreover from this have "of_char c < (128 :: nat)" by (simp add: plain_char_def)
  ultimately show ?case by (simp add: escape_ascii_plain)
qed simp

lemma u_escape_backslash: "backslash \<in> set (u_escape r)"
  by (simp add: u_escape_def)

lemma quote_go_plain_inv: "plain_key (quote_go s) \<Longrightarrow> quote_go s = s"
proof (induction s rule: quote_go.induct)
  case (2 c cs)
  have u: "\<not> plain_key (u_escape r @ x)" for r x
    by (simp add: plain_key_def u_escape_def plain_char_def)
  show ?case
  proof (cases "of_char c < (128 :: nat)")
    case True
    with 2 have "plain_key (escape_ascii c)" and IH: "quote_go cs = cs" by (auto simp: plain_key_def)
    then have "escape_ascii c = [c]" by (auto simp: escape_ascii_def plain_key_def u_escape_def plain_char_def split: if_splits)
    with True IH show ?thesis by simp
  next
    case False
    have "\<not> plain_key (take (rune_len (c # cs)) (c # cs) @ x)" for x
      using False rune_len_pos [of "c # cs"] by (cases "rune_len (c # cs)") (auto simp: plain_key_def plain_char_def)
    with False 2(5) u show ?thesis by (auto simp del: take_Cons split: if_splits)
  qed
qed simp

lemma map_of_sort_key:
  assumes "distinct (map fst m)"
  shows "map_of (sort_key fst m) = map_of m"
proof -
  have "mset (map fst (sort_key fst m)) = mset (map fst m)" by simp
  then have "distinct (map fst (sort_key fst m))" using assms mset_eq_imp_distinct_iff by blast
  then show ?thesis using assms by (simp add: map_of_inject_set)
qed

lemma map_of_renamed:
  assumes "\<And>a. g a = k \<longleftrightarrow> a = k"
  shows "map_of (map (\<lambda>(a, v). (g a, f v)) xs) k = map_option f (map_of xs k)"
proof (induction xs)
  case (Cons p xs)
  then show ?case using assms [of "fst p"] by (cases p) (auto simp: fun_upd_def)
qed simp

lemma quote_go_eq_plain: "plain_key k \<Longrightarrow> quote_go a = k \<longleftrightarrow> a = k"
  using quote_go_plain [of k] quote_go_plain_inv [of a] by auto

lemma map_of_members:
  fixes m :: "(string \<times> 'a) list"
  assumes "distinct (map fst m)" and "plain_key k"
  shows "map_of (map_members m) k = map_of m k"
  using map_of_renamed [where g = quote_go and f = "\<lambda>v :: 'a. v", OF quote_go_eq_plain [OF assms(2)]]
  by (simp add: map_members_def map_of_sort_key [OF assms(1)] option.map_ident)

lemma escape_html_plain: "plain_key k \<Longrightarrow> escape_html k = k"
proof (induction k)
  case (Cons c cs)
  then have c: "plain_char c" "escape_html cs = cs" by (simp_all add: plain_key_def)
  have "of_char c < (128 :: nat)" using c(1) by (simp add: plain_char_def)
  then have "c \<noteq> CHR 0xE2" by auto
  moreover have "c \<notin> set ''<>&''" using c(1) by (simp add: plain_char_def)
  ultimately show ?case using c(2) by (simp add: escape_html_skip del: escape_html.simps)
qed simp

lemma escape_html_plain_inv: "plain_key (escape_html s) \<Longrightarrow> escape_html s = s"
proof (induction s rule: escape_html.induct)
  case (2 c cs)
  have "\<not> plain_key (u_escape r @ x)" for r x by (simp add: plain_key_def u_escape_def plain_char_def)
  with 2 show ?case by (auto simp: plain_key_def split: if_splits)
qed simp

lemma escape_html_eq_plain: "plain_key k \<Longrightarrow> escape_html a = k \<longleftrightarrow> a = k"
  using escape_html_plain [of k] escape_html_plain_inv [of a] by auto

lemma map_literals_JObj:
  "map_literals f (JObj ms) = JObj (map (\<lambda>(k, v). (f k, map_literals f v)) ms)"
  by (simp add: comp_def case_prod_unfold)

lemma go_map_snoc: "go_map (ms @ [(k, v)]) = AList.update (unquote k) v (go_map ms)"
  by (simp add: go_map_def)

lemma distinct_go_map: "distinct (map fst (go_map ms))"
  by (induction ms rule: rev_induct) (auto simp: go_map_snoc distinct_keys_update, simp add: go_map_def)

lemma set_go_map: "(k, v) \<in> set (go_map ms) \<Longrightarrow> \<exists>raw. (raw, v) \<in> set ms \<and> unquote raw = k"
proof (induction ms arbitrary: k v rule: rev_induct)
  case (snoc m ms)
  obtain k' v' where m: "m = (k', v')" by (cases m)
  have "map_of (go_map (ms @ [m])) k = Some v" using snoc.prems by (intro map_of_is_SomeI distinct_go_map)
  then have "k = unquote k' \<and> v = v' \<or> map_of (go_map ms) k = Some v" by (auto simp: m go_map_snoc split: if_splits)
  then show ?case using snoc.IH map_of_SomeD [of "go_map ms" k v] m by fastforce
qed (simp add: go_map_def)

lemma set_map_members: "(k, v) \<in> set (map_members m) \<Longrightarrow> raw_ok k \<and> (\<exists>k'. (k', v) \<in> set m)"
  by (auto simp: map_members_def raw_ok_quote_go)

definition raw_members :: "(string \<times> json) list \<Rightarrow> (bytes \<times> json) list" where
  "raw_members m = map (\<lambda>(k, v). (k, map_literals escape_html v)) (map_members m)"

lemma Unmarshal_Marshal_raw:
  assumes "\<forall>(k, v) \<in> set m. json_ok v"
  shows "Unmarshal (Marshal_raw m) = Some (JObj (raw_members m))"
proof -
  have "json_ok (JObj (raw_members m))"
    using assms set_map_members [of _ _ m]
    by (fastforce simp: raw_members_def intro: json_ok_map_literals raw_ok_escape_html)
  then show ?thesis by (simp add: Marshal_raw_def raw_members_def [symmetric] Unmarshal_json_text del: json_text_JObj)
qed

lemma map_of_raw_members:
  "distinct (map fst m) \<Longrightarrow> plain_key k \<Longrightarrow> map_of (raw_members m) k = map_option (map_literals escape_html) (map_of m k)"
  using map_of_renamed [where g = "\<lambda>k. k" and f = "map_literals escape_html", of k]
  by (simp add: raw_members_def map_of_members)

lemma json_ok_any:
  assumes "\<forall>l t. fmt l = Some t \<longrightarrow> number_ok t"
  shows "json_ok v \<Longrightarrow> any_ok fmt v \<Longrightarrow> json_ok (any_json fmt v)"
proof (induction v)
  case (JNum l)
  with assms show ?case by auto
next
  case (JArr vs)
  then show ?case by (auto simp: list_all_iff)
next
  case (JObj ms)
  have "json_ok w" if "(k, w) \<in> set (map (map_prod id (any_json fmt)) ms)" for k w
  proof -
    from that obtain v where "(k, v) \<in> set ms" "w = any_json fmt v" by auto
    moreover from this JObj.prems have "json_ok v" "any_ok fmt v" by (auto simp: list_all_iff)
    ultimately show ?thesis using JObj.IH [of "(k, v)" v] by (simp add: snds.intros)
  qed
  then show ?case by (fastforce dest: set_map_members set_go_map)
qed (auto simp: raw_ok_quote_go)

end
