(* ===== verification/Gateway_SSE.thy ===== *)
theory Gateway_SSE
  imports Gateway_Catalog Store_Log Go_Json
begin

text \<open>
  The streaming relay (\<^verbatim>\<open>src/internal/gateway/sse.go\<close> and the relay functions of
  \<^verbatim>\<open>src/internal/gateway/proxy.go\<close>): reading lines of any length through a buffered reader, the
  writer shared with the keep-alive ticker, the classification of frames, and the accounting
  at the end of a stream.
\<close>

abbreviation newline :: char where "newline \<equiv> CHR 0x0A"

subsection \<open>Reading lines\<close>

text \<open>
  A \<^verbatim>\<open>bufio.Reader\<close> over the bytes still to come, with a buffer of \<open>n\<close> bytes and the error \<open>fin\<close>
  the source ends with. \<^verbatim>\<open>ReadSlice\<close> returns up to the newline when it lies within the buffer, a
  full buffer with \<open>ErrBufferFull\<close> when it does not, and otherwise the rest with the final error.
\<close>

datatype read_error = ErrBufferFull | EOF | ReadErr string

definition ReadSlice :: "nat \<Rightarrow> bytes \<Rightarrow> read_error \<Rightarrow> bytes \<times> read_error option \<times> bytes" where
  "ReadSlice n inp fin =
     (case Index inp [newline] of
        Some i \<Rightarrow>
          if i < n then (take (Suc i) inp, None, drop (Suc i) inp)
          else (take n inp, Some ErrBufferFull, drop n inp)
      | None \<Rightarrow>
          if n \<le> length inp then (take n inp, Some ErrBufferFull, drop n inp)
          else (inp, Some fin, []))"

text \<open>
  The accumulation loop of \<^verbatim>\<open>readSSELine\<close>; every full buffer consumes \<open>n\<close> bytes. A final error
  of \<open>ErrBufferFull\<close> cannot come from the source, and \<open>n = 0\<close> is no buffer.
\<close>

function read_more :: "nat \<Rightarrow> bytes \<Rightarrow> read_error \<Rightarrow> bytes \<Rightarrow> bytes \<times> read_error option \<times> bytes" where
  "read_more n inp fin scratch =
     (case ReadSlice n inp fin of
        (line, err, rest) \<Rightarrow>
          if err = Some ErrBufferFull \<and> length rest < length inp
          then read_more n rest fin (scratch @ line)
          else (scratch @ line, err, rest))"
  by pat_completeness auto
termination
  by (relation "measure (\<lambda>(n, inp, fin, scratch). length inp)") auto

declare read_more.simps [simp del]

definition readSSELine :: "nat \<Rightarrow> bytes \<Rightarrow> read_error \<Rightarrow> bytes \<times> read_error option \<times> bytes" where
  "readSSELine n inp fin =
     (case ReadSlice n inp fin of
        (line, err, rest) \<Rightarrow>
          if err \<noteq> Some ErrBufferFull then (line, err, rest) else read_more n rest fin line)"

text \<open>What a line is, independently of any buffer.\<close>

definition next_line :: "bytes \<Rightarrow> read_error \<Rightarrow> bytes \<times> read_error option \<times> bytes" where
  "next_line inp fin =
     (case Index inp [newline] of
        Some i \<Rightarrow> (take (Suc i) inp, None, drop (Suc i) inp)
      | None \<Rightarrow> (inp, Some fin, []))"

lemma next_line_split: "next_line inp fin = (line, err, rest) \<Longrightarrow> inp = line @ rest"
  by (auto simp: next_line_def split: option.splits)

lemma Index_newline_drop:
  "Index inp [newline] = Some i \<Longrightarrow> n \<le> i \<Longrightarrow> Index (drop n inp) [newline] = Some (i - n)"
proof (induction inp arbitrary: n i)
  case (Cons c cs)
  then show ?case by (cases n) (auto simp: HasPrefix_def split: if_splits)
qed simp

lemma Index_newline_drop_None: "Index inp [newline] = None \<Longrightarrow> Index (drop n inp) [newline] = None"
  by (metis Contains_def Contains_single in_set_dropD)

lemma next_line_skip:
  assumes "case Index inp [newline] of Some i \<Rightarrow> n \<le> i | None \<Rightarrow> True" and "n \<le> length inp"
  shows "next_line inp fin = (case next_line (drop n inp) fin of (l, e, r) \<Rightarrow> (take n inp @ l, e, r))"
proof (cases "Index inp [newline]")
  case None
  then show ?thesis by (simp add: next_line_def Index_newline_drop_None)
next
  case (Some i)
  with assms have n: "n \<le> i" by simp
  have "take (Suc i) inp = take n inp @ take (Suc (i - n)) (drop n inp)"
    using n by (metis Suc_diff_le le_Suc_eq le_add_diff_inverse2 take_add add.commute le_SucI)
  with n Some Index_newline_drop [OF Some n] show ?thesis by (simp add: next_line_def Suc_diff_le)
qed

lemma ReadSlice_cases [consumes 1, case_names full line]:
  assumes "0 < n"
  obtains (full) "ReadSlice n inp fin = (take n inp, Some ErrBufferFull, drop n inp)" "n \<le> length inp"
      "next_line inp fin = (case next_line (drop n inp) fin of (l, e, r) \<Rightarrow> (take n inp @ l, e, r))"
  | (line) "ReadSlice n inp fin = next_line inp fin"
proof (cases "Index inp [newline]")
  case None
  then show thesis
    using full line next_line_skip [where inp = inp and n = n and fin = fin] by (cases "n \<le> length inp") (auto simp: ReadSlice_def next_line_def)
next
  case (Some i)
  have "i < length inp" using Index_bound [OF Some] by simp
  with Some show thesis
    using full line next_line_skip [where inp = inp and n = n and fin = fin] by (cases "i < n") (auto simp: ReadSlice_def next_line_def)
qed

lemma next_line_err: "fin \<noteq> ErrBufferFull \<Longrightarrow> next_line inp fin = (l, e, r) \<Longrightarrow> e \<noteq> Some ErrBufferFull"
  by (auto simp: next_line_def split: option.splits)

lemma read_more_eq:
  assumes "0 < n" and "fin \<noteq> ErrBufferFull"
  shows "read_more n inp fin scratch = (case next_line inp fin of (l, e, r) \<Rightarrow> (scratch @ l, e, r))"
  using assms
proof (induction "length inp" arbitrary: inp scratch rule: less_induct)
  case less
  from less.prems(1) show ?case
  proof (cases rule: ReadSlice_cases [where inp = inp and fin = fin])
    case full
    then have shorter: "length (drop n inp) < length inp" using less.prems by simp
    with full have "read_more n inp fin scratch = read_more n (drop n inp) fin (scratch @ take n inp)"
      by (simp only: read_more.simps [of n inp] split: prod.split) simp
    with less.hyps [OF shorter less.prems] full show ?thesis by (simp split: prod.splits)
  next
    case line
    obtain l e r where nl: "next_line inp fin = (l, e, r)" by (metis prod_cases3)
    with line next_line_err [OF less.prems(2) nl] show ?thesis by (simp add: read_more.simps [of n inp])
  qed
qed

text \<open>
  The relay reads whole lines whatever the size of its buffer: a line of any length, such as
  a frame with large tool-call arguments, is returned complete with its newline, and only the
  last line of a stream can come with the error the stream ended with.
\<close>

theorem readSSELine_whole_line:
  assumes "0 < n" and "fin \<noteq> ErrBufferFull"
  shows "readSSELine n inp fin = next_line inp fin"
  using assms(1)
proof (cases rule: ReadSlice_cases [where inp = inp and fin = fin])
  case full
  then show ?thesis by (simp add: readSSELine_def read_more_eq [OF assms])
next
  case line
  obtain l e r where nl: "next_line inp fin = (l, e, r)" by (metis prod_cases3)
  with line next_line_err [OF assms(2) nl] show ?thesis by (simp add: readSSELine_def)
qed

theorem readSSELine_whole_line_witness:
  "readSSELine 4 (''data: x'' @ [newline] @ ''tail'') EOF = (''data: x'' @ [newline], None, ''tail'')"
proof -
  have "next_line (''data: x'' @ [newline] @ ''tail'') EOF = (''data: x'' @ [newline], None, ''tail'')"
    by code_simp
  then show ?thesis using readSSELine_whole_line [of 4 EOF] by simp
qed

subsection \<open>The shared writer\<close>

text \<open>
  \<open>sw_frames\<close> is what reached the client. The outcome of a write and its flush is an argument; an
  error sticks.
\<close>

record sseWriter =
  sw_frames :: "bytes list"
  sw_last :: time
  sw_err :: bool

definition newSSEWriter :: "time \<Rightarrow> sseWriter" where
  "newSSEWriter now = \<lparr>sw_frames = [], sw_last = now, sw_err = False\<rparr>"

definition WriteFlush :: "bool \<Rightarrow> time \<Rightarrow> bytes \<Rightarrow> sseWriter \<Rightarrow> bool \<times> sseWriter" where
  "WriteFlush ok now p s =
     (if sw_err s then (False, s)
      else if \<not> ok then (False, s\<lparr>sw_err := True\<rparr>)
      else (True, s\<lparr>sw_frames := sw_frames s @ [p], sw_last := now\<rparr>))"

definition keepalive_frame :: bytes where
  "keepalive_frame = '': keepalive'' @ [newline, newline]"

definition KeepAliveIfIdle :: "duration \<Rightarrow> bool \<Rightarrow> time \<Rightarrow> sseWriter \<Rightarrow> sseWriter" where
  "KeepAliveIfIdle idle ok now s =
     (if now - sw_last s < idle then s else snd (WriteFlush ok now keepalive_frame s))"

definition Err :: "sseWriter \<Rightarrow> bool" where
  "Err s = sw_err s"

subsection \<open>Frames\<close>

definition json_key :: "string \<Rightarrow> bytes" where
  "json_key name = [quote] @ name @ [quote] @ '':''"

definition dataPrefix :: bytes where "dataPrefix = ''data: ''"
definition doneMarker :: bytes where "doneMarker = ''[DONE]''"
definition usageKey :: bytes where "usageKey = json_key ''usage''"
definition usageNull :: bytes where "usageNull = json_key ''usage'' @ ''null''"
definition tokContent :: bytes where "tokContent = json_key ''content'' @ [quote]"
definition emptyContent :: bytes where "emptyContent = json_key ''content'' @ [quote, quote]"
definition tokReasoning :: bytes where "tokReasoning = json_key ''reasoning_content'' @ [quote]"
definition emptyReason :: bytes where "emptyReason = json_key ''reasoning_content'' @ [quote, quote]"
definition tokToolCalls :: bytes where "tokToolCalls = json_key ''tool_calls''"

definition sseData :: "bytes \<Rightarrow> bytes option" where
  "sseData line =
     (let trimmed = TrimRight line [CHR 0x0D, newline]
      in if \<not> HasPrefix trimmed dataPrefix then None
         else Some (TrimSpace (drop (length dataPrefix) trimmed)))"

definition hasUsage :: "bytes \<Rightarrow> bool" where
  "hasUsage payload \<longleftrightarrow> Contains payload usageKey \<and> \<not> Contains payload usageNull"

definition carriesToken :: "bytes \<Rightarrow> bool" where
  "carriesToken payload \<longleftrightarrow>
     Contains payload tokContent \<and> \<not> Contains payload emptyContent \<or>
     Contains payload tokReasoning \<and> \<not> Contains payload emptyReason \<or>
     Contains payload tokToolCalls"

subsection \<open>Usage\<close>

record usageInfo =
  u_PromptTokens :: int
  u_CompletionTokens :: int
  u_TotalTokens :: int
  u_CachedTokens :: "int option"
  u_ReasoningTokens :: "int option"

definition cached :: "usageInfo \<Rightarrow> int" where
  "cached u = (case u_CachedTokens u of Some n \<Rightarrow> n | None \<Rightarrow> 0)"

definition reasoning :: "usageInfo \<Rightarrow> int" where
  "reasoning u = (case u_ReasoningTokens u of Some n \<Rightarrow> n | None \<Rightarrow> 0)"

definition zero_usage :: usageInfo where
  "zero_usage = \<lparr>u_PromptTokens = 0, u_CompletionTokens = 0, u_TotalTokens = 0, u_CachedTokens = None,
     u_ReasoningTokens = None\<rparr>"

definition dec_one :: "string \<Rightarrow> json \<Rightarrow> int \<Rightarrow> int option" where
  "dec_one name = dec_struct (\<lambda>k v n. if key_is name k then dec_int v n else Some n)"

definition dec_usage :: "json \<Rightarrow> usageInfo \<Rightarrow> usageInfo option" where
  "dec_usage = dec_struct (\<lambda>k v u.
     if key_is ''prompt_tokens'' k then map_option (\<lambda>n. u\<lparr>u_PromptTokens := n\<rparr>) (dec_int v (u_PromptTokens u))
     else if key_is ''completion_tokens'' k then map_option (\<lambda>n. u\<lparr>u_CompletionTokens := n\<rparr>) (dec_int v (u_CompletionTokens u))
     else if key_is ''total_tokens'' k then map_option (\<lambda>n. u\<lparr>u_TotalTokens := n\<rparr>) (dec_int v (u_TotalTokens u))
     else if key_is ''prompt_tokens_details'' k then
       map_option (\<lambda>n. u\<lparr>u_CachedTokens := n\<rparr>) (dec_ptr (dec_one ''cached_tokens'') 0 v (u_CachedTokens u))
     else if key_is ''completion_tokens_details'' k then
       map_option (\<lambda>n. u\<lparr>u_ReasoningTokens := n\<rparr>) (dec_ptr (dec_one ''reasoning_tokens'') 0 v (u_ReasoningTokens u))
     else Some u)"

definition parseUsage :: "bytes \<Rightarrow> usageInfo option" where
  "parseUsage payload =
     (case Unmarshal payload of
        None \<Rightarrow> None
      | Some v \<Rightarrow>
          (case dec_struct (\<lambda>k w u. if key_is ''usage'' k then dec_ptr dec_usage zero_usage w u else Some u) v None of
             None \<Rightarrow> None
           | Some u \<Rightarrow> u))"

definition usage_of_record :: "usageInfo \<Rightarrow> Record \<Rightarrow> Record" where
  "usage_of_record u rec =
     rec\<lparr>r_PromptTokens := u_PromptTokens u, r_CompletionTokens := u_CompletionTokens u,
         r_CachedTokens := cached u, r_ReasoningTokens := reasoning u\<rparr>"

definition with_cost :: "Entry \<Rightarrow> Record \<Rightarrow> Record" where
  "with_cost e rec =
     rec\<lparr>r_TPS := (if r_TotalMs rec > 0 \<and> r_CompletionTokens rec > 0
                   then f_div (f_of_int (r_CompletionTokens rec)) (f_div (f_of_int (r_TotalMs rec)) 1000)
                   else r_TPS rec),
         r_CostUSD := Cost e (r_PromptTokens rec) (r_CompletionTokens rec) (r_CachedTokens rec) (r_ReasoningTokens rec)\<rparr>"

definition Milliseconds :: "duration \<Rightarrow> int" where
  "Milliseconds d = go_div d millisecond"

subsection \<open>The relay loop\<close>

text \<open>
  What the loop and the ticker see, in the order in which it happens: a line of the upstream
  with the error it came with, the time, the outcome of writing it and whether the client's
  context is cancelled by then; or a tick of the keep-alive timer.
\<close>

datatype relay_event =
    Line bytes "read_error option" time bool bool
  | KeepAliveTick time bool

record relay =
  rl_writer :: sseWriter
  rl_usage :: "usageInfo option"
  rl_first :: "time option"
  rl_last :: "time option"
  rl_chunks :: int

datatype relay_end = Finished | ClientGone | Broken string

fun error_string :: "read_error \<Rightarrow> string" where
  "error_string ErrBufferFull = ''bufio: buffer full''"
| "error_string EOF = ''EOF''"
| "error_string (ReadErr e) = e"

text \<open>One line, with whether the loop goes on.\<close>

definition relay_line :: "Entry \<Rightarrow> bool \<Rightarrow> bytes \<Rightarrow> time \<Rightarrow> bool \<Rightarrow> relay \<Rightarrow> bool \<times> relay" where
  "relay_line e dropUsage line now ok s =
     (if line = [] then (True, s)
      else case sseData line of
        None \<Rightarrow>
          (case WriteFlush ok now line (rl_writer s) of (wok, w) \<Rightarrow> (wok, s\<lparr>rl_writer := w\<rparr>))
      | Some payload \<Rightarrow>
          if payload = doneMarker then (True, s\<lparr>rl_writer := snd (WriteFlush ok now line (rl_writer s))\<rparr>)
          else if hasUsage payload then
            (True, s\<lparr>rl_usage := (case parseUsage payload of Some u \<Rightarrow> Some u | None \<Rightarrow> rl_usage s),
                     rl_writer := (if dropUsage then rl_writer s
                                   else snd (WriteFlush ok now (PatchModelName e line) (rl_writer s)))\<rparr>)
          else
            (case WriteFlush ok now (PatchModelName e line) (rl_writer s) of
               (wok, w) \<Rightarrow>
                 (wok, if carriesToken payload
                       then s\<lparr>rl_first := (case rl_first s of None \<Rightarrow> Some now | Some t \<Rightarrow> Some t),
                              rl_last := Some now, rl_chunks := rl_chunks s + 1, rl_writer := w\<rparr>
                       else s\<lparr>rl_writer := w\<rparr>)))"

fun relay_loop :: "duration \<Rightarrow> Entry \<Rightarrow> bool \<Rightarrow> relay_event list \<Rightarrow> relay \<Rightarrow> (relay_end \<times> relay) option" where
  "relay_loop idle e dropUsage [] s = None"
| "relay_loop idle e dropUsage (KeepAliveTick now ok # evs) s =
     relay_loop idle e dropUsage evs (s\<lparr>rl_writer := KeepAliveIfIdle idle ok now (rl_writer s)\<rparr>)"
| "relay_loop idle e dropUsage (Line line err now ok cancelled # evs) s =
     (case relay_line e dropUsage line now ok s of
        (goes_on, s) \<Rightarrow>
          if \<not> goes_on then Some (ClientGone, s)
          else case err of
            None \<Rightarrow> relay_loop idle e dropUsage evs s
          | Some er \<Rightarrow>
              Some (if er = EOF then Finished else if cancelled then ClientGone else Broken (error_string er), s))"

definition finishStream :: "time \<Rightarrow> Entry \<Rightarrow> relay \<Rightarrow> Record \<Rightarrow> Record" where
  "finishStream now e s rec =
     (let rec = rec\<lparr>r_TotalMs := Milliseconds (now - r_TS rec)\<rparr>;
          rec = (case (rl_first s, rl_last s) of
                   (Some f, Some l) \<Rightarrow> rec\<lparr>r_TTFTMs := Milliseconds (f - r_TS rec), r_GenMs := Milliseconds (l - f)\<rparr>
                 | _ \<Rightarrow> rec);
          rec = (case rl_usage s of
                   Some u \<Rightarrow> usage_of_record u rec
                 | None \<Rightarrow> rec\<lparr>r_CompletionTokens := rl_chunks s\<rparr>)
      in with_cost e rec)"

definition end_status :: "relay_end \<Rightarrow> Record \<Rightarrow> Record" where
  "end_status r rec =
     (case r of
        Finished \<Rightarrow> rec
      | ClientGone \<Rightarrow> rec\<lparr>r_Status := 499, r_Error := ''client disconnected''\<rparr>
      | Broken msg \<Rightarrow> rec\<lparr>r_Status := 500, r_Error := msg\<rparr>)"

definition relay_init :: "time \<Rightarrow> relay" where
  "relay_init now = \<lparr>rl_writer = newSSEWriter now, rl_usage = None, rl_first = None, rl_last = None, rl_chunks = 0\<rparr>"

text \<open>
  \<^verbatim>\<open>relayStream\<close>: the record and the frames sent, once the stream has ended; \<open>None\<close> while events are
  still to come. \<open>now0\<close> is the time at which the writer is made, \<open>now\<close> the time of the end.
\<close>

definition relayStream ::
  "duration \<Rightarrow> Entry \<Rightarrow> bool \<Rightarrow> time \<Rightarrow> time \<Rightarrow> relay_event list \<Rightarrow> Record \<Rightarrow> (Record \<times> bytes list) option" where
  "relayStream idle e dropUsage now0 now evs rec =
     (case relay_loop idle e dropUsage evs (relay_init now0) of
        None \<Rightarrow> None
      | Some (r, s) \<Rightarrow> Some (finishStream now e s (end_status r rec), sw_frames (rl_writer s)))"

text \<open>
  \<^verbatim>\<open>relayJSON\<close>: the body or the error of reading it; what is written is the status, the body and
  whether the refusal \<open>writeError\<close> replaced it.
\<close>

definition relayJSON :: "Entry \<Rightarrow> time \<Rightarrow> string + bytes \<Rightarrow> Record \<Rightarrow> Record \<times> bytes option" where
  "relayJSON e now body rec =
     (case body of
        Inl err \<Rightarrow> (rec\<lparr>r_Status := 502, r_Error := err, r_TotalMs := Milliseconds (now - r_TS rec)\<rparr>, None)
      | Inr b \<Rightarrow>
          let rec = rec\<lparr>r_TotalMs := Milliseconds (now - r_TS rec)\<rparr>;
              rec = (case parseUsage b of Some u \<Rightarrow> usage_of_record u rec | None \<Rightarrow> rec)
          in (with_cost e rec, Some (PatchModelName e b)))"

subsection \<open>What the client receives\<close>

text \<open>The frames one line contributes, and those of a run up to the line the stream ends with.\<close>

definition frame_of :: "Entry \<Rightarrow> bool \<Rightarrow> bytes \<Rightarrow> bytes list" where
  "frame_of e dropUsage line =
     (if line = [] then []
      else case sseData line of
        None \<Rightarrow> [line]
      | Some payload \<Rightarrow>
          if payload = doneMarker then [line]
          else if hasUsage payload \<and> dropUsage then [] else [PatchModelName e line])"

fun consumed :: "relay_event list \<Rightarrow> (bytes \<times> time) list" where
  "consumed [] = []"
| "consumed (KeepAliveTick t ok # evs) = consumed evs"
| "consumed (Line line err now ok c # evs) = (line, now) # (if err = None then consumed evs else [])"

definition forwarded :: "Entry \<Rightarrow> bool \<Rightarrow> relay_event list \<Rightarrow> bytes list" where
  "forwarded e dropUsage evs = concat (map (frame_of e dropUsage \<circ> fst) (consumed evs))"

lemma forwarded_Line:
  "forwarded e d (Line line err now ok c # evs) = frame_of e d line @ (if err = None then forwarded e d evs else [])"
  by (cases err) (simp_all add: forwarded_def)

lemma forwarded_Tick [simp]: "forwarded e d (KeepAliveTick t ok # evs) = forwarded e d evs"
  by (simp add: forwarded_def)

lemma WriteFlush_cases:
  obtains (sent) "\<not> sw_err w" "WriteFlush ok now p w = (True, w\<lparr>sw_frames := sw_frames w @ [p], sw_last := now\<rparr>)"
  | (failed) w' where "WriteFlush ok now p w = (False, w')" "sw_err w'" "sw_frames w' = sw_frames w"
  by (cases "sw_err w"; cases ok) (auto simp: WriteFlush_def)

text \<open>
  A line is sent whole or not at all, and the loop stops when a frame other than a usage frame
  or the end marker cannot be sent.
\<close>

lemma relay_line_writer:
  assumes "relay_line e d line now ok s = (goes_on, s')"
  shows "(frame_of e d line = [] \<and> rl_writer s' = rl_writer s \<and> goes_on) \<or>
    (\<exists>f. frame_of e d line = [f] \<and> rl_writer s' = snd (WriteFlush ok now f (rl_writer s)) \<and>
       (fst (WriteFlush ok now f (rl_writer s)) \<longrightarrow> goes_on))"
proof (cases "line = []")
  case False
  show ?thesis
  proof (cases "sseData line")
    case None
    with False assms show ?thesis by (auto simp: relay_line_def frame_of_def split: prod.splits)
  next
    case (Some payload)
    consider "payload = doneMarker" | "payload \<noteq> doneMarker" "hasUsage payload" | "payload \<noteq> doneMarker" "\<not> hasUsage payload"
      by blast
    then show ?thesis
      using False Some assms
      by cases (auto simp: relay_line_def frame_of_def split: prod.splits)
  qed
qed (use assms in \<open>simp add: relay_line_def frame_of_def\<close>)

lemma relay_line_frames:
  assumes "relay_line e d line now ok s = (goes_on, s')"
  shows "(sw_frames (rl_writer s') = sw_frames (rl_writer s) @ frame_of e d line \<and> sw_err (rl_writer s') = sw_err (rl_writer s) \<and> goes_on)
    \<or> (sw_frames (rl_writer s') = sw_frames (rl_writer s) \<and> sw_err (rl_writer s'))"
  using relay_line_writer [OF assms]
proof (elim disjE exE conjE)
  fix f
  assume "frame_of e d line = [f]" "rl_writer s' = snd (WriteFlush ok now f (rl_writer s))"
    "fst (WriteFlush ok now f (rl_writer s)) \<longrightarrow> goes_on"
  then show ?thesis by (cases rule: WriteFlush_cases [of "rl_writer s" ok now f]) auto
qed auto

lemma KeepAlive_frames:
  "(sw_frames (KeepAliveIfIdle idle ok now w) = sw_frames w \<and> (sw_err w \<longrightarrow> sw_err (KeepAliveIfIdle idle ok now w))) \<or>
   (sw_frames (KeepAliveIfIdle idle ok now w) = sw_frames w @ [keepalive_frame] \<and>
    sw_err (KeepAliveIfIdle idle ok now w) = sw_err w)"
  by (auto simp: KeepAliveIfIdle_def WriteFlush_def)

lemma relay_line_err:
  assumes "relay_line e d line now ok s = (goes_on, s')" and "sw_err (rl_writer s)"
  shows "sw_err (rl_writer s') \<and> sw_frames (rl_writer s') = sw_frames (rl_writer s)"
  using relay_line_writer [OF assms(1)] assms(2) by (auto simp: WriteFlush_def)

lemma shuffles_prepend: "new \<in> shuffles xs ys \<Longrightarrow> zs @ new \<in> shuffles (zs @ xs) ys"
  by (induction zs) (auto simp: Cons_in_shuffles_leftI)

lemma relay_loop_err:
  "relay_loop idle e d evs s = Some (r, s') \<Longrightarrow> sw_err (rl_writer s) \<Longrightarrow>
   sw_err (rl_writer s') \<and> sw_frames (rl_writer s') = sw_frames (rl_writer s)"
proof (induction idle e d evs s rule: relay_loop.induct)
  case (2 idle e d now ok evs s)
  then show ?case by (auto simp: KeepAliveIfIdle_def WriteFlush_def split: if_splits)
next
  case (3 idle e d line err now ok c evs s)
  obtain g t where t: "relay_line e d line now ok s = (g, t)" by fastforce
  from relay_line_err [OF t 3(3)] show ?case using 3(1) [OF t [symmetric]] 3(2) t
    by (auto split: if_splits option.splits)
qed simp

lemma relay_loop_frames:
  assumes "relay_loop idle e d evs s = Some (r, s')"
  shows "\<exists>new n k. sw_frames (rl_writer s') = sw_frames (rl_writer s) @ new \<and>
    new \<in> shuffles (take n (forwarded e d evs)) (replicate k keepalive_frame) \<and>
    (\<not> sw_err (rl_writer s') \<longrightarrow> n = length (forwarded e d evs))"
  using assms
proof (induction idle e d evs s rule: relay_loop.induct)
  case (2 idle e d now ok evs s)
  let ?w = "KeepAliveIfIdle idle ok now (rl_writer s)"
  obtain new n k where IH: "sw_frames (rl_writer s') = sw_frames ?w @ new"
      "new \<in> shuffles (take n (forwarded e d evs)) (replicate k keepalive_frame)"
      "\<not> sw_err (rl_writer s') \<longrightarrow> n = length (forwarded e d evs)"
    using 2 by auto
  from KeepAlive_frames [of idle ok now "rl_writer s"] show ?case
  proof (elim disjE conjE)
    assume "sw_frames ?w = sw_frames (rl_writer s) @ [keepalive_frame]"
    moreover have "keepalive_frame # new \<in> shuffles (take n (forwarded e d evs)) (replicate (Suc k) keepalive_frame)"
      using IH(2) by (simp add: Cons_in_shuffles_rightI)
    ultimately show ?thesis using IH by (intro exI [of _ "keepalive_frame # new"] exI [of _ n] exI [of _ "Suc k"]) simp
  qed (use IH in auto)
next
  case (3 idle e d line err now ok c evs s)
  obtain g t where t: "relay_line e d line now ok s = (g, t)" by fastforce
  note line = relay_line_frames [OF t]
  show ?case
  proof (cases "sw_err (rl_writer t) \<and> sw_frames (rl_writer t) = sw_frames (rl_writer s)")
    case True
    then have "sw_err (rl_writer s') \<and> sw_frames (rl_writer s') = sw_frames (rl_writer s)"
      using 3(2) t relay_loop_err [of idle e d evs t r s'] by (auto split: if_splits option.splits)
    then show ?thesis by (intro exI [of _ "[]"] exI [of _ 0] exI [of _ 0]) simp
  next
    case False
    with line have g: "g" and fr: "sw_frames (rl_writer t) = sw_frames (rl_writer s) @ frame_of e d line" by auto
    show ?thesis
    proof (cases err)
      case None
      with 3(1) [OF t [symmetric] _ None] 3(2) t g obtain new n k where IH:
          "sw_frames (rl_writer s') = sw_frames (rl_writer t) @ new"
          "new \<in> shuffles (take n (forwarded e d evs)) (replicate k keepalive_frame)"
          "\<not> sw_err (rl_writer s') \<longrightarrow> n = length (forwarded e d evs)"
        by auto
      have "frame_of e d line @ new \<in> shuffles (frame_of e d line @ take n (forwarded e d evs)) (replicate k keepalive_frame)"
        using IH(2) by (rule shuffles_prepend)
      with IH fr None show ?thesis
        by (intro exI [of _ "frame_of e d line @ new"] exI [of _ "length (frame_of e d line) + n"] exI [of _ k])
          (simp add: forwarded_Line)
    next
      case (Some er)
      with 3(2) t g have "s' = t" by (auto split: if_splits)
      with fr Some show ?thesis
        by (intro exI [of _ "frame_of e d line"] exI [of _ "length (frame_of e d line)"] exI [of _ 0])
          (simp add: forwarded_Line)
    qed
  qed
qed simp

fun write_ok :: "relay_event \<Rightarrow> bool" where
  "write_ok (Line line err now ok c) = ok"
| "write_ok (KeepAliveTick now ok) = ok"

lemma relay_line_ok:
  assumes "relay_line e d line now True s = (goes_on, s')" and "\<not> sw_err (rl_writer s)"
  shows "goes_on \<and> \<not> sw_err (rl_writer s')"
  using relay_line_writer [OF assms(1)] assms(2) by (auto simp: WriteFlush_def)

lemma relay_loop_ok:
  "relay_loop idle e d evs s = Some (r, s') \<Longrightarrow> \<not> sw_err (rl_writer s) \<Longrightarrow> \<forall>ev \<in> set evs. write_ok ev \<Longrightarrow>
   \<not> sw_err (rl_writer s')"
proof (induction idle e d evs s rule: relay_loop.induct)
  case (2 idle e d now ok evs s)
  then show ?case by (auto simp: KeepAliveIfIdle_def WriteFlush_def split: if_splits)
next
  case (3 idle e d line err now ok c evs s)
  obtain g t where t: "relay_line e d line now ok s = (g, t)" by fastforce
  have "g \<and> \<not> sw_err (rl_writer t)" using relay_line_ok [of e d line now s g t] 3(3,4) t by simp
  then show ?case using 3(1) [OF t [symmetric]] 3(2,4) t by (auto split: if_splits option.splits)
qed simp

text \<open>
  C4: the client receives the upstream's lines in order and unchanged but for the model name,
  the usage frames left out exactly when they were not asked for, with nothing in between but
  keep-alive comments; when a write fails it has received a prefix of that, and when none fails
  all of it.
\<close>

theorem relay_transparent:
  assumes "relayStream idle e dropUsage now0 now evs rec = Some (rec', frames)"
  shows "\<exists>n k. frames \<in> shuffles (take n (forwarded e dropUsage evs)) (replicate k keepalive_frame) \<and>
    ((\<forall>ev \<in> set evs. write_ok ev) \<longrightarrow> n = length (forwarded e dropUsage evs))"
proof -
  obtain r s where l: "relay_loop idle e dropUsage evs (relay_init now0) = Some (r, s)"
    and f: "frames = sw_frames (rl_writer s)"
    using assms by (auto simp: relayStream_def split: option.splits)
  show ?thesis
    using relay_loop_frames [OF l] relay_loop_ok [OF l] f by (auto simp: relay_init_def newSSEWriter_def)
qed

subsection \<open>Accounting\<close>

definition usage_in :: "bytes \<Rightarrow> usageInfo option" where
  "usage_in line =
     (if line = [] then None
      else case sseData line of
        None \<Rightarrow> None
      | Some payload \<Rightarrow> if payload \<noteq> doneMarker \<and> hasUsage payload then parseUsage payload else None)"

definition token_line :: "bytes \<Rightarrow> bool" where
  "token_line line \<longleftrightarrow>
     line \<noteq> [] \<and>
     (case sseData line of
        None \<Rightarrow> False
      | Some payload \<Rightarrow> payload \<noteq> doneMarker \<and> \<not> hasUsage payload \<and> carriesToken payload)"

definition usages :: "(bytes \<times> time) list \<Rightarrow> usageInfo list" where
  "usages ls = List.map_filter (usage_in \<circ> fst) ls"

definition token_times :: "(bytes \<times> time) list \<Rightarrow> time list" where
  "token_times ls = map snd (filter (token_line \<circ> fst) ls)"

definition account :: "(bytes \<times> time) list \<Rightarrow> relay \<Rightarrow> relay" where
  "account ls s =
     s\<lparr>rl_usage := (if usages ls = [] then rl_usage s else Some (last (usages ls))),
       rl_first := (case rl_first s of Some t \<Rightarrow> Some t
                    | None \<Rightarrow> if token_times ls = [] then None else Some (hd (token_times ls))),
       rl_last := (if token_times ls = [] then rl_last s else Some (last (token_times ls))),
       rl_chunks := rl_chunks s + int (length (token_times ls))\<rparr>"

lemma account_Nil [simp]: "account [] s = s"
  by (simp add: account_def usages_def token_times_def map_filter_simps split: option.split)

lemma account_Cons: "account (l # ls) s = account ls (account [l] s)"
  by (cases l) (auto simp: account_def usages_def token_times_def map_filter_simps split: option.splits)

lemma account_writer [simp]: "account ls (s\<lparr>rl_writer := w\<rparr>) = (account ls s)\<lparr>rl_writer := w\<rparr>"
  by (simp add: account_def)

lemma relay_line_account:
  assumes "relay_line e d line now ok s = (goes_on, s')"
  shows "s'\<lparr>rl_writer := w\<rparr> = (account [(line, now)] s)\<lparr>rl_writer := w\<rparr>"
proof (cases "line = []")
  case False
  show ?thesis
  proof (cases "sseData line")
    case None
    with False assms show ?thesis
      by (auto simp: relay_line_def account_def usages_def token_times_def usage_in_def token_line_def map_filter_simps
          split: prod.splits option.splits)
  next
    case (Some payload)
    consider "payload = doneMarker" | "payload \<noteq> doneMarker" "hasUsage payload" | "payload \<noteq> doneMarker" "\<not> hasUsage payload"
      by blast
    then show ?thesis
      using False Some assms
      by cases (auto simp: relay_line_def account_def usages_def token_times_def usage_in_def token_line_def
          map_filter_simps split: prod.splits option.splits if_splits)
  qed
qed (use assms in \<open>auto simp: relay_line_def account_def usages_def token_times_def usage_in_def token_line_def
       map_filter_simps split: option.splits\<close>)

lemma relay_loop_account:
  "relay_loop idle e d evs s = Some (r, s') \<Longrightarrow> \<not> sw_err (rl_writer s) \<Longrightarrow> \<forall>ev \<in> set evs. write_ok ev \<Longrightarrow>
   s'\<lparr>rl_writer := w\<rparr> = (account (consumed evs) s)\<lparr>rl_writer := w\<rparr>"
proof (induction idle e d evs s rule: relay_loop.induct)
  case (2 idle e d now ok evs s)
  then show ?case by (auto simp: KeepAliveIfIdle_def WriteFlush_def split: if_splits)
next
  case (3 idle e d line err now ok c evs s)
  obtain g t where t: "relay_line e d line now ok s = (g, t)" by fastforce
  have g: "g \<and> \<not> sw_err (rl_writer t)" using relay_line_ok [of e d line now s g t] 3(3,4) t by simp
  note acc = relay_line_account [OF t]
  show ?case
  proof (cases err)
    case None
    have "s'\<lparr>rl_writer := w\<rparr> = (account (consumed evs) t)\<lparr>rl_writer := w\<rparr>"
      using 3(1) [OF t [symmetric] _ None] 3(2,4) t g None by auto
    also have "\<dots> = account (consumed evs) (t\<lparr>rl_writer := w\<rparr>)" by simp
    also have "\<dots> = (account ((line, now) # consumed evs) s)\<lparr>rl_writer := w\<rparr>"
      by (subst account_Cons) (simp add: acc)
    finally show ?thesis using None by simp
  next
    case (Some er)
    with 3(2) t g have "s' = t" by (auto split: if_splits)
    with acc Some show ?thesis by simp
  qed
qed simp

text \<open>How the upstream ended the stream, if it did.\<close>

fun ending :: "relay_event list \<Rightarrow> relay_end option" where
  "ending [] = None"
| "ending (KeepAliveTick now ok # evs) = ending evs"
| "ending (Line line err now ok cancelled # evs) =
     (case err of
        None \<Rightarrow> ending evs
      | Some er \<Rightarrow> Some (if er = EOF then Finished else if cancelled then ClientGone else Broken (error_string er)))"

lemma relay_loop_ending:
  "relay_loop idle e d evs s = Some (r, s') \<Longrightarrow> \<not> sw_err (rl_writer s) \<Longrightarrow> \<forall>ev \<in> set evs. write_ok ev \<Longrightarrow>
   ending evs = Some r"
proof (induction idle e d evs s rule: relay_loop.induct)
  case (2 idle e d now ok evs s)
  then show ?case by (auto simp: KeepAliveIfIdle_def WriteFlush_def split: if_splits)
next
  case (3 idle e d line err now ok c evs s)
  obtain g t where t: "relay_line e d line now ok s = (g, t)" by fastforce
  have "g \<and> \<not> sw_err (rl_writer t)" using relay_line_ok [of e d line now s g t] 3(3,4) t by simp
  then show ?case using 3(1) [OF t [symmetric]] 3(2,4) t by (auto split: option.splits)
qed simp

lemma relay_loop_returns: "ending evs \<noteq> None \<Longrightarrow> relay_loop idle e d evs s \<noteq> None"
proof (induction idle e d evs s rule: relay_loop.induct)
  case (3 idle e d line err now ok c evs s)
  obtain g t where t: "relay_line e d line now ok s = (g, t)" by fastforce
  with 3 show ?case by (auto split: option.splits)
qed simp_all


lemma with_cost_fields [simp]:
  "r_PromptTokens (with_cost e rec) = r_PromptTokens rec" "r_CompletionTokens (with_cost e rec) = r_CompletionTokens rec"
  "r_CachedTokens (with_cost e rec) = r_CachedTokens rec" "r_ReasoningTokens (with_cost e rec) = r_ReasoningTokens rec"
  "r_Status (with_cost e rec) = r_Status rec" "r_TTFTMs (with_cost e rec) = r_TTFTMs rec"
  "r_CostUSD (with_cost e rec) =
     Cost e (r_PromptTokens rec) (r_CompletionTokens rec) (r_CachedTokens rec) (r_ReasoningTokens rec)"
  by (simp_all add: with_cost_def)

lemma usage_of_record_fields [simp]:
  "r_PromptTokens (usage_of_record u rec) = u_PromptTokens u" "r_CompletionTokens (usage_of_record u rec) = u_CompletionTokens u"
  "r_CachedTokens (usage_of_record u rec) = cached u" "r_ReasoningTokens (usage_of_record u rec) = reasoning u"
  "r_Status (usage_of_record u rec) = r_Status rec" "r_TTFTMs (usage_of_record u rec) = r_TTFTMs rec"
  by (simp_all add: usage_of_record_def)

lemma end_status_fields [simp]:
  "r_PromptTokens (end_status r rec) = r_PromptTokens rec" "r_CachedTokens (end_status r rec) = r_CachedTokens rec"
  "r_ReasoningTokens (end_status r rec) = r_ReasoningTokens rec" "r_TS (end_status r rec) = r_TS rec"
  "r_TTFTMs (end_status r rec) = r_TTFTMs rec"
  by (simp_all add: end_status_def split: relay_end.split)


subsection \<open>A concrete stream\<close>

definition ticked :: "string \<Rightarrow> bytes" where
  "ticked t = map (\<lambda>c. if c = CHR ''`'' then quote else c) t"

definition sample_stream :: "relay_event list" where
  "sample_stream =
     [Line (ticked ''data: {`content`:`Hi`}'' @ [newline]) None 5000000 True False,
      KeepAliveTick 6000000 True,
      Line (ticked ''data: {`usage`:{`prompt_tokens`:3,`completion_tokens`:2}}'' @ [newline]) None 7000000 True False,
      Line (''data: [DONE]'' @ [newline]) None 8000000 True False,
      Line [] (Some EOF) 9000000 True False]"

lemma sample_stream_facts:
  "usages (consumed sample_stream) = [zero_usage\<lparr>u_PromptTokens := 3, u_CompletionTokens := 2\<rparr>]"
  "token_times (consumed sample_stream) = [5000000]"
  "ending sample_stream = Some Finished"
  "\<forall>ev \<in> set sample_stream. write_ok ev"
  by code_simp+

lemma sample_forwarded:
  "forwarded sample_entry_cfg True sample_stream = [ticked ''data: {`content`:`Hi`}'' @ [newline], ''data: [DONE]'' @ [newline]]"
  by code_simp


theorem relay_transparent_witness:
  "\<exists>rec' frames k. relayStream (15 * second) sample_entry_cfg True 0 9000000 sample_stream (sample_record ''r'') = Some (rec', frames) \<and>
    frames \<in> shuffles [ticked ''data: {`content`:`Hi`}'' @ [newline], ''data: [DONE]'' @ [newline]] (replicate k keepalive_frame)"
proof -
  have "relay_loop (15 * second) sample_entry_cfg True sample_stream (relay_init 0) \<noteq> None"
    by (rule relay_loop_returns) (simp add: sample_stream_facts)
  then obtain rec' frames where r: "relayStream (15 * second) sample_entry_cfg True 0 9000000 sample_stream
      (sample_record ''r'') = Some (rec', frames)"
    by (auto simp: relayStream_def split: option.splits)
  from relay_transparent [OF r] r show ?thesis
    using sample_stream_facts(4) unfolding sample_forwarded by auto
qed


end
