(* ===== verification/Gateway_Proxy.thy ===== *)
theory Gateway_Proxy
  imports Gateway_Auth Gateway_SSE Upstream_Pool
begin

text \<open>
  The request path (\<^verbatim>\<open>src/internal/gateway/proxy.go\<close>): reading and rewriting the request body,
  admission, the upstream call and its outcomes, and the record each request leaves.

  The engine is not part of the program: \<open>send\<close> maps the backend, the path and the body of a
  request to its outcome. \<open>meanwhile\<close> is what other requests do to the server while this one waits
  for its upstream. \<open>fmt\<close> is the text a number gets when it passes through a \<^verbatim>\<open>float64\<close>.
\<close>

subsection \<open>The request body\<close>

record requestHead =
  h_Model :: string
  h_Stream :: bool
  h_StreamOptions :: "bool option option"

definition dec_options :: "json \<Rightarrow> bool option \<Rightarrow> bool option option" where
  "dec_options = dec_struct (\<lambda>k v opt.
     if key_is ''include_usage'' k then dec_ptr dec_bool False v opt else Some opt)"

definition dec_head :: "json \<Rightarrow> requestHead \<Rightarrow> requestHead option" where
  "dec_head = dec_struct (\<lambda>k v h.
     if key_is ''model'' k then map_option (\<lambda>x. h\<lparr>h_Model := x\<rparr>) (dec_string v (h_Model h))
     else if key_is ''stream'' k then map_option (\<lambda>x. h\<lparr>h_Stream := x\<rparr>) (dec_bool v (h_Stream h))
     else if key_is ''stream_options'' k then
       map_option (\<lambda>x. h\<lparr>h_StreamOptions := x\<rparr>) (dec_ptr dec_options None v (h_StreamOptions h))
     else Some h)"

definition peekRequest :: "bytes \<Rightarrow> requestHead option" where
  "peekRequest body =
     (case Unmarshal body of
        None \<Rightarrow> None
      | Some v \<Rightarrow> dec_head v \<lparr>h_Model = [], h_Stream = False, h_StreamOptions = None\<rparr>)"

definition include_usage :: json where
  "include_usage = JObj [(''include_usage'', JBool True)]"

text \<open>
  \<^verbatim>\<open>ensureUsage\<close> on the decoded top level. \<open>None\<close> is the panic of assigning into the nil map that
  decoding \<^verbatim>\<open>null\<close> leaves.
\<close>

definition ensureUsage ::
  "(bytes \<Rightarrow> bytes option) \<Rightarrow> (string \<times> json) list \<Rightarrow> ((string \<times> json) list \<times> bool) option" where
  "ensureUsage fmt flds =
     (let reset = Some (AList.update ''stream_options'' include_usage flds, True)
      in case map_of flds ''stream_options'' of
           None \<Rightarrow> reset
         | Some raw \<Rightarrow>
             (case raw of
                JNull \<Rightarrow> None
              | JObj ms \<Rightarrow>
                  if \<not> any_ok fmt raw then reset
                  else let opts = go_map (map (map_prod id (any_json fmt)) ms)
                       in if map_of opts ''include_usage'' = Some (JBool True) then Some (flds, False)
                          else Some (AList.update ''stream_options''
                                 (JObj (map_members (AList.update ''include_usage'' (JBool True) opts))) flds, True)
              | _ \<Rightarrow> reset))"

datatype rewritten = Forward bytes bool | BadBody | NilMap

definition needs_usage :: "requestHead \<Rightarrow> bool" where
  "needs_usage head \<longleftrightarrow> h_Stream head \<and> h_StreamOptions head \<noteq> Some (Some True)"

definition rewriteBody :: "(bytes \<Rightarrow> bytes option) \<Rightarrow> bytes \<Rightarrow> requestHead \<Rightarrow> string \<Rightarrow> rewritten" where
  "rewriteBody fmt body head upstreamModel =
     (let needModel = (h_Model head \<noteq> upstreamModel); needUsage = needs_usage head
      in if \<not> needModel \<and> \<not> needUsage then Forward body False
         else case Unmarshal body of
           Some (JObj ms) \<Rightarrow>
             let flds = go_map ms;
                 flds = (if needModel then AList.update ''model'' (JStr (quote_go upstreamModel)) flds else flds)
             in (case (if needUsage then ensureUsage fmt flds else Some (flds, False)) of
                   None \<Rightarrow> NilMap
                 | Some (flds, injected) \<Rightarrow> Forward (Marshal_raw flds) injected)
         | Some JNull \<Rightarrow> NilMap
         | _ \<Rightarrow> BadBody)"

subsection \<open>Upstream errors\<close>

definition truncate_to :: "string \<Rightarrow> nat \<Rightarrow> string" where
  "truncate_to s n = (if length s \<le> n then s else take n s @ ''...'')"

definition dec_error :: "json \<Rightarrow> string \<times> string \<Rightarrow> (string \<times> string) option" where
  "dec_error = dec_struct (\<lambda>k v (msg, typ).
     if key_is ''message'' k then map_option (\<lambda>x. (x, typ)) (dec_string v msg)
     else if key_is ''type'' k then map_option (\<lambda>x. (msg, x)) (dec_string v typ)
     else Some (msg, typ))"

definition upstreamErrorMessage :: "bytes \<Rightarrow> string" where
  "upstreamErrorMessage body =
     (let maxLen = 200;
          env = (case Unmarshal body of
                   None \<Rightarrow> None
                 | Some v \<Rightarrow> dec_struct (\<lambda>k w e. if key_is ''error'' k then dec_error w e else Some e) v ([], []))
      in case env of
           Some (msg, typ) \<Rightarrow>
             if msg \<noteq> [] then truncate_to (if typ \<noteq> [] then typ @ '': '' @ msg else msg) maxLen
             else truncate_to (TrimSpace body) maxLen
         | None \<Rightarrow> truncate_to (TrimSpace body) maxLen)"

subsection \<open>The server\<close>

record server =
  sv_gw :: gateway
  sv_pool :: Pool
  sv_catalog :: Catalog
  sv_KeepAliveInterval :: duration

definition logRecord :: "Record \<Rightarrow> server \<Rightarrow> server" where
  "logRecord rec sv = sv\<lparr>sv_gw := (sv_gw sv)\<lparr>g_log := Log rec (g_log (sv_gw sv))\<rparr>\<rparr>"

text \<open>What reading the request body gives, and what the call to the engine gives.\<close>

datatype body_read = Body bytes | TooLarge | Unreadable_body

datatype upstream_reply =
    BadRequestURL
  | DoFailed string bool
  | Answer int string bytes "string option" "relay_event list"

datatype reply =
    Refused bool response
  | Relayed int string bytes
  | Streamed "bytes list"
  | Silent
  | Crashed
  | Pending

record inference =
  i_body :: body_read
  i_path :: string
  i_keyID :: int
  i_rpmLimit :: int
  i_start :: time
  i_reqID :: string
  i_now :: time
  i_relay :: time

definition new_record :: "inference \<Rightarrow> string \<Rightarrow> string \<Rightarrow> int \<Rightarrow> bool \<Rightarrow> int \<Rightarrow> string \<Rightarrow> Record" where
  "new_record i model backend status streamed ms err =
     \<lparr>r_TS = i_start i, r_RequestID = i_reqID i, r_Model = model, r_Backend = backend, r_APIKeyID = i_keyID i,
      r_Status = status, r_Streamed = streamed, r_PromptTokens = 0, r_CompletionTokens = 0, r_ReasoningTokens = 0,
      r_CachedTokens = 0, r_TTFTMs = -1, r_TotalMs = ms, r_GenMs = 0, r_TPS = 0, r_CostUSD = 0, r_Error = err\<rparr>"

definition elapsed :: "inference \<Rightarrow> int" where
  "elapsed i = Milliseconds (i_now i - i_start i)"

definition relayUpstreamError ::
  "inference \<Rightarrow> string \<Rightarrow> string \<Rightarrow> bool \<Rightarrow> int \<Rightarrow> string \<Rightarrow> bytes \<Rightarrow> reply \<times> Record" where
  "relayUpstreamError i model backend streaming status ct read =
     (let body = take (64 * 1024) read; ct = (if ct = [] then ''application/json'' else ct)
      in (Relayed status ct body,
          new_record i model backend status streaming (elapsed i) (upstreamErrorMessage body)))"

text \<open>
  From the lease to its release: the reply, and the record to log. A stream that has not ended
  is \<open>Pending\<close>.
\<close>

definition call_upstream ::
  "inference \<Rightarrow> duration \<Rightarrow> Entry \<Rightarrow> requestHead \<Rightarrow> bool \<Rightarrow> string \<Rightarrow> upstream_reply \<Rightarrow> reply \<times> Record option" where
  "call_upstream i idle entry head injected backend up =
     (let model = h_Model head; streaming = h_Stream head
      in case up of
           BadRequestURL \<Rightarrow> (Refused False (writeError 500 ''server_error'' ''Could not build upstream request.''), None)
         | DoFailed err client_gone \<Rightarrow>
             if client_gone
             then (Silent, Some (new_record i model backend 499 streaming (elapsed i) ''client disconnected''))
             else (Refused False (writeError 502 ''server_error'' ''Upstream request failed.''),
                   Some (new_record i model backend 502 streaming (elapsed i) err))
         | Answer status ct read read_err evs \<Rightarrow>
             if status \<noteq> 200 then apsnd Some (relayUpstreamError i model backend streaming status ct read)
             else let rec = new_record i model backend 200 streaming 0 []
                  in if streaming
                     then (case relayStream idle entry injected (i_relay i) (i_now i) evs rec of
                             None \<Rightarrow> (Pending, None)
                           | Some (rec, frames) \<Rightarrow> (Streamed frames, Some rec))
                     else (case relayJSON entry (i_now i) (case read_err of None \<Rightarrow> Inr read | Some e \<Rightarrow> Inl e) rec of
                             (rec, None) \<Rightarrow>
                               (Refused False (writeError 502 ''server_error'' ''Upstream response truncated.''), Some rec)
                           | (rec, Some out) \<Rightarrow> (Relayed 200 ''application/json'' out, Some rec)))"

definition pool_refusal :: "pool_error \<Rightarrow> int \<times> string \<times> string \<times> string" where
  "pool_refusal err =
     (if err = ErrNoCapacity
      then (429, ''rate_limit_error'', ''At capacity, retry shortly.'', ''no backend capacity'')
      else (503, ''server_error'', ''No healthy backend for this model.'', ''no healthy backend for model''))"

definition admit ::
  "(bytes \<Rightarrow> bytes option) \<Rightarrow> (Backend \<Rightarrow> string \<Rightarrow> bytes \<Rightarrow> upstream_reply) \<Rightarrow> (server \<Rightarrow> server) \<Rightarrow>
   inference \<Rightarrow> bytes \<Rightarrow> requestHead \<Rightarrow> Entry \<Rightarrow> server \<Rightarrow> reply \<times> server" where
  "admit fmt send meanwhile i body head entry sv =
     (case rewriteBody fmt body head (e_UpstreamModel entry) of
        BadBody \<Rightarrow> (Refused False (writeError 400 ''invalid_request_error'' ''Could not re-encode request.''), sv)
      | NilMap \<Rightarrow> (Crashed, sv)
      | Forward outBody injected \<Rightarrow>
          (case Acquire (sv_pool sv) (h_Model head) of
             (Inl err, pool) \<Rightarrow>
               (case pool_refusal err of
                  (status, code, msg, text) \<Rightarrow>
                    (Refused (err = ErrNoCapacity) (writeError status code msg),
                     logRecord (new_record i (h_Model head) [] status False (elapsed i) text) (sv\<lparr>sv_pool := pool\<rparr>)))
           | (Inr lease, pool) \<Rightarrow>
               let b = p_heap pool ! l_B lease; sv = meanwhile (sv\<lparr>sv_pool := pool\<rparr>)
               in (case call_upstream i (sv_KeepAliveInterval sv) entry head injected (b_Name b)
                          (send b (b_BaseURL b @ i_path i) outBody) of
                     (reply, rec) \<Rightarrow>
                       (reply, (case rec of None \<Rightarrow> id | Some rec \<Rightarrow> logRecord rec)
                          (sv\<lparr>sv_pool := snd (Release (Some lease) (sv_pool sv))\<rparr>)))))"

definition serveInference ::
  "(bytes \<Rightarrow> bytes option) \<Rightarrow> (Backend \<Rightarrow> string \<Rightarrow> bytes \<Rightarrow> upstream_reply) \<Rightarrow> (server \<Rightarrow> server) \<Rightarrow>
   inference \<Rightarrow> server \<Rightarrow> reply \<times> server" where
  "serveInference fmt send meanwhile i sv =
     (case i_body i of
        TooLarge \<Rightarrow> (Refused False (writeError 413 ''invalid_request_error'' ''Request body too large.''), sv)
      | Unreadable_body \<Rightarrow> (Refused False (writeError 400 ''invalid_request_error'' ''Could not read request body.''), sv)
      | Body body \<Rightarrow>
          (case peekRequest body of
             None \<Rightarrow> (Refused False (writeError 400 ''invalid_request_error'' ''Request body is not valid JSON.''), sv)
           | Some head \<Rightarrow>
               if h_Model head = [] then
                 (Refused False (writeError 400 ''invalid_request_error'' ''Field `model` is required.''), sv)
               else case Catalog_Get (sv_catalog sv) (h_Model head) of
                 None \<Rightarrow>
                   (Refused False (writeError 404 ''invalid_request_error'' (''Unknown model: '' @ h_Model head)),
                    logRecord (new_record i (h_Model head) [] 404 False (elapsed i) ''unknown model'') sv)
               | Some entry \<Rightarrow>
                   (case rl_allow (i_now i) (i_keyID i) (i_rpmLimit i) (g_windows (sv_gw sv)) of
                      (ok, windows) \<Rightarrow>
                        let sv = sv\<lparr>sv_gw := (sv_gw sv)\<lparr>g_windows := windows\<rparr>\<rparr>
                        in if \<not> ok then
                             (Refused True (writeError 429 ''rate_limit_error'' ''Per-key rate limit exceeded.''),
                              logRecord (new_record i (h_Model head) [] 429 False (elapsed i) ''key rate limit'') sv)
                           else admit fmt send meanwhile i body head entry sv)))"

definition handleInference ::
  "(string \<Rightarrow> string) \<Rightarrow> (bytes \<Rightarrow> bytes option) \<Rightarrow> (Backend \<Rightarrow> string \<Rightarrow> bytes \<Rightarrow> upstream_reply) \<Rightarrow>
   (server \<Rightarrow> server) \<Rightarrow> world \<Rightarrow> request \<Rightarrow> inference \<Rightarrow> server \<Rightarrow> reply \<times> server" where
  "handleInference sha fmt send meanwhile w r i sv =
     (case authenticate sha w r (sv_gw sv) of
        (Inl resp, g) \<Rightarrow> (Refused False resp, sv\<lparr>sv_gw := g\<rparr>)
      | (Inr key, g) \<Rightarrow>
          serveInference fmt send meanwhile (i\<lparr>i_keyID := k_ID key, i_rpmLimit := k_RPMLimit key\<rparr>) (sv\<lparr>sv_gw := g\<rparr>))"

subsection \<open>Slots\<close>

lemma logRecord_pool [simp]: "sv_pool (logRecord rec sv) = sv_pool sv"
  by (simp add: logRecord_def)

lemma admit_counters:
  assumes "pool_routed (sv_pool sv)" and "\<And>s. pool_counters (sv_pool (meanwhile s)) = pool_counters (sv_pool s)"
  shows "pool_counters (sv_pool (snd (admit fmt send meanwhile i body head entry sv))) = pool_counters (sv_pool sv)"
proof (cases "rewriteBody fmt body head (e_UpstreamModel entry)")
  case (Forward out injected)
  show ?thesis
  proof (cases "Acquire (sv_pool sv) (h_Model head)")
    case (Pair r pool)
    show ?thesis
    proof (cases r)
      case (Inl err)
      with Pair Forward pool.refusal [of "sv_pool sv" "h_Model head" err pool] show ?thesis
        by (auto simp: admit_def split: prod.splits)
    next
      case (Inr lease)
      have "pool_counters (snd (Release (Some lease) (sv_pool (meanwhile (sv\<lparr>sv_pool := pool\<rparr>))))) = pool_counters (sv_pool sv)"
        by (rule pool.balance [OF assms(1)]) (use Pair Inr in \<open>auto simp: assms(2)\<close>)
      with Pair Inr Forward show ?thesis by (auto simp: admit_def Let_def split: prod.splits option.splits)
    qed
  qed
qed (simp_all add: admit_def)

lemma serveInference_counters:
  assumes "pool_routed (sv_pool sv)" and "\<And>s. pool_counters (sv_pool (meanwhile s)) = pool_counters (sv_pool s)"
  shows "pool_counters (sv_pool (snd (serveInference fmt send meanwhile i sv))) = pool_counters (sv_pool sv)"
  using admit_counters [of "sv\<lparr>sv_gw := g\<rparr>" meanwhile for g] assms
  by (simp add: serveInference_def Let_def split: body_read.split option.split prod.split)

text \<open>
  C2: a request gives back the slot it took on every path, whether it is refused, fails, is
  relayed, streamed or broken off: as long as the other requests served in the meantime are
  balanced, the slot counters of all backends are in the end what they were.
\<close>

theorem slots_returned:
  assumes "handleInference sha fmt send meanwhile w r i sv = (reply, sv')"
    and "pool_routed (sv_pool sv)"
    and "\<forall>s. pool_counters (sv_pool (meanwhile s)) = pool_counters (sv_pool s)"
  shows "pool_counters (sv_pool sv') = pool_counters (sv_pool sv)"
proof (cases "authenticate sha w r (sv_gw sv)")
  case (Pair a g)
  with assms serveInference_counters [of "sv\<lparr>sv_gw := g\<rparr>" meanwhile fmt send] show ?thesis
    by (cases a) (auto simp: handleInference_def prod_eq_iff)
qed

subsection \<open>Records\<close>

text \<open>The record describes the reply; the replies that leave no record.\<close>

definition describes :: "inference \<Rightarrow> reply \<Rightarrow> Record \<Rightarrow> bool" where
  "describes i reply rec \<longleftrightarrow>
     r_RequestID rec = i_reqID i \<and> r_APIKeyID rec = i_keyID i \<and> r_TS rec = i_start i \<and>
     (case reply of
        Refused retry resp \<Rightarrow> r_Status rec = rs_status resp
      | Relayed status ct body \<Rightarrow> r_Status rec = status
      | Streamed frames \<Rightarrow> r_Status rec \<in> {200, 499, 500} \<and> r_Streamed rec
      | Silent \<Rightarrow> r_Status rec = 499
      | _ \<Rightarrow> False)"

definition unlogged :: "reply \<Rightarrow> bool" where
  "unlogged reply \<longleftrightarrow>
     (case reply of
        Refused retry resp \<Rightarrow> rs_status resp \<in> {400, 413, 500}
      | Crashed \<Rightarrow> True | Pending \<Rightarrow> True | _ \<Rightarrow> False)"

lemma finishStream_ids:
  "r_RequestID (finishStream now e s rec) = r_RequestID rec" "r_APIKeyID (finishStream now e s rec) = r_APIKeyID rec"
  "r_TS (finishStream now e s rec) = r_TS rec" "r_Status (finishStream now e s rec) = r_Status rec"
  "r_Streamed (finishStream now e s rec) = r_Streamed rec"
  by (simp_all add: finishStream_def with_cost_def usage_of_record_def Let_def split: option.split)

lemma end_status_ids:
  "r_RequestID (end_status r rec) = r_RequestID rec" "r_APIKeyID (end_status r rec) = r_APIKeyID rec"
  "r_Status (end_status r rec) \<in> {r_Status rec, 499, 500}" "r_Streamed (end_status r rec) = r_Streamed rec"
  by (simp_all add: end_status_def split: relay_end.split)

lemma relayStream_describes:
  assumes "relayStream idle e d now0 now evs (new_record i model backend 200 True 0 []) = Some (rec, frames)"
  shows "describes i (Streamed frames) rec"
proof -
  obtain r s where rec: "rec = finishStream now e s (end_status r (new_record i model backend 200 True 0 []))"
    using assms by (auto simp: relayStream_def split: option.splits)
  show ?thesis
    using end_status_ids(3) [of r "new_record i model backend 200 True 0 []"]
    by (simp add: rec describes_def finishStream_ids end_status_ids(1,2,4)) (simp add: new_record_def)
qed

lemma relayJSON_describes:
  assumes "relayJSON e now body (new_record i model backend 200 streamed 0 []) = (rec, out)"
  shows "(case out of None \<Rightarrow> describes i (Refused False (writeError 502 typ msg)) rec
     | Some b \<Rightarrow> describes i (Relayed 200 ct b) rec)"
  using assms
  by (auto simp: relayJSON_def describes_def with_cost_def usage_of_record_def writeError_def new_record_def Let_def
      split: sum.splits option.splits)

lemma call_upstream_describes:
  assumes "call_upstream i idle entry head injected backend up = (reply, rec)"
  shows "case rec of None \<Rightarrow> unlogged reply | Some rec \<Rightarrow> describes i reply rec"
proof (cases up)
  case BadRequestURL
  with assms show ?thesis by (auto simp: call_upstream_def unlogged_def writeError_def)
next
  case (DoFailed err gone)
  with assms show ?thesis
    by (auto simp: call_upstream_def describes_def new_record_def writeError_def Let_def split: if_splits)
next
  case (Answer status ct read rerr evs)
  consider (refused) "status \<noteq> 200" | (stream) "status = 200" "h_Stream head" | (json) "status = 200" "\<not> h_Stream head"
    by blast
  then show ?thesis
  proof cases
    case refused
    with Answer assms show ?thesis
      by (auto simp: call_upstream_def relayUpstreamError_def describes_def new_record_def Let_def)
  next
    case stream
    with Answer assms show ?thesis
      by (auto simp: call_upstream_def unlogged_def Let_def split: option.splits dest!: relayStream_describes)
  next
    case json
    obtain rec' out where j: "relayJSON entry (i_now i) (case rerr of None \<Rightarrow> Inr read | Some e \<Rightarrow> Inl e)
        (new_record i (h_Model head) backend 200 False 0 []) = (rec', out)" by fastforce
    with json Answer assms relayJSON_describes [OF j, of "''server_error''" "''Upstream response truncated.''" "''application/json''"]
    show ?thesis by (auto simp: call_upstream_def Let_def split: option.splits)
  qed
qed

definition log_of :: "server \<Rightarrow> log_state" where
  "log_of sv = g_log (sv_gw sv)"

definition logs_one :: "inference \<Rightarrow> reply \<Rightarrow> server \<Rightarrow> server \<Rightarrow> bool" where
  "logs_one i reply sv sv' \<longleftrightarrow>
     (unlogged reply \<and> log_of sv' = log_of sv) \<or>
     (\<exists>rec. log_of sv' = Log rec (log_of sv) \<and> describes i reply rec)"

lemma log_of_logRecord [simp]: "log_of (logRecord rec sv) = Log rec (log_of sv)"
  by (simp add: log_of_def logRecord_def)

lemma log_of_updates [simp]:
  "log_of (sv\<lparr>sv_pool := p\<rparr>) = log_of sv" "log_of (sv\<lparr>sv_gw := (sv_gw sv)\<lparr>g_windows := ws\<rparr>\<rparr>) = log_of sv"
  by (simp_all add: log_of_def)

lemma describes_new_record:
  "describes i (Refused retry (writeError status typ msg)) (new_record i model backend status streamed ms err)"
  by (simp add: describes_def new_record_def writeError_def)

lemma admit_logs:
  assumes "admit fmt send id i body head entry sv = (reply, sv')"
  shows "logs_one i reply sv sv'"
proof (cases "rewriteBody fmt body head (e_UpstreamModel entry)")
  case (Forward out injected)
  show ?thesis
  proof (cases "Acquire (sv_pool sv) (h_Model head)")
    case (Pair r pool)
    show ?thesis
    proof (cases r)
      case (Inl err)
      with Pair Forward assms show ?thesis
        by (auto simp: admit_def logs_one_def describes_new_record split: prod.splits)
    next
      case (Inr lease)
      define b where "b = p_heap pool ! l_B lease"
      obtain rp rec where cu: "call_upstream i (sv_KeepAliveInterval sv) entry head injected (b_Name b)
          (send b (b_BaseURL b @ i_path i) out) = (rp, rec)" by fastforce
      have "reply = rp" and "log_of sv' = (case rec of None \<Rightarrow> log_of sv | Some rec \<Rightarrow> Log rec (log_of sv))"
        using assms Pair Inr Forward cu by (auto simp: admit_def Let_def b_def split: option.splits)
      with call_upstream_describes [OF cu] show ?thesis by (auto simp: logs_one_def split: option.splits)
    qed
  qed
qed (use assms in \<open>auto simp: admit_def logs_one_def unlogged_def writeError_def\<close>)


subsection \<open>The body the engine sees\<close>

lemma plain_names [simp]: "plain_key ''model''" "plain_key ''stream_options''" "plain_key ''include_usage''"
  by code_simp+

lemma json_ok_update:
  "\<forall>(k, v) \<in> set m. json_ok v \<Longrightarrow> json_ok w \<Longrightarrow> \<forall>(k, v) \<in> set (AList.update key w m). json_ok v"
  by (induction m) (auto split: if_splits)

lemma json_ok_include_usage: "json_ok include_usage"
  using raw_ok_quote_go [of "''include_usage''", unfolded quote_go_plain [OF plain_names(3)]]
  by (simp add: include_usage_def)

lemma json_ok_go_map: "json_ok (JObj ms) \<Longrightarrow> \<forall>(k, v) \<in> set (go_map ms). json_ok v"
  by (fastforce dest: set_go_map)

definition asks_usage :: "json \<Rightarrow> bool" where
  "asks_usage v \<longleftrightarrow> (\<exists>opts. v = JObj opts \<and> map_of opts ''include_usage'' = Some (JBool True))"

lemma asks_include_usage: "asks_usage include_usage"
  by (simp add: asks_usage_def include_usage_def)

lemma asks_usage_literals: "asks_usage v \<Longrightarrow> asks_usage (map_literals escape_html v)"
  using map_of_renamed [where g = escape_html and f = "map_literals escape_html", OF escape_html_eq_plain [OF plain_names(3)]]
  by (auto simp: asks_usage_def map_literals_JObj simp del: map_literals.simps(6))

text \<open>\<open>ensureUsage\<close> touches only the stream options and fails only on a null.\<close>

lemma ensureUsage_cases [consumes 3, case_names null kept set]:
  assumes "\<forall>l t. fmt l = Some t \<longrightarrow> number_ok t" and "\<forall>(k, v) \<in> set flds. json_ok v" and "distinct (map fst flds)"
  obtains (null) "map_of flds ''stream_options'' = Some JNull" "ensureUsage fmt flds = None"
  | (kept) ms where "map_of flds ''stream_options'' = Some (JObj ms)"
      "map_of (go_map (map (map_prod id (any_json fmt)) ms)) ''include_usage'' = Some (JBool True)"
      "ensureUsage fmt flds = Some (flds, False)"
  | (set) v where "map_of flds ''stream_options'' \<noteq> Some JNull"
      "ensureUsage fmt flds = Some (AList.update ''stream_options'' v flds, True)" "json_ok v" "asks_usage v"
proof (cases "map_of flds ''stream_options''")
  case None
  then show thesis
    by (intro set [of include_usage]) (auto simp: ensureUsage_def json_ok_include_usage asks_include_usage)
next
  case (Some raw)
  have reset: "raw \<noteq> JNull \<Longrightarrow> ensureUsage fmt flds = Some (AList.update ''stream_options'' include_usage flds, True) \<Longrightarrow> thesis"
    using Some by (intro set [of include_usage]) (auto simp: json_ok_include_usage asks_include_usage)
  show thesis
  proof (cases raw)
    case JNull
    with Some show thesis by (intro null) (auto simp: ensureUsage_def)
  next
    case (JObj ms)
    define opts where "opts = go_map (map (map_prod id (any_json fmt)) ms)"
    consider "\<not> any_ok fmt raw" | "any_ok fmt raw" "map_of opts ''include_usage'' = Some (JBool True)"
      | "any_ok fmt raw" "map_of opts ''include_usage'' \<noteq> Some (JBool True)" by blast
    then show thesis
    proof cases
      case 1
      with Some JObj show thesis by (intro reset) (auto simp: ensureUsage_def simp del: any_ok.simps)
    next
      case 2
      with Some JObj show thesis
        by (intro kept [of ms]) (auto simp: ensureUsage_def opts_def simp del: any_ok.simps)
    next
      case 3
      let ?v = "JObj (map_members (AList.update ''include_usage'' (JBool True) opts))"
      have "json_ok raw" using assms(2) map_of_SomeD [OF Some] by auto
      then have "json_ok (any_json fmt raw)" using 3(1) by (intro json_ok_any [OF assms(1)])
      then have "\<forall>(k, v) \<in> set (map_members opts). json_ok v" by (auto simp: JObj opts_def)
      then have "\<forall>(k, v) \<in> set opts. json_ok v" by (auto simp: map_members_def)
      from json_ok_update [OF this, of "JBool True" "''include_usage''"]
      have "json_ok ?v" by (fastforce dest: set_map_members)
      moreover have "asks_usage ?v"
        by (simp add: asks_usage_def map_of_members opts_def distinct_go_map distinct_update)
      ultimately show thesis
        using Some JObj 3 by (intro set [of ?v]) (auto simp: ensureUsage_def opts_def Let_def simp del: any_ok.simps)
    qed
  qed (use Some in \<open>intro reset; simp add: ensureUsage_def\<close>)+
qed

definition with_model :: "requestHead \<Rightarrow> string \<Rightarrow> (bytes \<times> json) list \<Rightarrow> (string \<times> json) list" where
  "with_model head up ms =
     (if h_Model head \<noteq> up then AList.update ''model'' (JStr (quote_go up)) (go_map ms) else go_map ms)"

lemma with_model_facts:
  assumes "json_ok (JObj ms)"
  shows "\<forall>(k, v) \<in> set (with_model head up ms). json_ok v" "distinct (map fst (with_model head up ms))"
    "map_of (with_model head up ms) ''stream_options'' = map_of (go_map ms) ''stream_options''"
  using json_ok_update [OF json_ok_go_map [OF assms], of "JStr (quote_go up)" "''model''"] json_ok_go_map [OF assms]
  by (auto simp: with_model_def distinct_go_map raw_ok_quote_go)

lemma rewriteBody_unfold:
  assumes "\<not> (h_Model head = up \<and> \<not> needs_usage head)"
  shows "rewriteBody fmt body head up =
    (case Unmarshal body of
       Some (JObj ms) \<Rightarrow>
         (case (if needs_usage head then ensureUsage fmt (with_model head up ms) else Some (with_model head up ms, False)) of
            None \<Rightarrow> NilMap | Some (flds, injected) \<Rightarrow> Forward (Marshal_raw flds) injected)
     | Some JNull \<Rightarrow> NilMap | _ \<Rightarrow> BadBody)"
  using assms by (auto simp: rewriteBody_def with_model_def Let_def split: option.split json.split)


lemma ensureUsage_None: "ensureUsage fmt flds = None \<longleftrightarrow> map_of flds ''stream_options'' = Some JNull"
  by (auto simp: ensureUsage_def Let_def simp del: any_ok.simps split: option.split json.split)

lemma rewriteBody_NilMap:
  assumes "Unmarshal body = Some (JObj ms)" and "needs_usage head" and "map_of (go_map ms) ''stream_options'' = Some JNull"
  shows "rewriteBody fmt body head up = NilMap"
proof -
  have "map_of (with_model head up ms) ''stream_options'' = Some JNull" using assms(3) by (simp add: with_model_def)
  then have "ensureUsage fmt (with_model head up ms) = None" by (simp add: ensureUsage_None)
  with assms show ?thesis by (simp add: rewriteBody_unfold)
qed

definition null_options :: bytes where
  "null_options = ticked ''{`model`:`m`,`stream`:true,`stream_options`:null}''"

lemma null_options_facts:
  "peekRequest null_options = Some \<lparr>h_Model = ''m'', h_Stream = True, h_StreamOptions = None\<rparr>"
  "Unmarshal null_options = Some (JObj [(''model'', JStr ''m''), (''stream'', JBool True), (''stream_options'', JNull)])"
  "map_of (go_map [(''model'', JStr ''m''), (''stream'', JBool True), (''stream_options'', JNull)]) ''stream_options'' = Some JNull"
  by code_simp+

text \<open>
  A streaming request whose stream options are null crashes its handler: for a model the
  catalog knows and a key within its limit, the nil map the null decodes to is assigned to, and
  the client gets no reply and the log no record. The body is that of the definition.
\<close>

theorem null_stream_options_crash:
  assumes "i_body i = Body null_options" and "Catalog_Get (sv_catalog sv) ''m'' = Some entry"
    and "fst (rl_allow (i_now i) (i_keyID i) (i_rpmLimit i) (g_windows (sv_gw sv)))"
    and "serveInference fmt send meanwhile i sv = (reply, sv')"
  shows "reply = Crashed \<and> log_of sv' = log_of sv"
proof -
  have "rewriteBody fmt null_options \<lparr>h_Model = ''m'', h_Stream = True, h_StreamOptions = None\<rparr> (e_UpstreamModel entry) = NilMap"
    by (rule rewriteBody_NilMap [OF null_options_facts(2) _ null_options_facts(3)]) (simp add: needs_usage_def)
  with assms show ?thesis
    by (auto simp: serveInference_def null_options_facts(1) admit_def Let_def split: prod.splits)
qed

subsection \<open>A concrete server\<close>

definition sample_server :: server where
  "sample_server =
     \<lparr>sv_gw = \<lparr>g_db = empty_db, g_keys = [], g_windows = [], g_logins = [], g_log = log_init, g_AdminToken = []\<rparr>,
      sv_pool = sample_pool, sv_catalog = [(''m'', mk_entry (sample_model ''m''))], sv_KeepAliveInterval = 15 * second\<rparr>"

definition sample_inference :: "bytes \<Rightarrow> inference" where
  "sample_inference body = \<lparr>i_body = Body body, i_path = ''/v1/chat/completions'', i_keyID = 1, i_rpmLimit = 0, i_start = 0,
     i_reqID = ''req_1'', i_now = 0, i_relay = 0\<rparr>"

definition sample_request :: request where
  "sample_request = \<lparr>rq_Authorization = [], rq_CFConnectingIP = [], rq_XForwardedFor = [], rq_XForwardedProto = [],
     rq_TLS = False, rq_RemoteAddr = [], rq_cookies = [], rq_email = [], rq_password = [], rq_new_password = [],
     rq_name = [], rq_path_id = [], rq_RequestID = ''req_1''\<rparr>"

definition no_answer :: "Backend \<Rightarrow> string \<Rightarrow> bytes \<Rightarrow> upstream_reply" where
  "no_answer b url body = DoFailed ''connection refused'' False"

lemma sample_routes: "p_byModel sample_pool = [(''m'', [0, 1])]" "p_dynamicByModel sample_pool = []"
  by code_simp+

lemma sample_routed: "pool_routed (sv_pool sample_server)"
  by (auto simp: sample_server_def pool_routed_def candidates_def Let_def lookup_list_def sample_routes sample_pool_facts(2))

theorem slots_returned_witness:
  "pool_counters (sv_pool (snd (handleInference toy_sha Some no_answer id
      \<lparr>w_now = 0, w_io = True, w_io2 = True, w_dberr = [], w_rand = None\<rparr> sample_request
      (sample_inference null_options) sample_server))) = pool_counters sample_pool"
  using slots_returned [OF surjective_pairing sample_routed, where meanwhile = id] by (simp add: sample_server_def)


definition sample_body :: bytes where "sample_body = ticked ''{`n`: 1, `model`:`m`}''"

definition sample_head :: requestHead where
  "sample_head = \<lparr>h_Model = ''m'', h_Stream = False, h_StreamOptions = None\<rparr>"

lemma sample_rewrite: "rewriteBody (\<lambda>l. None) sample_body sample_head ''org/m'' = Forward (ticked ''{`model`:`org/m`,`n`:1}'') False"
  by code_simp


theorem null_stream_options_crash_witness:
  "fst (serveInference Some no_answer id (sample_inference null_options) sample_server) = Crashed"
proof -
  have "fst (serveInference Some no_answer id (sample_inference null_options) sample_server) = Crashed \<and>
      log_of (snd (serveInference Some no_answer id (sample_inference null_options) sample_server)) = log_of sample_server"
    by (rule null_stream_options_crash [OF _ _ _ surjective_pairing])
      (simp_all add: sample_inference_def sample_server_def Catalog_Get_def rl_allow_def)
  then show ?thesis by simp
qed

end
