(* ===== verification/Go_Format.thy ===== *)
theory Go_Format
  imports Go_Float Go_Files
begin

text \<open>
  The verbs of \<^verbatim>\<open>fmt.Sprintf\<close> the program uses (\<^verbatim>\<open>%d\<close> is \<open>Itoa\<close>): \<^verbatim>\<open>%.nf\<close> rounds the exact value of
  the float to \<open>n\<close> decimals, ties to even, and \<^verbatim>\<open>%q\<close> quotes a string of printable characters; and
  arithmetic on \<^verbatim>\<open>int64\<close>, which wraps.
\<close>

definition int64 :: "int \<Rightarrow> int" where
  "int64 x = (x + 2 ^ 63) mod 2 ^ 64 - 2 ^ 63"

lemma int64_id: "- (2 ^ 63) \<le> x \<Longrightarrow> x < 2 ^ 63 \<Longrightarrow> int64 x = x"
  by (simp add: int64_def)

definition zero_pad :: "nat \<Rightarrow> string \<Rightarrow> string" where
  "zero_pad n s = replicate (n - length s) CHR ''0'' @ s"

definition fmt_fixed :: "nat \<Rightarrow> rat \<Rightarrow> string" where
  "fmt_fixed n x =
     (let m = rne (\<bar>x\<bar> * 10 ^ n);
          ip = m div 10 ^ n; fp = m mod 10 ^ n
      in (if x < 0 then ''-'' else []) @ Itoa ip @
         (if n = 0 then [] else ''.'' @ zero_pad n (Itoa fp)))"

definition quote_q :: "string \<Rightarrow> string" where
  "quote_q s =
     [CHR 0x22] @
     concat (map (\<lambda>c. if c = CHR 0x22 \<or> c = CHR 0x5C then [CHR 0x5C, c]
                      else if c = CHR 0x0A then [CHR 0x5C, CHR ''n'']
                      else if c = CHR 0x09 then [CHR 0x5C, CHR ''t'']
                      else if c = CHR 0x0D then [CHR 0x5C, CHR ''r''] else [c]) s) @
     [CHR 0x22]"

text \<open>\<^verbatim>\<open>filepath.Base\<close>.\<close>

definition path_base :: "string \<Rightarrow> string" where
  "path_base p =
     (if p = [] then ''.''
      else let q = TrimRight p ''/''
           in if q = [] then ''/''
              else case LastIndex q ''/'' of None \<Rightarrow> q | Some i \<Rightarrow> drop (Suc i) q)"

text \<open>The em dash of a message, in UTF-8.\<close>

definition em_dash :: string where
  "em_dash = [CHR 0xE2, CHR 0x80, CHR 0x94]"

end
