(* ===== verification/Model_Spec.thy ===== *)
theory Model_Spec
  imports Go_Format "HOL-Library.Multiset"
begin

text \<open>
  Model metadata (\<^verbatim>\<open>src/internal/modelspec/modelspec.go\<close>): what a checkpoint's configuration and
  registry entry say about a model, and the search for conversions and quantized publications.
  The registry is not part of the program: the decoded answers of its endpoints are arguments, as
  are the directory and the decoded configuration of a checkpoint on disk. The order in which a
  Go map is ranged over is an argument too.
\<close>

subsection \<open>Data\<close>

record Info =
  i_ID :: string
  i_Params :: int
  i_ParamsLabel :: string
  i_DType :: string
  i_Gated :: bool
  i_Private :: bool
  i_Downloads :: int
  i_License :: string
  i_Tags :: "string list"
  i_Architecture :: string
  i_MaxPositions :: int
  i_HiddenSize :: int
  i_NumLayers :: int
  i_NumHeads :: int
  i_NumKVHeads :: int
  i_HeadDim :: int
  i_VocabSize :: int
  i_IsMoE :: bool
  i_IsMLA :: bool
  i_IsHybrid :: bool
  i_Local :: bool
  i_LocalGGUF :: string
  i_FullAttentionLayers :: int
  i_PublishedQuant :: string
  i_CheckpointBytes :: int
  i_HasVision :: bool
  i_HasAudio :: bool
  i_ActiveParams :: int

definition zero_info :: Info where
  "zero_info =
     \<lparr>i_ID = [], i_Params = 0, i_ParamsLabel = [], i_DType = [], i_Gated = False, i_Private = False,
      i_Downloads = 0, i_License = [], i_Tags = [], i_Architecture = [], i_MaxPositions = 0,
      i_HiddenSize = 0, i_NumLayers = 0, i_NumHeads = 0, i_NumKVHeads = 0, i_HeadDim = 0,
      i_VocabSize = 0, i_IsMoE = False, i_IsMLA = False, i_IsHybrid = False, i_Local = False,
      i_LocalGGUF = [], i_FullAttentionLayers = 0, i_PublishedQuant = [], i_CheckpointBytes = 0,
      i_HasVision = False, i_HasAudio = False, i_ActiveParams = 0\<rparr>"

text \<open>\<^verbatim>\<open>gated\<close> decodes to nothing, a boolean or something else.\<close>

datatype gate = NoGate | GateBool bool | GateOther

record safetensors =
  st_Total :: int
  st_Parameters :: "(string \<times> int) list"

record hfModelResponse =
  hm_ModelID :: string
  hm_Downloads :: int
  hm_Tags :: "string list"
  hm_Private :: bool
  hm_Gated :: gate
  hm_Safetensors :: "safetensors option"
  hm_Siblings :: "(string \<times> int) list"

text \<open>The weights of a config group: the number of bits and the type.\<close>

record quantConfig =
  qc_QuantMethod :: string
  qc_Bits :: int
  qc_ConfigGroups :: "(string \<times> (int \<times> string) option) list"

record hfFields =
  hf_Architectures :: "string list"
  hf_MaxPositions :: int
  hf_HiddenSize :: int
  hf_NumLayers :: int
  hf_NumHeads :: int
  hf_NumKVHeads :: int
  hf_HeadDim :: int
  hf_VocabSize :: int
  hf_TorchDType :: string
  hf_NumExperts :: int
  hf_NumLocalExperts :: int
  hf_NumRoutedExperts :: int
  hf_ExpertsPerTok :: int
  hf_SharedExperts :: int
  hf_MoEIntermediate :: int
  hf_FirstKDenseReplace :: int
  hf_QLoRARank :: int
  hf_KVLoRARank :: int
  hf_LayerTypes :: "string list"
  hf_FullAttentionInterval :: int
  hf_LinearConvKernelDim :: int
  hf_MambaSSMDType :: string
  hf_QuantizationConfig :: "quantConfig option"
  hf_VisionConfig :: bool
  hf_AudioConfig :: bool

datatype hfConfig =
  HfConfig (hf: hfFields) (hf_TextConfig: "hfConfig option") (hf_LLMConfig: "hfConfig option")
    (hf_LanguageConfig: "hfConfig option")

subsection \<open>Reading a configuration\<close>

definition meta_weightBytes :: "hfModelResponse \<Rightarrow> int" where
  "meta_weightBytes m =
     fold (\<lambda>(name, size) total.
             if HasPrefix (path_base name) ''.'' then total
             else if HasSuffix name ''.safetensors'' \<or> HasSuffix name ''.gguf'' \<or> HasSuffix name ''.bin''
             then int64 (total + size) else total)
       (hm_Siblings m) 0"

definition languageConfig :: "hfConfig \<Rightarrow> hfConfig" where
  "languageConfig c =
     (if hf_NumLayers (hf c) > 0 then c
      else case find (\<lambda>n. case n of None \<Rightarrow> False | Some n \<Rightarrow> hf_NumLayers (hf n) > 0)
                  [hf_TextConfig c, hf_LLMConfig c, hf_LanguageConfig c] of
        Some (Some n) \<Rightarrow> n
      | _ \<Rightarrow> c)"

definition routedExperts :: "hfFields \<Rightarrow> int" where
  "routedExperts c =
     (case find (\<lambda>n. n > 0) [hf_NumRoutedExperts c, hf_NumLocalExperts c, hf_NumExperts c] of
        Some n \<Rightarrow> n | None \<Rightarrow> 0)"

definition group_scheme :: "(int \<times> string) option \<Rightarrow> string option" where
  "group_scheme g =
     (case g of
        None \<Rightarrow> None
      | Some (bits, typ) \<Rightarrow>
          let isFloat = EqualFold typ ''float''
          in if bits = 0 then None
             else if bits \<le> 4 \<and> isFloat then Some ''nvfp4''
             else if bits \<le> 4 then Some ''awq''
             else if bits = 8 \<and> isFloat then Some ''fp8''
             else if bits = 8 then Some ''int8''
             else None)"

fun first_scheme :: "(int \<times> string) option list \<Rightarrow> string option" where
  "first_scheme [] = None"
| "first_scheme (g # gs) = (case group_scheme g of Some s \<Rightarrow> Some s | None \<Rightarrow> first_scheme gs)"

definition scheme ::
  "((string \<times> (int \<times> string) option) list \<Rightarrow> (string \<times> (int \<times> string) option) list) \<Rightarrow> quantConfig \<Rightarrow> string" where
  "scheme ord q =
     (let meth = ToLower (qc_QuantMethod q)
      in if meth \<noteq> ''compressed-tensors'' \<and> meth \<noteq> ''compressed_tensors'' then
           (if qc_Bits q = 8 \<and> (meth = ''awq'' \<or> meth = ''gptq'') then ''int8'' else meth)
         else case first_scheme (map snd (ord (qc_ConfigGroups q))) of
           Some s \<Rightarrow> s | None \<Rightarrow> ''compressed-tensors'')"

definition is_full_attention :: "string \<Rightarrow> bool" where
  "is_full_attention t \<longleftrightarrow> ToLower t = ''full_attention'' \<or> ToLower t = ''attention''"

definition attentionLayout :: "hfFields \<Rightarrow> int \<times> bool" where
  "attentionLayout c =
     (if hf_LayerTypes c \<noteq> [] then
        (int (length (filter is_full_attention (hf_LayerTypes c))),
         \<not> list_all is_full_attention (hf_LayerTypes c))
      else if hf_FullAttentionInterval c > 1 \<and> hf_NumLayers c > 0
      then (go_div (hf_NumLayers c) (hf_FullAttentionInterval c), True)
      else if hf_LinearConvKernelDim c > 0 \<or> hf_MambaSSMDType c \<noteq> [] then (hf_NumLayers c, True)
      else (hf_NumLayers c, False))"

definition computeActiveParams :: "hfFields \<Rightarrow> Info \<Rightarrow> Info" where
  "computeActiveParams cfg i =
     (let experts = routedExperts cfg
      in if experts = 0 \<or> hf_MoEIntermediate cfg = 0 \<or> hf_HiddenSize cfg = 0 \<or> i_Params i = 0 then i
         else let perExpert = int64 (3 * hf_HiddenSize cfg * hf_MoEIntermediate cfg);
                  moeLayers = int64 (hf_NumLayers cfg - hf_FirstKDenseReplace cfg);
                  moeLayers = (if moeLayers \<le> 0 then hf_NumLayers cfg else moeLayers);
                  totalExpert = int64 (experts * perExpert * moeLayers);
                  perTok = int64 (hf_ExpertsPerTok cfg + hf_SharedExperts cfg)
              in if perTok \<le> 0 then i
                 else let activeExpert = int64 (perTok * perExpert * moeLayers);
                          active = int64 (i_Params i - (totalExpert - activeExpert))
                      in if active > 0 \<and> active < i_Params i then i\<lparr>i_ActiveParams := active\<rparr> else i)"

definition FormatParams :: "int \<Rightarrow> string" where
  "FormatParams n =
     (if n \<le> 0 then ''unknown''
      else if n \<ge> 10 ^ 12 then fmt_fixed 1 (f_div (f_of_int n) (10 ^ 12)) @ ''T''
      else if n \<ge> 10 ^ 9 then fmt_fixed 1 (f_div (f_of_int n) (10 ^ 9)) @ ''B''
      else if n \<ge> 10 ^ 6 then fmt_fixed 0 (f_div (f_of_int n) (10 ^ 6)) @ ''M''
      else Itoa n)"

definition quantBytesForDType :: "string \<Rightarrow> rat" where
  "quantBytesForDType d =
     (let d = ToLower d
      in if d \<in> set [''float32'', ''f32'', ''i32'', ''u32''] then 4
         else if d \<in> set [''float8_e4m3fn'', ''float8_e5m2'', ''f8_e4m3'', ''f8_e5m2'', ''int8'', ''i8'', ''u8''] then 1
         else if d \<in> set [''i4'', ''u4'', ''f4'', ''fp4'', ''nvfp4''] then 1 / 2
         else 2)"

definition ActiveParamsOrAll :: "Info \<Rightarrow> int" where
  "ActiveParamsOrAll i = (if i_ActiveParams i > 0 then i_ActiveParams i else i_Params i)"

definition IsLocalPath :: "string \<Rightarrow> bool" where
  "IsLocalPath p \<longleftrightarrow> HasPrefix p ''/'' \<or> HasPrefix p ''./'' \<or> HasPrefix p ''~/''"

subsection \<open>The registry\<close>

text \<open>
  \<^verbatim>\<open>getJSON\<close>: a request is the address and the \<^verbatim>\<open>Authorization\<close> header; an answer that arrives has a status
  code, its text and the body decoded into the caller's type (or the decoder's error).
\<close>

type_synonym hf_request = "string \<times> string option"

datatype 'a hf_answer = NoAnswer string | Answered int string "string + 'a"

record registry =
  reg_model :: "hf_request \<Rightarrow> hfModelResponse hf_answer"
  reg_config :: "hf_request \<Rightarrow> hfConfig hf_answer"
  reg_files :: "hf_request \<Rightarrow> string list hf_answer"
  reg_search :: "hf_request \<Rightarrow> (string \<times> int) list hf_answer"

record Client =
  c_Token :: string

definition hfAPI :: string where
  "hfAPI = ''https://huggingface.co''"

definition getJSON :: "Client \<Rightarrow> (hf_request \<Rightarrow> 'a hf_answer) \<Rightarrow> string \<Rightarrow> string + 'a" where
  "getJSON c serve url =
     (case serve (url, if c_Token c \<noteq> [] then Some (''Bearer '' @ c_Token c) else None) of
        NoAnswer e \<Rightarrow> Inl e
      | Answered code status body \<Rightarrow>
          if code = 200 then body
          else if code = 404 then
            Inl ''not found on HuggingFace (check spelling, or the repo may be private)''
          else if code = 401 \<or> code = 403 then
            Inl ''access denied: this repo is gated or private, set a HuggingFace token''
          else Inl (''huggingface returned '' @ status))"

subsection \<open>Describing a model\<close>

text \<open>
  What \<^verbatim>\<open>Fetch\<close> and \<^verbatim>\<open>fetchLocal\<close> both read off a configuration. \<open>raw\<close> is the whole configuration, \<open>cfg\<close> its
  language model with the quantization block of the wrapper where it has none of its own, and
  \<open>layout\<close> the attention layout, which the two callers take from different configurations.
\<close>

definition language_part :: "hfConfig \<Rightarrow> hfFields" where
  "language_part raw =
     (let cfg = hf (languageConfig raw)
      in if hf_QuantizationConfig cfg = None
         then cfg\<lparr>hf_QuantizationConfig := hf_QuantizationConfig (hf raw)\<rparr> else cfg)"

definition first_architecture :: "hfFields \<Rightarrow> hfFields \<Rightarrow> string" where
  "first_architecture raw cfg =
     (case hf_Architectures raw of
        a # _ \<Rightarrow> a
      | [] \<Rightarrow> (case hf_Architectures cfg of a # _ \<Rightarrow> a | [] \<Rightarrow> []))"

definition describe ::
  "((string \<times> (int \<times> string) option) list \<Rightarrow> (string \<times> (int \<times> string) option) list) \<Rightarrow>
   hfFields \<Rightarrow> hfFields \<Rightarrow> int \<times> bool \<Rightarrow> Info \<Rightarrow> Info" where
  "describe ord raw cfg layout i =
     i\<lparr>i_MaxPositions := hf_MaxPositions cfg,
       i_HiddenSize := hf_HiddenSize cfg,
       i_NumLayers := hf_NumLayers cfg,
       i_NumHeads := hf_NumHeads cfg,
       i_VocabSize := hf_VocabSize cfg,
       i_DType := hf_TorchDType cfg,
       i_Architecture := first_architecture raw cfg,
       i_HasVision := hf_VisionConfig raw,
       i_HasAudio := hf_AudioConfig raw,
       i_NumKVHeads := (if hf_NumKVHeads cfg = 0 then hf_NumHeads cfg else hf_NumKVHeads cfg),
       i_HeadDim := (if hf_HeadDim cfg = 0 \<and> hf_NumHeads cfg > 0
                     then go_div (hf_HiddenSize cfg) (hf_NumHeads cfg) else hf_HeadDim cfg),
       i_IsMoE := routedExperts cfg > 0,
       i_IsMLA := hf_QLoRARank cfg > 0 \<or> hf_KVLoRARank cfg > 0,
       i_FullAttentionLayers := fst layout,
       i_IsHybrid := snd layout,
       i_PublishedQuant := (case hf_QuantizationConfig cfg of None \<Rightarrow> [] | Some q \<Rightarrow> scheme ord q)\<rparr>"

text \<open>The dominant type among the stored parameters.\<close>

definition dominant :: "(string \<times> int) list \<Rightarrow> string \<Rightarrow> string" where
  "dominant ps d =
     snd (fold (\<lambda>(dt, n) (best, d). if n > best then (n, dt) else (best, d)) ps (0, d))"

text \<open>A checkpoint on disk: what \<^verbatim>\<open>os.Stat\<close>, \<^verbatim>\<open>os.ReadFile\<close>, the decoder and \<^verbatim>\<open>os.ReadDir\<close> answer.\<close>

datatype stat_result = StatError string | IsFile | IsDirectory

record disk =
  dk_home :: "string option"
  dk_stat :: "string \<Rightarrow> stat_result"
  dk_config :: "string \<Rightarrow> string + bytes"
  dk_decode :: "bytes \<Rightarrow> string + hfConfig"
  dk_entries :: "string \<Rightarrow> (string \<times> bool \<times> int option) list"

definition expand_home :: "disk \<Rightarrow> string \<Rightarrow> string" where
  "expand_home dk dir =
     (if HasPrefix dir ''~/''
      then (case dk_home dk of Some home \<Rightarrow> path_join home (drop 2 dir) | None \<Rightarrow> dir) else dir)"

definition weigh_entry :: "string \<Rightarrow> string \<times> bool \<times> int option \<Rightarrow> int \<times> string \<Rightarrow> int \<times> string" where
  "weigh_entry dir e acc =
     (case (e, acc) of ((n, isdir, sz), (sofar, gguf)) \<Rightarrow>
        if isdir then (sofar, gguf)
        else if HasSuffix n ''.safetensors'' \<or> HasSuffix n ''.bin'' then
          (if HasPrefix n ''.'' then (sofar, gguf)
           else case sz of Some k \<Rightarrow> (int64 (sofar + k), gguf) | None \<Rightarrow> (sofar, gguf))
        else if HasSuffix n ''.gguf'' then (sofar, path_join dir n)
        else (sofar, gguf))"

definition fetchLocal ::
  "((string \<times> (int \<times> string) option) list \<Rightarrow> (string \<times> (int \<times> string) option) list) \<Rightarrow>
   disk \<Rightarrow> string \<Rightarrow> string + Info" where
  "fetchLocal ord dk dir0 =
     (let dir = expand_home dk dir0
      in case dk_stat dk dir of
           StatError e \<Rightarrow> Inl (''read '' @ dir @ '': '' @ e)
         | IsFile \<Rightarrow> Inl (dir @ '' is a file; point at the directory holding config.json'')
         | IsDirectory \<Rightarrow>
             (case dk_config dk (path_join dir ''config.json'') of
                Inl e \<Rightarrow> Inl (''no config.json in '' @ dir @ '': '' @ e)
              | Inr bytes \<Rightarrow>
                  (case dk_decode dk bytes of
                     Inl e \<Rightarrow> Inl (''parse config.json in '' @ dir @ '': '' @ e)
                   | Inr raw \<Rightarrow>
                       let cfg = language_part raw;
                           i = describe ord (hf raw) cfg (attentionLayout (hf raw))
                                 (zero_info\<lparr>i_ID := dir, i_Local := True\<rparr>);
                           (wbytes, gguf) = fold (weigh_entry dir) (dk_entries dk dir) (0, []);
                           params = (if wbytes > 0
                                     then f_trunc (f_div (f_of_int wbytes) (quantBytesForDType (i_DType i))) else 0)
                       in Inr (i\<lparr>i_LocalGGUF := gguf, i_CheckpointBytes := wbytes,
                                 i_Params := params, i_ActiveParams := params\<rparr>))))"

definition Fetch ::
  "((string \<times> (int \<times> string) option) list \<Rightarrow> (string \<times> (int \<times> string) option) list) \<Rightarrow>
   ((string \<times> int) list \<Rightarrow> (string \<times> int) list) \<Rightarrow>
   Client \<Rightarrow> registry \<Rightarrow> disk \<Rightarrow> string \<Rightarrow> string + Info" where
  "Fetch ord ord2 c reg dk id0 =
     (let id1 = TrimSpace id0
      in if IsLocalPath id1 then fetchLocal ord dk id1
         else let id2 = Trim id1 ''/''
              in if id2 = [] \<or> length (filter (\<lambda>ch. ch = CHR ''/'') id2) \<noteq> 1 then
                   Inl (''model id must be in owner/name form or an absolute path, got '' @ quote_q id2)
                 else case getJSON c (reg_model reg) (hfAPI @ ''/api/models/'' @ id2 @ ''?blobs=true'') of
                   Inl e \<Rightarrow> Inl (''look up '' @ id2 @ '': '' @ e)
                 | Inr meta \<Rightarrow>
                     (case getJSON c (reg_config reg) (hfAPI @ ''/'' @ id2 @ ''/raw/main/config.json'') of
                        Inl e \<Rightarrow> Inl (''read config.json for '' @ id2 @ '': '' @ e)
                      | Inr raw \<Rightarrow>
                          let cfg = language_part raw;
                              i = describe ord (hf raw) cfg (attentionLayout cfg)
                                    (zero_info\<lparr>i_ID := id2, i_Downloads := hm_Downloads meta,
                                               i_Tags := hm_Tags meta, i_Private := hm_Private meta,
                                               i_Gated := hm_Gated meta \<noteq> NoGate \<and>
                                                           hm_Gated meta \<noteq> GateBool False\<rparr>);
                              i = i\<lparr>i_CheckpointBytes := meta_weightBytes meta\<rparr>;
                              i = (case hm_Safetensors meta of
                                     None \<Rightarrow> i
                                   | Some st \<Rightarrow> i\<lparr>i_Params := st_Total st,
                                                  i_DType := dominant (ord2 (st_Parameters st)) (i_DType i)\<rparr>);
                              i = computeActiveParams cfg i
                          in Inr (i\<lparr>i_ParamsLabel := FormatParams (i_Params i)\<rparr>)))"

end
