(* ===== verification/Go_Regexp.thy ===== *)
theory Go_Regexp
  imports Go_Strings
begin

text \<open>
  The regular expressions of Go's \<^verbatim>\<open>regexp\<close> package the program uses, by their leftmost-first meaning:
  \<open>re_ends r n i s\<close> lists the positions of \<open>s\<close> at which a match of \<open>r\<close> that starts at \<open>i\<close> can end, in the
  order of preference (left alternative first, repetitions greedy). A repetition unfolds at most \<open>n\<close>
  times, so the length of the text is enough when its body consumes at least a character.
\<close>

datatype regexp =
    Class "char \<Rightarrow> bool"
  | TextBegin
  | TextEnd
  | Empty
  | Seq regexp regexp
  | Alt regexp regexp
  | Star regexp

fun star_ends :: "(nat \<Rightarrow> nat list) \<Rightarrow> nat \<Rightarrow> nat \<Rightarrow> nat list" where
  "star_ends step 0 i = [i]"
| "star_ends step (Suc n) i =
     concat (map (star_ends step n) (filter (\<lambda>j. i < j) (step i))) @ [i]"

fun re_ends :: "regexp \<Rightarrow> string \<Rightarrow> nat \<Rightarrow> nat list" where
  "re_ends (Class p) s i = (if i < length s \<and> p (s ! i) then [Suc i] else [])"
| "re_ends TextBegin s i = (if i = 0 then [i] else [])"
| "re_ends TextEnd s i = (if i = length s then [i] else [])"
| "re_ends Empty s i = [i]"
| "re_ends (Seq a b) s i = concat (map (re_ends b s) (re_ends a s i))"
| "re_ends (Alt a b) s i = re_ends a s i @ re_ends b s i"
| "re_ends (Star a) s i = star_ends (re_ends a s) (length s) i"

abbreviation Plus :: "regexp \<Rightarrow> regexp" where
  "Plus a \<equiv> Seq a (Star a)"

abbreviation Opt :: "regexp \<Rightarrow> regexp" where
  "Opt a \<equiv> Alt a Empty"

fun Literal :: "string \<Rightarrow> regexp" where
  "Literal [] = Empty"
| "Literal (c # cs) = Seq (Class (\<lambda>x. lower_char x = lower_char c)) (Literal cs)"

text \<open>
  A match of \<open>a b c\<close> at \<open>i\<close>, with the span of the middle group and the end, and all the non-overlapping
  matches from the left (\<^verbatim>\<open>FindAllStringSubmatch\<close>) as the texts of the middle group. The search goes on
  where a match ended; every match the program looks for is nonempty.
\<close>

definition group_at :: "regexp \<Rightarrow> regexp \<Rightarrow> regexp \<Rightarrow> string \<Rightarrow> nat \<Rightarrow> (nat \<times> nat \<times> nat) option" where
  "group_at a b c s i =
     (case [(k, l, e). k \<leftarrow> re_ends a s i, l \<leftarrow> re_ends b s k, e \<leftarrow> re_ends c s l] of
        [] \<Rightarrow> None | m # _ \<Rightarrow> Some m)"

fun find_groups :: "nat \<Rightarrow> regexp \<Rightarrow> regexp \<Rightarrow> regexp \<Rightarrow> string \<Rightarrow> nat \<Rightarrow> string list" where
  "find_groups 0 a b c s i = []"
| "find_groups (Suc n) a b c s i =
     (if length s < i then []
      else case group_at a b c s i of
        None \<Rightarrow> find_groups n a b c s (Suc i)
      | Some (k, l, e) \<Rightarrow> take (l - k) (drop k s) # find_groups n a b c s (max e (Suc i)))"

definition FindAllSubmatch :: "regexp \<Rightarrow> regexp \<Rightarrow> regexp \<Rightarrow> string \<Rightarrow> string list" where
  "FindAllSubmatch a b c s = find_groups (Suc (length s)) a b c s 0"

end
