(* ===== verification/Model_Search.thy ===== *)
theory Model_Search
  imports Model_Spec Go_Regexp "HOL-Library.Product_Lexorder"
begin

text \<open>
  Finding another publication of a model (\<^verbatim>\<open>src/internal/modelspec/modelspec.go\<close>): GGUF conversions for
  llama.cpp with the quantizations each repository holds, and pre-quantized checkpoints for vLLM.
  The registry's search is fuzzy, so what counts is which of its hits survive.
\<close>

subsection \<open>Data\<close>

record GGUFCandidate =
  g_Repo :: string
  g_Downloads :: int
  g_Official :: bool
  g_Quants :: "string list"
  g_exact :: bool

record QuantCandidate =
  q_Repo :: string
  q_Quant :: string
  q_Downloads :: int
  q_Official :: bool

subsection \<open>The quantizations of a repository\<close>

definition ggufQuantOrder :: "string list" where
  "ggufQuantOrder =
     [''q4_k_m'', ''q4_k_s'', ''q4_0'', ''q5_k_m'', ''q5_0'', ''q6_k'', ''q8_0'', ''f16'', ''bf16'']"

definition has_quant :: "string list \<Rightarrow> string \<Rightarrow> bool" where
  "has_quant qs q = (case find (\<lambda>v. EqualFold v q) qs of Some v \<Rightarrow> v \<noteq> [] | None \<Rightarrow> False)"

definition PickQuant :: "GGUFCandidate \<Rightarrow> string \<Rightarrow> string" where
  "PickQuant g want =
     (case g_Quants g of
        [] \<Rightarrow> want
      | first # _ \<Rightarrow>
          if want \<noteq> [] \<and> has_quant (g_Quants g) want then want
          else case find (has_quant (g_Quants g)) ggufQuantOrder of Some q \<Rightarrow> q | None \<Rightarrow> first)"

definition tag_separator :: "char \<Rightarrow> bool" where
  "tag_separator c \<longleftrightarrow> c = CHR ''-'' \<or> c = CHR ''_'' \<or> c = CHR ''.''"

definition tag_char :: "char \<Rightarrow> bool" where
  "tag_char c \<longleftrightarrow>
     is_digit c \<or> (97 \<le> (of_char (lower_char c) :: nat) \<and> (of_char (lower_char c) :: nat) \<le> 122)"

definition quantTagPattern :: "regexp \<times> regexp \<times> regexp" where
  "quantTagPattern =
     (Alt TextBegin (Class tag_separator),
      Alt (Literal ''bf16'') (Alt (Literal ''f16'') (Alt (Literal ''f32'')
        (Seq (Opt (Literal ''i'')) (Seq (Literal ''q'') (Seq (Plus (Class is_digit))
          (Star (Seq (Literal ''_'') (Plus (Class tag_char))))))))),
      Alt (Class tag_separator) TextEnd)"

definition drop_shard :: "string \<Rightarrow> string" where
  "drop_shard base =
     (case Index (ToLower base) ''-of-'' of
        None \<Rightarrow> base
      | Some i \<Rightarrow>
          if i = 0 then base
          else case LastIndex (take i base) ''-'' of
            None \<Rightarrow> base
          | Some j \<Rightarrow> if j = 0 then base else take j base)"

definition quantFromFilename :: "string \<Rightarrow> string" where
  "quantFromFilename name =
     (if \<not> HasSuffix (ToLower name) ''.gguf'' then []
      else let base = drop_shard (TrimSuffix (TrimSuffix (path_base name) ''.gguf'') ''.GGUF'');
               m = (case quantTagPattern of (a, b, c) \<Rightarrow> FindAllSubmatch a b c base)
           in if m = [] then [] else ToLower (last m))"

definition collect_quant :: "string \<Rightarrow> string list \<Rightarrow> string list" where
  "collect_quant f out =
     (let q = quantFromFilename f in if q \<noteq> [] \<and> q \<notin> set out then out @ [q] else out)"

definition quantsInRepo :: "Client \<Rightarrow> registry \<Rightarrow> string \<Rightarrow> string list" where
  "quantsInRepo c reg repo =
     (case getJSON c (reg_files reg) (hfAPI @ ''/api/models/'' @ repo) of
        Inl _ \<Rightarrow> []
      | Inr files \<Rightarrow> fold collect_quant files [])"

subsection \<open>Conversions for llama.cpp\<close>

definition name_parts :: "string \<Rightarrow> string list" where
  "name_parts rest = FieldsFunc rest (\<lambda>r. r = CHR ''-'' \<or> r = CHR ''.'' \<or> r = CHR ''_'')"

definition conversion_part :: "string \<Rightarrow> bool" where
  "conversion_part p \<longleftrightarrow>
     p = ''gguf'' \<or> p = ''ggml'' \<or> HasPrefix p ''i1'' \<or> HasPrefix p ''imat'' \<or> HasPrefix p ''q'' \<or> HasPrefix p ''iq''"

definition isGGUFVariantOf :: "string \<Rightarrow> string \<Rightarrow> bool" where
  "isGGUFVariantOf candidate model =
     (let c = ToLower candidate; m = ToLower model
      in if \<not> HasPrefix c m then False
         else let rest = Trim (TrimPrefix c m) ''-._''
              in if rest = [] then True else list_all conversion_part (name_parts rest))"

definition better :: "GGUFCandidate \<Rightarrow> GGUFCandidate \<Rightarrow> bool" where
  "better a b \<longleftrightarrow>
     (g_exact b \<and> \<not> g_exact a) \<or>
     (g_exact b = g_exact a \<and> g_Official b \<and> \<not> g_Official a) \<or>
     (g_exact b = g_exact a \<and> g_Official b = g_Official a \<and> g_Downloads b > g_Downloads a)"

text \<open>The inner loop moves the candidate at \<open>j\<close> towards the front while it is better than its neighbour.\<close>

fun move_up :: "nat \<Rightarrow> GGUFCandidate list \<Rightarrow> GGUFCandidate list" where
  "move_up 0 c = c"
| "move_up (Suc j) c =
     (let a = c ! j; b = c ! Suc j
      in if \<not> better a b then c else move_up j (c[j := b, Suc j := a]))"

definition sortCandidates :: "GGUFCandidate list \<Rightarrow> GGUFCandidate list" where
  "sortCandidates c = fold move_up [1..<length c] c"

text \<open>
  The loops over the search results skip a repository that was seen before; \<open>pick\<close> makes a candidate of
  a hit or rejects it.
\<close>

fun select_hits :: "string list \<Rightarrow> (string \<times> int \<Rightarrow> 'c option) \<Rightarrow> (string \<times> int) list \<Rightarrow> 'c list" where
  "select_hits seen pick [] = []"
| "select_hits seen pick (r # rs) =
     (if fst r \<in> set seen then select_hits seen pick rs
      else (case pick r of None \<Rightarrow> [] | Some c \<Rightarrow> [c]) @ select_hits (fst r # seen) pick rs)"

definition gguf_hit :: "string \<Rightarrow> string \<Rightarrow> string \<times> int \<Rightarrow> GGUFCandidate option" where
  "gguf_hit owner name r =
     (case Cut (fst r) ''/'' of (candOwner, candName, ok) \<Rightarrow>
        if \<not> ok \<or> \<not> isGGUFVariantOf candName name then None
        else Some \<lparr>g_Repo = fst r, g_Downloads = snd r, g_Official = EqualFold candOwner owner,
                   g_Quants = [], g_exact = EqualFold candName (name @ ''-GGUF'')\<rparr>)"

definition list_quants :: "Client \<Rightarrow> registry \<Rightarrow> GGUFCandidate list \<Rightarrow> GGUFCandidate list" where
  "list_quants c reg out =
     map (\<lambda>g. g\<lparr>g_Quants := quantsInRepo c reg (g_Repo g)\<rparr>) (take 5 out) @ drop 5 out"

definition ResolveGGUF :: "Client \<Rightarrow> registry \<Rightarrow> string \<Rightarrow> string + GGUFCandidate list" where
  "ResolveGGUF c reg id0 =
     (case Cut id0 ''/'' of (owner, name, ok) \<Rightarrow>
        if \<not> ok then Inl (''model id must be in owner/name form, got '' @ quote_q id0)
        else case getJSON c (reg_search reg)
                    (hfAPI @ ''/api/models?search='' @ name @ ''&filter=gguf&sort=downloads&direction=-1&limit=20'') of
          Inl e \<Rightarrow> Inl e
        | Inr results \<Rightarrow>
            let out = list_quants c reg (sortCandidates (select_hits [] (gguf_hit owner name) results))
            in if out = []
               then Inl (''no GGUF conversion found for '' @ id0 @ ''; llama.cpp needs one, '' @
                         ''or use a GPU node with vLLM which reads the original weights'')
               else Inr out)"

subsection \<open>Quantized checkpoints for vLLM\<close>

definition quantSuffixes :: "(string \<times> string) list" where
  "quantSuffixes =
     [(''fp8'', ''fp8''), (''w8a8'', ''fp8''), (''fp8-dynamic'', ''fp8''), (''fp8dynamic'', ''fp8''),
      (''awq'', ''awq''), (''gptq'', ''gptq''), (''w4a16'', ''awq''), (''int4'', ''awq''), (''4bit'', ''awq''),
      (''nvfp4'', ''nvfp4''), (''fp4'', ''nvfp4''), (''mxfp4'', ''nvfp4'')]"

fun quant_parts :: "string \<Rightarrow> string list \<Rightarrow> string option" where
  "quant_parts quant [] = (if quant = [] then None else Some quant)"
| "quant_parts quant (p # ps) =
     (case map_of quantSuffixes p of
        Some q \<Rightarrow> quant_parts (if quant = [] then q else quant) ps
      | None \<Rightarrow> if p = ''quantized'' \<or> p = ''quant'' \<or> p = ''vllm'' then quant_parts quant ps else None)"

definition quantVariantOf :: "string \<Rightarrow> string \<Rightarrow> string option" where
  "quantVariantOf candidate model =
     (let c = ToLower candidate; m = ToLower model
      in if \<not> HasPrefix c m then None
         else let rest = Trim (TrimPrefix c m) ''-._''
              in if rest = [] then None else quant_parts [] (name_parts rest))"

definition quant_hit :: "string \<Rightarrow> string \<Rightarrow> string \<times> int \<Rightarrow> QuantCandidate option" where
  "quant_hit owner name r =
     (case Cut (fst r) ''/'' of (candOwner, candName, ok) \<Rightarrow>
        if \<not> ok then None
        else if EqualFold candOwner ''mlx-community'' then None
        else case quantVariantOf candName name of
          None \<Rightarrow> None
        | Some q \<Rightarrow> Some \<lparr>q_Repo = fst r, q_Quant = q, q_Downloads = snd r,
                          q_Official = EqualFold candOwner owner\<rparr>)"

text \<open>\<^verbatim>\<open>sort.SliceStable\<close> by the order "official before not, then more downloads first".\<close>

definition quant_rank :: "QuantCandidate \<Rightarrow> bool \<times> int" where
  "quant_rank q = (\<not> q_Official q, - q_Downloads q)"

definition ResolveQuantized :: "Client \<Rightarrow> registry \<Rightarrow> string \<Rightarrow> string + QuantCandidate list" where
  "ResolveQuantized c reg id0 =
     (case Cut id0 ''/'' of (owner, name, ok) \<Rightarrow>
        if \<not> ok then Inl (''model id must be in owner/name form, got '' @ quote_q id0)
        else case getJSON c (reg_search reg)
                    (hfAPI @ ''/api/models?search='' @ name @ ''&sort=downloads&direction=-1&limit=50'') of
          Inl e \<Rightarrow> Inl e
        | Inr results \<Rightarrow>
            let out = sort_key quant_rank (select_hits [] (quant_hit owner name) results)
            in if out = []
               then Inl (''no pre-quantized publication of '' @ id0 @ '' found on HuggingFace'')
               else Inr out)"

subsection \<open>Ranking\<close>

definition gguf_rank :: "GGUFCandidate \<Rightarrow> bool \<times> bool \<times> int" where
  "gguf_rank g = (\<not> g_exact g, \<not> g_Official g, - g_Downloads g)"

lemma better_rank: "better a b \<longleftrightarrow> gguf_rank b < gguf_rank a"
  by (auto simp: better_def gguf_rank_def less_prod_def' less_bool_def)

fun climb :: "GGUFCandidate \<Rightarrow> GGUFCandidate list \<Rightarrow> GGUFCandidate list" where
  "climb x [] = [x]"
| "climb x (a # as) = (if better a x then a # climb x as else x # a # as)"

lemma move_up_climb: "move_up (length pre) (pre @ x # post) = rev (climb x (rev pre)) @ post"
proof (induction pre arbitrary: post rule: rev_induct)
  case (snoc a pre)
  show ?case
  proof (cases "better a x")
    case True
    then show ?thesis
      using snoc.IH [of "a # post"] by (simp add: nth_append list_update_append)
  qed (simp add: nth_append)
qed simp

lemma sortCandidates_climb: "sortCandidates c = rev (fold climb c [])"
proof -
  have "i < length c \<Longrightarrow>
      fold move_up [1..<Suc i] c = rev (fold climb (take (Suc i) c) []) @ drop (Suc i) c" for i
  proof (induction i)
    case 0
    then show ?case by (cases c) auto
  next
    case (Suc i)
    have len: "length (fold climb xs ys) = length xs + length ys" for xs ys
    proof (induction xs arbitrary: ys)
      case (Cons x xs)
      have "length (climb x ys) = Suc (length ys)" by (induction ys) auto
      with Cons show ?case by simp
    qed simp
    have "fold move_up [1..<Suc (Suc i)] c = move_up (Suc i) (fold move_up [1..<Suc i] c)"
      by simp
    also have "\<dots> = move_up (Suc i) (rev (fold climb (take (Suc i) c) []) @ c ! Suc i # drop (Suc (Suc i)) c)"
      using Suc by (simp add: Cons_nth_drop_Suc)
    also have "\<dots> = rev (climb (c ! Suc i) (fold climb (take (Suc i) c) [])) @ drop (Suc (Suc i)) c"
      using move_up_climb [of "rev (fold climb (take (Suc i) c) [])"] Suc.prems by (simp add: len)
    also have "climb (c ! Suc i) (fold climb (take (Suc i) c) []) = fold climb (take (Suc (Suc i)) c) []"
      using Suc.prems by (simp add: take_Suc_conv_app_nth [of "Suc i"])
    finally show ?case .
  qed
  from this [of "length c - 1"] show ?thesis
    by (cases c) (simp_all add: sortCandidates_def)
qed

lemma climb_mset: "mset (climb x as) = add_mset x (mset as)"
  by (induction as) auto

lemma climb_sorted:
  "sorted (map gguf_rank (rev as)) \<Longrightarrow> sorted (map gguf_rank (rev (climb x as)))"
proof (induction as)
  case (Cons a as)
  have "set (climb x as) = insert x (set as)"
    using climb_mset [of x as] by (metis set_mset_add_mset_insert set_mset_mset)
  with Cons show ?case
    by (auto simp: sorted_append better_rank not_less)
qed simp

lemma climb_filter:
  "filter (\<lambda>y. k = gguf_rank y) (climb x as) =
     (if k = gguf_rank x then x # filter (\<lambda>y. k = gguf_rank y) as else filter (\<lambda>y. k = gguf_rank y) as)"
  by (induction as) (auto simp: better_rank)

lemma fold_climb_mset: "mset (fold climb xs as) = mset xs + mset as"
  by (induction xs arbitrary: as) (simp_all add: climb_mset)

lemma fold_climb_sorted:
  "sorted (map gguf_rank (rev as)) \<Longrightarrow> sorted (map gguf_rank (rev (fold climb xs as)))"
  by (induction xs arbitrary: as) (simp_all add: climb_sorted)

lemma fold_climb_filter:
  "filter (\<lambda>y. k = gguf_rank y) (fold climb xs as) =
     rev (filter (\<lambda>y. k = gguf_rank y) xs) @ filter (\<lambda>y. k = gguf_rank y) as"
  by (induction xs arbitrary: as) (simp_all add: climb_filter)

lemma sortCandidates_sort_key: "sortCandidates c = sort_key gguf_rank c"
proof -
  have "sort_key gguf_rank c = rev (fold climb c [])"
  proof (rule properties_for_sort_key)
    show "mset (rev (fold climb c [])) = mset c" using fold_climb_mset [of c "[]"] by simp
    show "sorted (map gguf_rank (rev (fold climb c [])))" using fold_climb_sorted [of "[]" c] by simp
    show "filter (\<lambda>x. gguf_rank k = gguf_rank x) (rev (fold climb c [])) =
            filter (\<lambda>x. gguf_rank k = gguf_rank x) c" for k
      using fold_climb_filter [of "gguf_rank k" c "[]"] by (simp flip: rev_filter)
  qed
  then show ?thesis by (simp add: sortCandidates_climb)
qed

text \<open>
  The in-place exchange loop orders the candidates exactly as a stable sort by rank does: exact
  conversions first, then the owner's, then by downloads, ties in the order of the search.
\<close>

theorem sortCandidates_stable: "sortCandidates c = sort_key gguf_rank c"
  by (rule sortCandidates_sort_key)

subsection \<open>What the searches return\<close>

lemma FieldsFunc_dropWhile: "FieldsFunc (dropWhile p s) p = FieldsFunc s p"
  by (induction s) (auto simp: FieldsFunc_def)

lemma split_where_trailing:
  "\<forall>c \<in> set t. p c \<Longrightarrow> split_where p acc (s @ t) = split_where p acc s @ replicate (length t) []"
proof (induction s arbitrary: acc)
  case Nil
  then show ?case
  proof (induction t arbitrary: acc)
    case (Cons c t)
    then show ?case by simp
  qed simp
qed simp

lemma FieldsFunc_trim_right: "FieldsFunc (trim_right p s) p = FieldsFunc s p"
proof -
  obtain t where t: "s = trim_right p s @ t" "\<forall>c \<in> set t. p c"
    using trim_right_split by blast
  show ?thesis
    by (subst (2) t(1)) (simp add: FieldsFunc_def split_where_trailing [OF t(2)])
qed

lemma name_parts_Trim: "name_parts (Trim s ''-._'') = name_parts s"
proof -
  have p: "(\<lambda>r. r = CHR ''-'' \<or> r = CHR ''.'' \<or> r = CHR ''_'') = (\<lambda>c. c \<in> set ''-._'')"
    by auto
  show ?thesis
    by (simp only: name_parts_def Trim_def p FieldsFunc_trim_right FieldsFunc_dropWhile)
qed

text \<open>The name is the model's name followed by nothing but accepted parts.\<close>

lemma isGGUFVariantOf_iff:
  "isGGUFVariantOf candidate model \<longleftrightarrow>
     (\<exists>rest. ToLower candidate = ToLower model @ rest \<and> (\<forall>p \<in> set (name_parts rest). conversion_part p))"
proof -
  have "list_all conversion_part (name_parts rest)" if "Trim rest ''-._'' = []" for rest
    using name_parts_Trim [of rest] that by (simp add: name_parts_def FieldsFunc_def)
  then show ?thesis
    by (auto simp: isGGUFVariantOf_def Let_def HasPrefix_iff name_parts_Trim list_all_iff)
qed

lemma select_hits_repos:
  assumes key: "\<And>r c. pick r = Some c \<Longrightarrow> repo c = fst r"
    and acc: "\<And>r. pick r \<noteq> None \<longleftrightarrow> accepts (fst r)"
  shows "repo ` set (select_hits seen pick rs) = {n \<in> fst ` set rs. accepts n \<and> n \<notin> set seen}"
    and "distinct (map repo (select_hits seen pick rs))"
proof (induction rs arbitrary: seen)
  case (Cons r rs)
  {
    case 1
    show ?case
    proof (cases "fst r \<in> set seen")
      case True
      with Cons.IH(1) [of seen] show ?thesis by auto
    next
      case False
      show ?thesis
      proof (cases "pick r")
        case None
        have "accepts n \<and> n \<notin> set (fst r # seen) \<longleftrightarrow> accepts n \<and> n \<notin> set seen" for n
          using acc [of r] None by auto
        with None False Cons.IH(1) [of "fst r # seen"] acc [of r] show ?thesis by auto
      next
        case (Some c)
        with Cons.IH(1) [of "fst r # seen"] key [OF Some] acc [of r] False show ?thesis by auto
      qed
    qed
  next
    case 2
    show ?case
    proof (cases "fst r \<in> set seen \<or> pick r = None")
      case True
      with Cons.IH(2) show ?thesis by (auto split: option.splits)
    next
      case False
      then obtain c where c: "pick r = Some c" by auto
      have "repo c \<notin> repo ` set (select_hits (fst r # seen) pick rs)"
        using Cons.IH(1) [of "fst r # seen"] key [OF c] by auto
      with Cons.IH(2) [of "fst r # seen"] c False show ?thesis by (auto simp: image_iff)
    qed
  }
qed simp_all

lemma select_hits_from:
  "c \<in> set (select_hits seen pick rs) \<Longrightarrow> \<exists>r \<in> set rs. pick r = Some c"
  by (induction rs arbitrary: seen) (auto split: if_splits option.splits)

definition is_conversion :: "string \<Rightarrow> string \<Rightarrow> bool" where
  "is_conversion name repo \<longleftrightarrow>
     (\<exists>candOwner candName rest. Cut repo ''/'' = (candOwner, candName, True) \<and>
        ToLower candName = ToLower name @ rest \<and> (\<forall>p \<in> set (name_parts rest). conversion_part p))"

lemma gguf_hit_accepts: "gguf_hit owner name r \<noteq> None \<longleftrightarrow> is_conversion name (fst r)"
proof -
  obtain a b ok where "Cut (fst r) ''/'' = (a, b, ok)" by (cases "Cut (fst r) ''/''")
  then show ?thesis
    by (auto simp: gguf_hit_def is_conversion_def isGGUFVariantOf_iff)
qed

lemma gguf_hit_repo: "gguf_hit owner name r = Some c \<Longrightarrow> g_Repo c = fst r"
  by (auto simp: gguf_hit_def split: prod.splits if_splits)

lemma list_quants_repos: "map g_Repo (list_quants c reg out) = map g_Repo out"
proof -
  have "map g_Repo (list_quants c reg out) = map g_Repo (take 5 out @ drop 5 out)"
    by (simp only: list_quants_def map_append) (simp add: comp_def)
  then show ?thesis by simp
qed

lemma list_quants_rank: "map gguf_rank (list_quants c reg out) = map gguf_rank out"
proof -
  have "map gguf_rank (list_quants c reg out) = map gguf_rank (take 5 out @ drop 5 out)"
    by (simp only: list_quants_def map_append) (simp add: comp_def gguf_rank_def)
  then show ?thesis by simp
qed

lemma list_quants_nth:
  "i < min 5 (length out) \<Longrightarrow>
     list_quants c reg out ! i = (out ! i)\<lparr>g_Quants := quantsInRepo c reg (g_Repo (out ! i))\<rparr>"
  by (simp add: list_quants_def nth_append)

text \<open>
  Looking for GGUF conversions of a model keeps exactly the hits of the registry's fuzzy search whose
  repository name is the model's name followed by nothing but conversion decoration (so never another
  model that shares words with it), each once; they come in the order exact conversion, owner's own,
  most downloaded, and the first five carry the quantizations their own files show. It is an error only
  when no hit is a conversion.
\<close>

theorem ResolveGGUF_conversions:
  assumes "Cut model ''/'' = (owner, name, True)"
    and "getJSON c (reg_search reg)
           (hfAPI @ ''/api/models?search='' @ name @ ''&filter=gguf&sort=downloads&direction=-1&limit=20'') =
         Inr results"
  shows "case ResolveGGUF c reg model of
           Inl e \<Rightarrow> \<forall>r \<in> set results. \<not> is_conversion name (fst r)
         | Inr out \<Rightarrow>
             g_Repo ` set out = {repo \<in> fst ` set results. is_conversion name repo} \<and>
             distinct (map g_Repo out) \<and> sorted (map gguf_rank out) \<and> out \<noteq> [] \<and>
             (\<forall>i < min 5 (length out). g_Quants (out ! i) = quantsInRepo c reg (g_Repo (out ! i)))"
proof -
  let ?hits = "select_hits [] (gguf_hit owner name) results"
  let ?sorted = "sortCandidates ?hits"
  let ?out = "list_quants c reg ?sorted"
  have out: "ResolveGGUF c reg model = (if ?out = [] then ResolveGGUF c reg model else Inr ?out)"
    and err: "?out = [] \<Longrightarrow> \<exists>e. ResolveGGUF c reg model = Inl e"
    using assms by (simp_all add: ResolveGGUF_def)
  have ms: "mset ?sorted = mset ?hits" by (simp add: sortCandidates_sort_key)
  have hits: "g_Repo ` set ?hits = {repo \<in> fst ` set results. is_conversion name repo}"
      "distinct (map g_Repo ?hits)"
    using select_hits_repos 
        [where pick = "gguf_hit owner name" and repo = g_Repo and accepts = "is_conversion name"
           and seen = "[]" and rs = results, OF gguf_hit_repo gguf_hit_accepts] by simp_all
  have repos: "g_Repo ` set ?out = g_Repo ` set ?hits"
    by (metis list.set_map list_quants_repos ms set_mset_mset)
  have len: "length ?out = length ?sorted"
    by (metis length_map list_quants_repos)
  show ?thesis
  proof (cases "?out = []")
    case True
    then have "{repo \<in> fst ` set results. is_conversion name repo} = {}"
      using repos hits(1) by simp
    with err [OF True] show ?thesis by auto
  next
    case False
    have "distinct (map g_Repo ?out)"
      using hits(2) ms by (metis list_quants_repos mset_eq_imp_distinct_iff mset_map)
    moreover have "sorted (map gguf_rank ?out)"
      by (simp add: list_quants_rank sortCandidates_sort_key)
    moreover have "g_Quants (?out ! i) = quantsInRepo c reg (g_Repo (?out ! i))" if "i < min 5 (length ?out)" for i
      using that by (simp add: list_quants_nth len)
    moreover have "ResolveGGUF c reg model = Inr ?out" using out False by simp
    ultimately show ?thesis using repos hits(1) False by auto
  qed
qed

definition sample_registry :: registry where
  "sample_registry =
     \<lparr>reg_model = (\<lambda>_. NoAnswer []), reg_config = (\<lambda>_. NoAnswer []),
      reg_files = (\<lambda>_. Answered 200 ''200 OK'' (Inr [''Qwen3-8B-Q8_0.gguf'', ''README.md''])),
      reg_search = (\<lambda>_. Answered 200 ''200 OK''
        (Inr [(''x/Qwen3-VL-8B-GGUF'', 9), (''u/qwen3-8b-i1-GGUF'', 7), (''Q/Qwen3-8B-GGUF'', 3),
              (''u/qwen3-8b-i1-GGUF'', 7)]))\<rparr>"

theorem ResolveGGUF_conversions_witness:
  "map g_Repo (projr (ResolveGGUF \<lparr>c_Token = []\<rparr> sample_registry ''Q/Qwen3-8B'')) =
     [''Q/Qwen3-8B-GGUF'', ''u/qwen3-8b-i1-GGUF''] \<and>
   g_Repo ` set (projr (ResolveGGUF \<lparr>c_Token = []\<rparr> sample_registry ''Q/Qwen3-8B'')) =
     {repo \<in> set [''x/Qwen3-VL-8B-GGUF'', ''u/qwen3-8b-i1-GGUF'', ''Q/Qwen3-8B-GGUF'', ''u/qwen3-8b-i1-GGUF''].
        is_conversion ''Qwen3-8B'' repo}"
proof -
  let ?rs = "[(''x/Qwen3-VL-8B-GGUF'', 9 :: int), (''u/qwen3-8b-i1-GGUF'', 7), (''Q/Qwen3-8B-GGUF'', 3),
              (''u/qwen3-8b-i1-GGUF'', 7)]"
  have run: "map_sum id (map g_Repo) (ResolveGGUF \<lparr>c_Token = []\<rparr> sample_registry ''Q/Qwen3-8B'') =
      Inr [''Q/Qwen3-8B-GGUF'', ''u/qwen3-8b-i1-GGUF'']"
    by code_simp
  have cut: "Cut ''Q/Qwen3-8B'' ''/'' = (''Q'', ''Qwen3-8B'', True)" by code_simp
  obtain out where out: "ResolveGGUF \<lparr>c_Token = []\<rparr> sample_registry ''Q/Qwen3-8B'' = Inr out"
      "map g_Repo out = [''Q/Qwen3-8B-GGUF'', ''u/qwen3-8b-i1-GGUF'']"
    using run by (cases "ResolveGGUF \<lparr>c_Token = []\<rparr> sample_registry ''Q/Qwen3-8B''") auto
  have "g_Repo ` set out = {repo \<in> fst ` set ?rs. is_conversion ''Qwen3-8B'' repo}"
    using ResolveGGUF_conversions [OF cut, of "\<lparr>c_Token = []\<rparr>" sample_registry ?rs] out(1)
    by (simp add: getJSON_def sample_registry_def)
  then show ?thesis using out by simp
qed

lemma quantsInRepo_nonempty: "[] \<notin> set (quantsInRepo c reg repo)"
proof -
  have step: "[] \<notin> set (collect_quant f out)" if "[] \<notin> set out" for f out
    using that by (cases "quantFromFilename f = [] \<or> quantFromFilename f \<in> set out")
      (simp_all add: collect_quant_def Let_def eq_commute [of "[]"])
  have "[] \<notin> set out \<Longrightarrow> [] \<notin> set (fold collect_quant files out)" for files out
    by (induction files arbitrary: out) (simp_all add: step)
  from this [of "[]"] show ?thesis
    by (cases "getJSON c (reg_files reg) (hfAPI @ ''/api/models/'' @ repo)") (simp_all add: quantsInRepo_def)
qed

lemma has_quantI:
  assumes "[] \<notin> set qs"
  shows "has_quant qs q \<longleftrightarrow> (\<exists>v \<in> set qs. EqualFold v q)"
proof (cases "find (\<lambda>v. EqualFold v q) qs")
  case None
  then have "\<not> (\<exists>v \<in> set qs. EqualFold v q)" by (auto simp: find_None_iff)
  with None show ?thesis by (simp add: has_quant_def)
next
  case (Some v)
  then show ?thesis using assms find_SomeD [OF Some] by (auto simp: has_quant_def)
qed

lemma PickQuant_published:
  assumes "g_Quants g = quantsInRepo c reg repo" and "g_Quants g \<noteq> []"
  shows "\<exists>q \<in> set (g_Quants g). EqualFold q (PickQuant g want)"
proof -
  have has: "has_quant (g_Quants g) q \<longleftrightarrow> (\<exists>v \<in> set (g_Quants g). EqualFold v q)" for q
    using has_quantI quantsInRepo_nonempty assms(1) by metis
  obtain f fs where qs: "g_Quants g = f # fs" using assms(2) by (cases "g_Quants g") auto
  show ?thesis
  proof (cases "want \<noteq> [] \<and> has_quant (g_Quants g) want")
    case True
    then show ?thesis using has [of want] by (simp add: PickQuant_def qs)
  next
    case False
    show ?thesis
    proof (cases "find (has_quant (g_Quants g)) ggufQuantOrder")
      case None
      with False show ?thesis by (auto simp: PickQuant_def qs EqualFold_def)
    next
      case (Some q)
      with False have "PickQuant g want = q" by (auto simp: PickQuant_def qs)
      then show ?thesis using find_SomeD [OF Some] has by simp
    qed
  qed
qed

definition sample_publications :: registry where
  "sample_publications =
     sample_registry\<lparr>reg_search := (\<lambda>_. Answered 200 ''200 OK''
        (Inr [(''x/Qwen3-8B-abliterated-AWQ'', 9), (''u/qwen3-8b-AWQ-int4'', 7), (''Q/Qwen3-8B-FP8'', 3)]))\<rparr>"

definition filler :: "string \<Rightarrow> bool" where
  "filler p \<longleftrightarrow> p = ''quantized'' \<or> p = ''quant'' \<or> p = ''vllm''"

lemma quant_parts_iff:
  "quant_parts q ps = Some r \<longleftrightarrow>
     (\<forall>p \<in> set ps. map_of quantSuffixes p \<noteq> None \<or> filler p) \<and>
     (if q \<noteq> [] then r = q
      else \<exists>rest. List.map_filter (map_of quantSuffixes) ps = r # rest)"
proof (induction ps arbitrary: q)
  case Nil
  then show ?case by (auto simp: List.map_filter_def)
next
  case (Cons p ps)
  have ne: "map_of quantSuffixes p = Some s \<Longrightarrow> s \<noteq> []" for s
    by (auto simp: quantSuffixes_def split: if_splits)
  show ?case
  proof (cases "map_of quantSuffixes p")
    case None
    then show ?thesis
      by (auto simp: Cons.IH filler_def List.map_filter_def)
  next
    case (Some s)
    then show ?thesis
      using ne [OF Some] by (auto simp: Cons.IH List.map_filter_def)
  qed
qed

definition names_quant :: "string \<Rightarrow> string \<Rightarrow> string \<Rightarrow> bool" where
  "names_quant name repo q \<longleftrightarrow>
     (\<exists>candOwner candName rest others.
        Cut repo ''/'' = (candOwner, candName, True) \<and> \<not> EqualFold candOwner ''mlx-community'' \<and>
        ToLower candName = ToLower name @ rest \<and>
        (\<forall>p \<in> set (name_parts rest). map_of quantSuffixes p \<noteq> None \<or> filler p) \<and>
        List.map_filter (map_of quantSuffixes) (name_parts rest) = q # others)"

lemma quantVariantOf_iff:
  "quantVariantOf candidate model = Some q \<longleftrightarrow>
     (\<exists>rest others. ToLower candidate = ToLower model @ rest \<and>
        (\<forall>p \<in> set (name_parts rest). map_of quantSuffixes p \<noteq> None \<or> filler p) \<and>
        List.map_filter (map_of quantSuffixes) (name_parts rest) = q # others)"
proof -
  have "name_parts rest = []" if "Trim rest ''-._'' = []" for rest
    using name_parts_Trim [of rest] that by (simp add: name_parts_def FieldsFunc_def)
  then show ?thesis
    by (auto simp: quantVariantOf_def Let_def HasPrefix_iff name_parts_Trim quant_parts_iff
      List.map_filter_def)
qed

lemma names_quant_iff:
  "names_quant name repo q \<longleftrightarrow>
     (\<exists>candOwner candName. Cut repo ''/'' = (candOwner, candName, True) \<and>
        \<not> EqualFold candOwner ''mlx-community'' \<and> quantVariantOf candName name = Some q)"
  unfolding names_quant_def quantVariantOf_iff by blast

lemma quant_hit_Some:
  "quant_hit owner name r = Some c \<Longrightarrow> q_Repo c = fst r \<and> names_quant name (fst r) (q_Quant c)"
  by (auto simp: quant_hit_def names_quant_iff split: prod.splits if_splits option.splits)

lemma quant_hit_accepts: "quant_hit owner name r \<noteq> None \<longleftrightarrow> (\<exists>q. names_quant name (fst r) q)"
proof -
  obtain a b ok where "Cut (fst r) ''/'' = (a, b, ok)" by (cases "Cut (fst r) ''/''")
  then show ?thesis
    by (cases "quantVariantOf b name") (auto simp: quant_hit_def names_quant_iff)
qed

text \<open>
  Looking for pre-quantized publications keeps exactly the hits that are the model's name followed by
  nothing but quantization decoration (no derivative, nothing from the Apple-only publisher), each once
  and with the scheme its name spells first, which is one vLLM can serve; the publisher's own come first,
  then the most downloaded.
\<close>

theorem ResolveQuantized_publications:
  assumes "Cut model ''/'' = (owner, name, True)"
    and "getJSON c (reg_search reg)
           (hfAPI @ ''/api/models?search='' @ name @ ''&sort=downloads&direction=-1&limit=50'') = Inr results"
  shows "case ResolveQuantized c reg model of
           Inl e \<Rightarrow> \<forall>r \<in> set results. \<forall>q. \<not> names_quant name (fst r) q
         | Inr out \<Rightarrow>
             q_Repo ` set out = {repo \<in> fst ` set results. \<exists>q. names_quant name repo q} \<and>
             distinct (map q_Repo out) \<and> sorted (map quant_rank out) \<and> out \<noteq> [] \<and>
             (\<forall>k \<in> set out. names_quant name (q_Repo k) (q_Quant k) \<and>
                q_Quant k \<in> {''fp8'', ''awq'', ''gptq'', ''nvfp4''})"
proof -
  let ?hits = "select_hits [] (quant_hit owner name) results"
  let ?out = "sort_key quant_rank ?hits"
  have hits: "q_Repo ` set ?hits = {repo \<in> fst ` set results. \<exists>q. names_quant name repo q}"
      "distinct (map q_Repo ?hits)"
    using select_hits_repos
        [where pick = "quant_hit owner name" and repo = q_Repo and seen = "[]" and rs = results
           and accepts = "\<lambda>n. \<exists>q. names_quant name n q",
         OF conjunct1 [OF quant_hit_Some] quant_hit_accepts] by simp_all
  have named: "names_quant name (q_Repo k) (q_Quant k)" if "k \<in> set ?hits" for k
    using select_hits_from [OF that] quant_hit_Some by metis
  have scheme: "q \<in> {''fp8'', ''awq'', ''gptq'', ''nvfp4''}" if named: "names_quant name repo q" for repo q
  proof -
    from named obtain ps others where "List.map_filter (map_of quantSuffixes) ps = q # others"
      unfolding names_quant_def by blast
    then have "q \<in> set (List.map_filter (map_of quantSuffixes) ps)" by simp
    then obtain p where "map_of quantSuffixes p = Some q" by (auto simp: List.map_filter_def)
    then have "q \<in> snd ` set quantSuffixes" by (auto dest!: map_of_SomeD intro: rev_image_eqI)
    then show ?thesis by (auto simp: quantSuffixes_def)
  qed
  show ?thesis
  proof (cases "?hits = []")
    case True
    then have "{repo \<in> fst ` set results. \<exists>q. names_quant name repo q} = {}"
      using hits(1) by simp
    moreover from True have "\<exists>e. ResolveQuantized c reg model = Inl e"
      using assms by (simp add: ResolveQuantized_def)
    ultimately show ?thesis by auto
  next
    case False
    have ms: "mset ?out = mset ?hits" by simp
    have "?out \<noteq> []" using False ms by (metis mset_zero_iff)
    then have "ResolveQuantized c reg model = Inr ?out"
      using assms by (simp add: ResolveQuantized_def)
    moreover have "distinct (map q_Repo ?out)"
      using hits(2) ms by (metis mset_eq_imp_distinct_iff mset_map)
    ultimately show ?thesis
      using hits(1) named scheme \<open>?out \<noteq> []\<close> by auto
  qed
qed

theorem ResolveQuantized_publications_witness:
  "map q_Repo (projr (ResolveQuantized \<lparr>c_Token = []\<rparr> sample_publications ''Q/Qwen3-8B'')) =
     [''Q/Qwen3-8B-FP8'', ''u/qwen3-8b-AWQ-int4''] \<and>
   q_Repo ` set (projr (ResolveQuantized \<lparr>c_Token = []\<rparr> sample_publications ''Q/Qwen3-8B'')) =
     {repo \<in> set [''x/Qwen3-8B-abliterated-AWQ'', ''u/qwen3-8b-AWQ-int4'', ''Q/Qwen3-8B-FP8''].
        \<exists>q. names_quant ''Qwen3-8B'' repo q}"
proof -
  let ?rs = "[(''x/Qwen3-8B-abliterated-AWQ'', 9 :: int), (''u/qwen3-8b-AWQ-int4'', 7), (''Q/Qwen3-8B-FP8'', 3)]"
  have run: "map_sum id (map q_Repo) (ResolveQuantized \<lparr>c_Token = []\<rparr> sample_publications ''Q/Qwen3-8B'') =
      Inr [''Q/Qwen3-8B-FP8'', ''u/qwen3-8b-AWQ-int4'']"
    by code_simp
  have cut: "Cut ''Q/Qwen3-8B'' ''/'' = (''Q'', ''Qwen3-8B'', True)" by code_simp
  obtain out where out: "ResolveQuantized \<lparr>c_Token = []\<rparr> sample_publications ''Q/Qwen3-8B'' = Inr out"
      "map q_Repo out = [''Q/Qwen3-8B-FP8'', ''u/qwen3-8b-AWQ-int4'']"
    using run by (cases "ResolveQuantized \<lparr>c_Token = []\<rparr> sample_publications ''Q/Qwen3-8B''") auto
  have "q_Repo ` set out = {repo \<in> fst ` set ?rs. \<exists>q. names_quant ''Qwen3-8B'' repo q}"
    using ResolveQuantized_publications [OF cut, of "\<lparr>c_Token = []\<rparr>" sample_publications ?rs] out(1)
    by (simp add: getJSON_def sample_publications_def)
  then show ?thesis using out by simp
qed

end
