(* ===== verification/Model_Hardware.thy ===== *)
theory Model_Hardware
  imports Go_Format
begin

text \<open>
  What the planner knows about hardware (\<^verbatim>\<open>src/internal/modelspec/plan.go\<close>): a node and its GPUs, the
  capabilities of a GPU generation read off a card's name, which checkpoint formats an architecture
  runs, and how many GPUs a model can be sharded over.
\<close>

subsection \<open>Nodes\<close>

record GPU =
  gpu_Name :: string
  gpu_VRAMBytes :: int
  gpu_Index :: int

record Node =
  n_Name :: string
  n_GPUs :: "GPU list"
  n_CPUCores :: int
  n_CPUModel :: string
  n_RAMBytes :: int
  n_DiskFreeBytes :: int
  n_MemBandwidthGBs :: rat
  n_HasNVMe :: bool
  n_GPUFraction :: rat
  n_DriverCUDA :: string
  n_TorchCUDA :: string

definition parseCUDA :: "string \<Rightarrow> int \<times> int \<times> bool" where
  "parseCUDA v0 =
     (let v = TrimSpace v0
      in if v = [] then (0, 0, False)
         else let parts = Split v CHR ''.'';
                  (major, ok) = Atoi (hd parts)
              in if \<not> ok then (0, 0, False)
                 else (major, if length parts > 1 then fst (Atoi (parts ! 1)) else 0, True))"

definition cudaOlderThan :: "string \<Rightarrow> string \<Rightarrow> bool" where
  "cudaOlderThan a b =
     (case (parseCUDA a, parseCUDA b) of ((amaj, amin, aok), (bmaj, bmin, bok)) \<Rightarrow>
        if \<not> aok \<or> \<not> bok then False
        else if amaj \<noteq> bmaj then amaj < bmaj
        else amin < bmin)"

definition gpuShare :: "Node \<Rightarrow> rat" where
  "gpuShare n = (if n_GPUFraction n \<le> 0 \<or> n_GPUFraction n > 1 then 1 else n_GPUFraction n)"

definition HasGPU :: "Node \<Rightarrow> bool" where
  "HasGPU n \<longleftrightarrow> length (n_GPUs n) > 0"

definition TotalVRAM :: "Node \<Rightarrow> int" where
  "TotalVRAM n = fold (\<lambda>g t. int64 (t + gpu_VRAMBytes g)) (n_GPUs n) 0"

definition perGPUVRAM :: "Node \<Rightarrow> int" where
  "perGPUVRAM n =
     fold (\<lambda>g m. if m = 0 \<or> gpu_VRAMBytes g < m then gpu_VRAMBytes g else m) (n_GPUs n) 0"

subsection \<open>Architectures\<close>

record arch =
  a_name :: string
  a_bf16 :: bool
  a_fp8 :: bool
  a_fp8Weights :: bool
  a_nvfp4 :: bool
  a_int4 :: bool
  a_flashAttention2 :: bool
  a_crippledFP16 :: bool
  a_fp8KVCache :: bool

definition no_arch :: "string \<Rightarrow> arch" where
  "no_arch name =
     \<lparr>a_name = name, a_bf16 = False, a_fp8 = False, a_fp8Weights = False, a_nvfp4 = False, a_int4 = False,
      a_flashAttention2 = False, a_crippledFP16 = False, a_fp8KVCache = False\<rparr>"

definition contains_any :: "string \<Rightarrow> string list \<Rightarrow> bool" where
  "contains_any n = list_ex (Contains n)"

definition isBlackwell :: "string \<Rightarrow> bool" where
  "isBlackwell name =
     contains_any (ToUpper name)
       [''B100'', ''B200'', ''GB200'', ''B300'', ''GB10'', ''DGX SPARK'', ''5090'', ''5080'', ''RTX PRO'']"

definition gpuHasFP8 :: "string \<Rightarrow> bool" where
  "gpuHasFP8 name =
     (let n = ToUpper name
      in if contains_any n [''A100'', ''A40'', ''A30'', ''A10'', ''A6000'', ''A5500'',
                            ''A5000'', ''A4500'', ''A4000'', ''A2000''] then False
         else if contains_any n [''H100'', ''H200'', ''H800'', ''B100'', ''B200'', ''GB200''] then True
         else if contains_any n [''L40'', ''L4'', ''ADA'', ''4090''] then True
         else if contains_any n [''5090'', ''RTX PRO''] then True
         else contains_any n [''GB10'', ''DGX SPARK''])"

definition supportsFP8 :: "Node \<Rightarrow> bool" where
  "supportsFP8 node =
     (if list_all (\<lambda>g. gpuHasFP8 (gpu_Name g)) (n_GPUs node) then length (n_GPUs node) > 0 else False)"

definition archOf :: "string \<Rightarrow> arch" where
  "archOf name =
     (let n = ToUpper name
      in if Contains n ''P100'' then no_arch ''Pascal''
         else if contains_any n [''P40'', ''P4 '', ''GTX 10'', ''TITAN X''] then
           (no_arch ''Pascal (consumer)'')\<lparr>a_crippledFP16 := True\<rparr>
         else if contains_any n [''V100'', ''TITAN V''] then no_arch ''Volta''
         else if contains_any n [''T4'', ''RTX 20'', ''QUADRO RTX''] then (no_arch ''Turing'')\<lparr>a_int4 := True\<rparr>
         else if gpuHasFP8 name then
           let a = (no_arch ''Ada or newer'')
                     \<lparr>a_bf16 := True, a_fp8 := True, a_fp8Weights := True, a_int4 := True,
                      a_flashAttention2 := True, a_fp8KVCache := True\<rparr>
           in if isBlackwell name then a\<lparr>a_name := ''Blackwell'', a_nvfp4 := True\<rparr> else a
         else (no_arch ''Ampere'')
                \<lparr>a_bf16 := True, a_fp8Weights := True, a_int4 := True, a_flashAttention2 := True,
                 a_fp8KVCache := True\<rparr>)"

text \<open>Folding another card's architecture into the node's.\<close>

definition merge_arch :: "arch \<Rightarrow> arch \<Rightarrow> arch" where
  "merge_arch out a =
     \<lparr>a_name = (if a_name a \<noteq> a_name out then ''mixed'' else a_name out),
      a_bf16 = a_bf16 out \<and> a_bf16 a,
      a_fp8 = a_fp8 out \<and> a_fp8 a,
      a_fp8Weights = a_fp8Weights out \<and> a_fp8Weights a,
      a_nvfp4 = a_nvfp4 out \<and> a_nvfp4 a,
      a_int4 = a_int4 out \<and> a_int4 a,
      a_flashAttention2 = a_flashAttention2 out \<and> a_flashAttention2 a,
      a_crippledFP16 = a_crippledFP16 out \<or> a_crippledFP16 a,
      a_fp8KVCache = a_fp8KVCache out \<and> a_fp8KVCache a\<rparr>"

definition nodeArch :: "Node \<Rightarrow> arch" where
  "nodeArch node =
     (case n_GPUs node of
        [] \<Rightarrow> \<lparr>a_name = ''unknown'', a_bf16 = True, a_fp8 = True, a_fp8Weights = True, a_nvfp4 = True,
               a_int4 = True, a_flashAttention2 = True, a_crippledFP16 = False, a_fp8KVCache = False\<rparr>
      | g # gs \<Rightarrow> fold (\<lambda>h out. merge_arch out (archOf (gpu_Name h))) gs (archOf (gpu_Name g)))"

subsection \<open>Formats\<close>

definition nativePrecision :: "arch \<Rightarrow> string" where
  "nativePrecision a = (if a_crippledFP16 a then ''fp32'' else if a_bf16 a then ''bf16'' else ''fp16'')"

definition canonicalQuant :: "string \<Rightarrow> string" where
  "canonicalQuant published =
     (let q = ToLower published
      in if q \<in> set [''fp8'', ''fbgemm_fp8''] then ''fp8''
         else if q \<in> set [''awq'', ''awq_marlin''] then ''awq''
         else if q \<in> set [''gptq'', ''gptq_marlin''] then ''gptq''
         else if q \<in> set [''modelopt_fp4'', ''nvfp4'', ''mxfp4''] then ''nvfp4''
         else if q \<in> set [''compressed-tensors'', ''compressed_tensors''] then ''compressed-tensors''
         else q)"

definition canRunQuant :: "arch \<Rightarrow> string \<Rightarrow> bool \<times> string" where
  "canRunQuant a quant =
     (if quant = ''fp8'' \<or> quant = ''compressed-tensors'' then
        (if a_fp8 a \<or> a_fp8Weights a then (True, []) else (False, ''fp8 checkpoints need Ampere or newer''))
      else if quant = ''awq'' \<or> quant = ''gptq'' then
        (if a_int4 a then (True, []) else (False, ''AWQ and GPTQ kernels need Turing or newer''))
      else if quant = ''int8'' then (True, [])
      else if quant = ''nvfp4'' then
        (if a_nvfp4 a then (True, []) else (False, ''NVFP4 needs Blackwell''))
      else if quant = ''bf16'' then
        (if a_bf16 a then (True, []) else (False, ''bfloat16 needs Ampere or newer''))
      else (True, []))"

definition smallerFormat :: "arch \<Rightarrow> string \<Rightarrow> string" where
  "smallerFormat a current =
     (if current \<in> set [''fp32'', ''fp16'', ''bf16''] then
        (if a_fp8Weights a then ''fp8'' else if a_int4 a then ''awq'' else [])
      else if current \<in> set [''fp8'', ''compressed-tensors''] then (if a_int4 a then ''awq'' else [])
      else [])"

subsection \<open>Sharding and bandwidth\<close>

text \<open>The loop counts down from the number of GPUs to 2.\<close>

fun tp_loop :: "int \<Rightarrow> int \<Rightarrow> nat \<Rightarrow> int" where
  "tp_loop gpus kvHeads 0 = 1"
| "tp_loop gpus kvHeads (Suc 0) = 1"
| "tp_loop gpus kvHeads (Suc (Suc n)) =
     (let tp = int (Suc (Suc n))
      in if gpus mod tp = 0 \<and> (kvHeads = 0 \<or> kvHeads mod tp = 0) then tp
         else tp_loop gpus kvHeads (Suc n))"

definition largestValidTP :: "int \<Rightarrow> int \<Rightarrow> int" where
  "largestValidTP gpus kvHeads = (if gpus \<le> 1 then 1 else tp_loop gpus kvHeads (nat gpus))"

definition bandwidth_table :: "(string \<times> rat) list" where
  "bandwidth_table =
     [(''GB10'', 273), (''DGX SPARK'', 273), (''GB300'', 8000),
      (''B200'', 8000), (''H200'', 4800), (''H100 SXM'', 3350), (''H100'', 2000),
      (''A100-SXM'', 2039), (''A100 80'', 2039), (''A100'', 1555),
      (''RTX PRO 6000'', 1792), (''5090'', 1792),
      (''6000 ADA'', 960), (''L40'', 864), (''A6000'', 768), (''A40'', 696),
      (''A10G'', 600), (''A10'', 600), (''L4'', 300),
      (''A16'', 200), (''A2'', 200),
      (''4090'', 1008), (''3090 TI'', 1008), (''3090'', 936), (''3080 TI'', 912),
      (''4080'', 717), (''3080'', 760), (''A5000'', 768), (''A4500'', 640),
      (''A4000'', 448), (''4070'', 504), (''3070'', 448), (''2080'', 448),
      (''V100'', 900), (''P100'', 732), (''GTX 10'', 484)]"

definition gpuBandwidthGBs :: "string \<Rightarrow> rat \<times> bool" where
  "gpuBandwidthGBs name =
     (case find (\<lambda>(m, _). Contains (ToUpper name) m) bandwidth_table of
        Some (_, bw) \<Rightarrow> (bw, True) | None \<Rightarrow> (600, False))"

subsection \<open>Facts\<close>

lemma tp_loop_spec:
  "1 \<le> n \<Longrightarrow>
     1 \<le> tp_loop g k n \<and> tp_loop g k n \<le> int n \<and>
     tp_loop g k n dvd g \<and> tp_loop g k n dvd k \<and>
     (\<forall>d. 1 \<le> d \<and> d \<le> int n \<and> d dvd g \<and> d dvd k \<longrightarrow> d \<le> tp_loop g k n)"
proof (induction g k n rule: tp_loop.induct)
  case (3 g k n)
  show ?case
  proof (cases "int (Suc (Suc n)) dvd g \<and> int (Suc (Suc n)) dvd k")
    case True
    then have "tp_loop g k (Suc (Suc n)) = int (Suc (Suc n))"
      by (simp add: Let_def dvd_eq_mod_eq_0)
    with True show ?thesis by simp
  next
    case False
    then have eq: "tp_loop g k (Suc (Suc n)) = tp_loop g k (Suc n)"
      by (auto simp: Let_def dvd_eq_mod_eq_0)
    have "\<not> (g mod int (Suc (Suc n)) = 0 \<and> (k = 0 \<or> k mod int (Suc (Suc n)) = 0))"
      using False by (auto simp: dvd_eq_mod_eq_0)
    with 3 have "1 \<le> tp_loop g k (Suc n) \<and> tp_loop g k (Suc n) \<le> int (Suc n) \<and>
        tp_loop g k (Suc n) dvd g \<and> tp_loop g k (Suc n) dvd k \<and>
        (\<forall>d. 1 \<le> d \<and> d \<le> int (Suc n) \<and> d dvd g \<and> d dvd k \<longrightarrow> d \<le> tp_loop g k (Suc n))"
      by (simp add: Let_def)
    moreover have "d \<le> int (Suc n)" if "d \<le> int (Suc (Suc n))" "d dvd g" "d dvd k" for d
      using that False by (cases "d = int (Suc (Suc n))") auto
    ultimately show ?thesis unfolding eq by force
  qed
qed simp_all

lemma largestValidTP_is_gcd:
  assumes "1 \<le> gpus"
  shows "largestValidTP gpus kvHeads = gcd gpus kvHeads"
proof (cases "gpus \<le> 1")
  case True
  with assms show ?thesis by (simp add: largestValidTP_def)
next
  case False
  let ?t = "tp_loop gpus kvHeads (nat gpus)"
  have spec: "1 \<le> ?t" "?t dvd gpus" "?t dvd kvHeads"
      "\<And>d. 1 \<le> d \<Longrightarrow> d \<le> gpus \<Longrightarrow> d dvd gpus \<Longrightarrow> d dvd kvHeads \<Longrightarrow> d \<le> ?t"
    using tp_loop_spec [of "nat gpus" gpus kvHeads] False by auto
  have "?t dvd gcd gpus kvHeads" using spec by simp
  moreover have "0 < gcd gpus kvHeads" using assms by auto
  ultimately have "?t \<le> gcd gpus kvHeads" by (simp add: zdvd_imp_le)
  moreover have "gcd gpus kvHeads \<le> ?t"
    using assms \<open>0 < gcd gpus kvHeads\<close> by (intro spec(4)) (auto simp: zdvd_imp_le)
  ultimately show ?thesis using False by (simp add: largestValidTP_def)
qed

lemma perGPUVRAM_min:
  assumes "\<And>g. g \<in> set (n_GPUs n) \<Longrightarrow> 0 < gpu_VRAMBytes g" and "h \<in> set (n_GPUs n)"
  shows "0 < perGPUVRAM n \<and> perGPUVRAM n \<le> gpu_VRAMBytes h"
proof -
  let ?f = "\<lambda>g m. if m = 0 \<or> gpu_VRAMBytes g < m then gpu_VRAMBytes g else m"
  have low: "\<forall>g \<in> set gs. 0 < gpu_VRAMBytes g \<Longrightarrow> 0 < m \<Longrightarrow>
      0 < fold ?f gs m \<and> fold ?f gs m \<le> m \<and> (\<forall>g \<in> set gs. fold ?f gs m \<le> gpu_VRAMBytes g)" for gs m
  proof (induction gs arbitrary: m)
    case (Cons g gs)
    then have "0 < ?f g m" by auto
    with Cons.IH [of "?f g m"] Cons.prems show ?case by (auto split: if_splits)
  qed simp
  obtain g gs where gs: "n_GPUs n = g # gs" using assms(2) by (cases "n_GPUs n") auto
  have "perGPUVRAM n = fold ?f gs (gpu_VRAMBytes g)"
    by (simp add: perGPUVRAM_def gs)
  moreover have "\<forall>g \<in> set gs. 0 < gpu_VRAMBytes g" "0 < gpu_VRAMBytes g"
    using assms(1) gs by auto
  ultimately show ?thesis using low [of gs "gpu_VRAMBytes g"] assms(2) gs by auto
qed

text \<open>An architecture is no more capable than another when it has a subset of its capabilities.\<close>

definition weaker :: "arch \<Rightarrow> arch \<Rightarrow> bool" where
  "weaker a b \<longleftrightarrow>
     (a_bf16 a \<longrightarrow> a_bf16 b) \<and> (a_fp8 a \<longrightarrow> a_fp8 b) \<and> (a_fp8Weights a \<longrightarrow> a_fp8Weights b) \<and>
     (a_nvfp4 a \<longrightarrow> a_nvfp4 b) \<and> (a_int4 a \<longrightarrow> a_int4 b) \<and> (a_fp8KVCache a \<longrightarrow> a_fp8KVCache b) \<and>
     (a_flashAttention2 a \<longrightarrow> a_flashAttention2 b) \<and> (a_crippledFP16 b \<longrightarrow> a_crippledFP16 a)"

lemma weaker_refl [simp]: "weaker a a"
  by (simp add: weaker_def)

lemma weaker_trans: "weaker a b \<Longrightarrow> weaker b c \<Longrightarrow> weaker a c"
  by (simp add: weaker_def)

lemma weaker_merge: "weaker (merge_arch a b) a" "weaker (merge_arch a b) b"
  by (simp_all add: weaker_def merge_arch_def)

lemma canRunQuant_iff:
  "fst (canRunQuant a q) \<longleftrightarrow>
     (if q = ''fp8'' \<or> q = ''compressed-tensors'' then a_fp8 a \<or> a_fp8Weights a
      else if q = ''awq'' \<or> q = ''gptq'' then a_int4 a
      else if q = ''int8'' then True
      else if q = ''nvfp4'' then a_nvfp4 a
      else if q = ''bf16'' then a_bf16 a else True)"
  by (simp add: canRunQuant_def)

lemma if_imp_mono: "(p \<longrightarrow> p') \<Longrightarrow> (q \<longrightarrow> q') \<Longrightarrow> (if c then p else q) \<longrightarrow> (if c then p' else q')"
  by simp

lemma canRunQuant_weaker:
  assumes "weaker a b" and "fst (canRunQuant a q)"
  shows "fst (canRunQuant b q)"
proof -
  have "fst (canRunQuant a q) \<longrightarrow> fst (canRunQuant b q)"
    unfolding canRunQuant_iff using assms(1) by (intro if_imp_mono) (auto simp: weaker_def)
  with assms(2) show ?thesis by simp
qed

lemma nodeArch_weaker:
  assumes "g \<in> set (n_GPUs node)"
  shows "weaker (nodeArch node) (archOf (gpu_Name g))"
proof -
  let ?f = "\<lambda>h out. merge_arch out (archOf (gpu_Name h))"
  have "weaker (fold ?f gs a) a \<and> (\<forall>h \<in> set gs. weaker (fold ?f gs a) (archOf (gpu_Name h)))" for gs a
  proof (induction gs arbitrary: a)
    case (Cons h gs)
    then show ?case using weaker_merge weaker_trans by fastforce
  qed simp
  note all = this
  from assms obtain h gs where "n_GPUs node = h # gs" by (cases "n_GPUs node") auto
  with assms all [of gs "archOf (gpu_Name h)"] show ?thesis by (auto simp: nodeArch_def)
qed

text \<open>
  The search for a tensor-parallel size finds the greatest common divisor of the number of GPUs and the
  number of KV heads, the largest size vLLM accepts (all the GPUs when the heads impose nothing).
\<close>

theorem largestValidTP_gcd:
  "1 \<le> gpus \<Longrightarrow> largestValidTP gpus kvHeads = gcd gpus kvHeads"
  by (rule largestValidTP_is_gcd)

theorem largestValidTP_gcd_witness: "largestValidTP 8 12 = 4 \<and> largestValidTP 8 0 = 8"
  using largestValidTP_gcd [of 8 12] largestValidTP_gcd [of 8 0] by (simp add: gcd_code_int)

end
