(* ===== verification/Model_Plan.thy ===== *)
theory Model_Plan
  imports Model_Spec Model_Hardware
begin

text \<open>
  The planner (\<^verbatim>\<open>src/internal/modelspec/plan.go\<close>): from a model's description and a node's hardware to a
  serving configuration with its capacity, its warnings and its blockers. Sizes are \<^verbatim>\<open>int64\<close>, estimates
  \<^verbatim>\<open>float64\<close>; the conversion of a float to an integer is the one of \<open>f_trunc\<close>, which is the language's
  for values of the machine range.
\<close>

subsection \<open>Data and sizes\<close>

record Plan =
  p_Engine :: string
  p_Quantization :: string
  p_KVCacheDType :: string
  p_TensorParallel :: int
  p_MaxModelLen :: int
  p_MaxNumSeqs :: int
  p_WeightBytes :: int
  p_KVBytesPerTok :: int
  p_KVBudgetBytes :: int
  p_DiskBytes :: int
  p_EstTokensPerSec :: rat
  p_QuantFromCheckpoint :: bool
  p_NeedsQuantized :: bool
  p_CanStreamExperts :: bool
  p_RunnableQuants :: "string list"
  p_Fits :: bool
  p_Warnings :: "string list"
  p_Blockers :: "string list"
  p_Viable :: bool
  p_ViabilityNote :: string

definition empty_plan :: Plan where
  "empty_plan =
     \<lparr>p_Engine = [], p_Quantization = [], p_KVCacheDType = [], p_TensorParallel = 0, p_MaxModelLen = 0,
      p_MaxNumSeqs = 0, p_WeightBytes = 0, p_KVBytesPerTok = 0, p_KVBudgetBytes = 0, p_DiskBytes = 0,
      p_EstTokensPerSec = 0, p_QuantFromCheckpoint = False, p_NeedsQuantized = False,
      p_CanStreamExperts = False, p_RunnableQuants = [], p_Fits = False, p_Warnings = [],
      p_Blockers = [], p_Viable = False, p_ViabilityNote = []\<rparr>"

definition bytesBF16 :: rat where "bytesBF16 = 2"
definition bytesFP8 :: rat where "bytesFP8 = 1"
definition bytesINT4 :: rat where "bytesINT4 = fl64 (60 / 100)"
definition bytesQ4KM :: rat where "bytesQ4KM = fl64 (58 / 100)"
definition bytesQ8_0 :: rat where "bytesQ8_0 = fl64 (106 / 100)"
definition bytesKVElem :: rat where "bytesKVElem = 2"
definition defaultGPUMemUtil :: rat where "defaultGPUMemUtil = fl64 (90 / 100)"
definition cpuRAMHeadroomBytes :: int where "cpuRAMHeadroomBytes = 4 * 2 ^ 30"
definition gpuBandwidthEfficiency :: rat where "gpuBandwidthEfficiency = 3 / 4"
definition maxSingleStreamTPS :: rat where "maxSingleStreamTPS = 200"

definition quantBytes :: "string \<Rightarrow> rat" where
  "quantBytes q0 =
     (let q = ToLower q0
      in if q \<in> set [''fp32'', ''float32''] then 4
         else if q \<in> set [''bf16'', ''fp16'', ''float16'', ''bfloat16''] then bytesBF16
         else if q \<in> set [''fp8'', ''int8''] then bytesFP8
         else if q \<in> set [''awq'', ''gptq'', ''int4'', ''nvfp4'', ''fp4''] then bytesINT4
         else if q = ''q4_k_m'' then bytesQ4KM
         else if q = ''q8_0'' then bytesQ8_0
         else bytesBF16)"

definition sized :: "int \<Rightarrow> string \<Rightarrow> int" where
  "sized n quant = f_trunc (f_mul (f_of_int n) (quantBytes quant))"

definition weightBytes :: "Info \<Rightarrow> string \<Rightarrow> bool \<Rightarrow> int" where
  "weightBytes info quant asPublished =
     (if asPublished \<and> i_CheckpointBytes info > 0 then i_CheckpointBytes info
      else sized (i_Params info) quant)"

definition KVBytesPerToken :: "Info \<Rightarrow> int" where
  "KVBytesPerToken i =
     (if i_NumLayers i = 0 \<or> i_NumKVHeads i = 0 \<or> i_HeadDim i = 0 then 0
      else let layers = (if i_FullAttentionLayers i \<le> 0 then i_NumLayers i else i_FullAttentionLayers i)
           in f_trunc (f_mul (f_mul (f_mul (f_mul 2 (f_of_int layers)) (f_of_int (i_NumKVHeads i)))
                               (f_of_int (i_HeadDim i))) bytesKVElem))"

definition downloadBytes :: "Info \<Rightarrow> string \<Rightarrow> int" where
  "downloadBytes info quant = int64 (sized (i_Params info) quant + 2 * 2 ^ 30)"

definition chooseContext :: "Info \<Rightarrow> int \<Rightarrow> int" where
  "chooseContext info want =
     (if want > 0 then
        (if i_MaxPositions info > 0 \<and> want > i_MaxPositions info then i_MaxPositions info else want)
      else if i_MaxPositions info > 0 then i_MaxPositions info
      else 8192)"

fun human_scale :: "nat \<Rightarrow> int \<Rightarrow> int \<Rightarrow> nat \<Rightarrow> int \<times> nat" where
  "human_scale 0 n dv ex = (dv, ex)"
| "human_scale (Suc k) n dv ex =
     (if n \<ge> 1024 then human_scale k (n div 1024) (dv * 1024) (Suc ex) else (dv, ex))"

definition humanBytes :: "int \<Rightarrow> string" where
  "humanBytes b =
     (if b < 1024 then Itoa b @ '' B''
      else case human_scale 4 (b div 1024) 1024 0 of
        (dv, ex) \<Rightarrow> fmt_fixed 1 (f_div (f_of_int b) (f_of_int dv)) @ '' '' @ [''KMGTP'' ! ex] @ ''iB'')"

definition maxInt :: "int \<Rightarrow> int \<Rightarrow> int" where
  "maxInt a b = (if a > b then a else b)"

text \<open>\<^verbatim>\<open>append\<close> to the warnings or the blockers, under the condition of the \<^verbatim>\<open>if\<close> around it.\<close>

definition warn :: "bool \<Rightarrow> string \<Rightarrow> Plan \<Rightarrow> Plan" where
  "warn c msg p = p\<lparr>p_Warnings := p_Warnings p @ (if c then [msg] else [])\<rparr>"

definition block :: "bool \<Rightarrow> string \<Rightarrow> Plan \<Rightarrow> Plan" where
  "block c msg p = p\<lparr>p_Blockers := p_Blockers p @ (if c then [msg] else [])\<rparr>"

text \<open>What every early return leaves: no capacity.\<close>

definition no_capacity :: "Plan \<Rightarrow> Plan" where
  "no_capacity p =
     p\<lparr>p_MaxNumSeqs := 0, p_MaxModelLen := 0, p_KVBudgetBytes := 0, p_DiskBytes := 0, p_Fits := False\<rparr>"

definition SuggestPricing :: "Info \<Rightarrow> string \<times> string \<times> string" where
  "SuggestPricing info =
     (let active = f_of_int (if i_IsMoE info \<and> i_ActiveParams info > 0 then i_ActiveParams info
                             else i_Params info);
          b = f_div active (10 ^ 9);
          perMPrompt = max (fl64 (2 / 100)) (f_div (f_mul (fl64 (3 / 100)) b) 10);
          perMCompletion = f_mul perMPrompt 3;
          perMCached = f_mul perMPrompt (fl64 (2 / 10));
          f = (\<lambda>perMillion. TrimRight (TrimRight (fmt_fixed 11 (f_div perMillion (10 ^ 6))) ''0'') ''.'')
      in (f perMPrompt, f perMCompletion, f perMCached))"

subsection \<open>GPU nodes\<close>

text \<open>The plan is built in the stages of \<^verbatim>\<open>planGPU\<close>: the refusals first.\<close>

definition gpu_tp :: "Info \<Rightarrow> Node \<Rightarrow> int" where
  "gpu_tp info node =
     largestValidTP (int (length (n_GPUs node))) (if i_IsMLA info then 0 else i_NumKVHeads info)"

definition driver_message :: "Node \<Rightarrow> string" where
  "driver_message node =
     ''this host's NVIDIA driver supports CUDA '' @ n_DriverCUDA node @
     '' but the installed PyTorch was built for CUDA '' @ n_TorchCUDA node @
     '', so any engine exits at startup with '' @ [CHR 0x22] @
     ''the NVIDIA driver on your system is too old'' @ [CHR 0x22] @
     ''. The driver belongs to the host and cannot be upgraded from inside a container: '' @
     ''either reinstall vLLM against CUDA '' @ n_DriverCUDA node @
     '', or move to a host with a newer driver''"

definition gpu_quant :: "Info \<Rightarrow> arch \<Rightarrow> string \<times> bool" where
  "gpu_quant info a =
     (if i_PublishedQuant info \<noteq> [] then (canonicalQuant (i_PublishedQuant info), True)
      else (nativePrecision a, False))"

definition addressable :: "Node \<Rightarrow> int \<Rightarrow> int" where
  "addressable node tp = int64 (perGPUVRAM node * tp)"

definition gpu_usable :: "Node \<Rightarrow> int \<Rightarrow> int" where
  "gpu_usable node tp = f_trunc (f_mul (f_of_int (addressable node tp)) defaultGPUMemUtil)"

definition smaller_formats :: "Info \<Rightarrow> arch \<Rightarrow> string \<Rightarrow> int \<Rightarrow> string list" where
  "smaller_formats info a quant usable =
     map (\<lambda>f. (if f = ''fp8'' then ''fp8'' else ''AWQ or GPTQ 4-bit'') @ '' (~'' @
              humanBytes (sized (i_Params info) f) @ '')'')
       (filter (\<lambda>f. quantBytes f < quantBytes quant \<and> fst (canRunQuant a f) \<and>
                    int64 (usable - sized (i_Params info) f) > 0)
         [''fp8'', ''awq''])"

definition gpu_too_big :: "Info \<Rightarrow> Node \<Rightarrow> arch \<Rightarrow> string \<Rightarrow> int \<Rightarrow> Plan \<Rightarrow> Plan" where
  "gpu_too_big info node a quant usable p =
     (let tp = p_TensorParallel p;
          nGPU = int (length (n_GPUs node));
          reason = ''weights need '' @ humanBytes (p_WeightBytes p) @ '' at '' @ quant @ '', but only '' @
                   humanBytes (addressable node tp) @ '' is addressable ('' @ Itoa tp @ '' of '' @ Itoa nGPU @
                   '' GPU(s) at TP='' @ Itoa tp @ '')'' @
                   (if tp < nGPU
                    then ''; tensor parallelism is capped at '' @ Itoa tp @ '' because the model has '' @
                         Itoa (i_NumKVHeads info) @ '' KV head(s)'' else []);
          p = block True reason p;
          pool = int64 (usable + f_trunc (f_mul (f_of_int (n_RAMBytes node)) (3 / 4)));
          stream = i_IsMoE info \<and> a_name a \<noteq> ''unknown'' \<and> p_WeightBytes p < pool;
          p = block stream
                (''this is a mixture-of-experts model with '' @
                 humanBytes (sized (ActiveParamsOrAll info) quant) @ '' active of '' @
                 humanBytes (p_WeightBytes p) @ '' total, so an expert-streaming engine can serve it '' @
                 ''from VRAM plus host RAM ('' @ humanBytes pool @ '' together). That trades per-token '' @
                 ''speed for fitting at all, and needs an NVIDIA GPU on a CUDA 13 driver'')
                (p\<lparr>p_CanStreamExperts := stream\<rparr>);
          smaller = smaller_formats info a quant usable;
          p = block (smaller \<noteq> [])
                (''install a pre-quantized publication of this model instead -- '' @ Join smaller '' or '' @
                 '' would fit. Quantization lives in the checkpoint, so this needs a different '' @
                 ''HuggingFace repository, not a different flag'')
                (p\<lparr>p_NeedsQuantized := smaller \<noteq> [],
                   p_RunnableQuants := (if smaller \<noteq> []
                     then filter (\<lambda>f. fst (canRunQuant a f)) [''fp8'', ''awq'', ''gptq'', ''nvfp4'']
                     else p_RunnableQuants p)\<rparr>)
      in no_capacity p)"

text \<open>
  The capacity: the format of the KV cache and the context that leaves room for enough requests. The
  loop halves a context that is above the floor; a context is positive, so it stops.
\<close>

function trim_context :: "int \<Rightarrow> int \<Rightarrow> int \<Rightarrow> int" where
  "trim_context totalKVTokens low len =
     (if 0 < len \<and> len > low \<and> go_div totalKVTokens len < 8
      then trim_context totalKVTokens low (go_div len 2) else len)"
  by auto
termination by (relation "measure (\<lambda>(_, _, len). nat len)") (auto simp: go_div_def)

declare trim_context.simps [simp del]

definition gpu_cache :: "Info \<Rightarrow> arch \<Rightarrow> string \<Rightarrow> int \<Rightarrow> Plan \<Rightarrow> Plan" where
  "gpu_cache info a quant want p =
     (let fp8 = a_fp8KVCache a \<and> \<not> i_IsHybrid info
      in p\<lparr>p_KVCacheDType := (if fp8 then ''fp8'' else ''auto''),
           p_KVBytesPerTok := (if fp8 then go_div (KVBytesPerToken info) 2 else KVBytesPerToken info),
           p_MaxModelLen := chooseContext info want,
           p_DiskBytes := downloadBytes info quant\<rparr>)"

definition gpu_context :: "int \<Rightarrow> Plan \<Rightarrow> Plan" where
  "gpu_context want p =
     (if p_KVBytesPerTok p = 0 then
        warn True
          (''could not read this model's attention geometry, so the KV cache and concurrency '' @
           ''could not be computed; the figures above cover weights only'')
          (p\<lparr>p_MaxNumSeqs := 1\<rparr>)
      else if p_KVBytesPerTok p > 0 then
        let totalKVTokens = go_div (p_KVBudgetBytes p) (p_KVBytesPerTok p);
            original = p_MaxModelLen p;
            low = (if want > 0 then original else 8192);
            len = trim_context totalKVTokens low original;
            seqs = go_div totalKVTokens len;
            p = warn (len \<noteq> original)
                  (''context reduced from '' @ Itoa original @ '' to '' @ Itoa len @
                   '' so at least 8 requests fit concurrently; more VRAM would let you advertise the full window'')
                  (p\<lparr>p_MaxModelLen := len\<rparr>);
            p = warn (len = original \<and> want > 0 \<and> seqs < 8)
                  (''a '' @ Itoa len @ ''-token context leaves room for only '' @ Itoa seqs @
                   '' concurrent request(s): the KV cache holds '' @ Itoa totalKVTokens @
                   '' tokens in total and every in-flight request reserves the full window. Lowering the '' @
                   ''context to '' @ Itoa (go_div len 2) @ '' would roughly double that. Judge it against '' @
                   ''your traffic -- long prompts truncated at a short context lose the request outright, '' @
                   ''whereas low concurrency only queues it'') p
        in p\<lparr>p_MaxNumSeqs := (if seqs < p_MaxNumSeqs p then maxInt 1 seqs else p_MaxNumSeqs p)\<rparr>
      else p)"

text \<open>The warnings that describe the configuration.\<close>

definition gpu_warnings :: "Info \<Rightarrow> Node \<Rightarrow> arch \<Rightarrow> string \<Rightarrow> Plan \<Rightarrow> Plan" where
  "gpu_warnings info node a quant p =
     (let p = warn (p_MaxNumSeqs p < 4) ''very low concurrency; this GPU is undersized for this model'' p;
          p = warn (quant = ''awq'' \<or> quant = ''gptq'' \<or> quant = ''nvfp4'')
                (''this is a 4-bit checkpoint, which trades some output quality for the memory '' @
                 ''it frees; compare it against the full-precision model on your own prompts before publishing'') p;
          p = warn (quant = ''fp8'' \<and> \<not> a_fp8 a)
                (a_name a @ '' has no fp8 arithmetic, so the Marlin kernel unpacks these weights to fp16 '' @
                 ''after loading them. Both wins that matter here survive that: the weights take '' @
                 ''half the VRAM, which is what makes this model fit, and decoding reads half as '' @
                 ''many bytes per token. Only the fp8 tensor-core speed-up is missing'') p;
          p = warn (i_IsHybrid info)
                (''hybrid attention: '' @ Itoa (int64 (i_NumLayers info - i_FullAttentionLayers info)) @ '' of '' @
                 Itoa (i_NumLayers info) @ '' layers use Mamba-style linear attention and keep a '' @
                 ''fixed-size state instead of a growing cache, so only '' @ Itoa (i_FullAttentionLayers info) @
                 '' layers cost KV per token. vLLM has no fp8 path for that state, so the KV cache stays at '' @
                 ''fp16 and prefix caching is left off -- both fail at startup on these models'') p;
          p = warn (p_KVCacheDType p = ''fp8'')
                (''KV cache is planned at fp8, which halves its per-token cost and roughly doubles '' @
                 ''concurrency. Accuracy loss is small but grows with context length; measure it '' @
                 ''on long prompts before publishing, and fall back to --kv-cache-dtype auto if '' @
                 ''quality suffers'') p;
          p = warn (quant = ''fp16'' \<and> Contains (ToLower (i_DType info)) ''bf16'')
                (a_name a @ '' cannot run bfloat16, so this bf16 checkpoint must be narrowed to fp16; '' @
                 ''some models overflow and produce NaNs when converted'') p;
          p = warn (\<not> a_flashAttention2 a)
                (a_name a @ '' predates FlashAttention-2, so vLLM falls back to a slower attention backend; '' @
                 ''expect throughput below what the raw specifications suggest'') p;
          p = warn (HasPrefix (a_name a) ''Pascal'')
                (''Pascal is generations before vLLM's supported baseline; treat any plan on it '' @
                 ''as unproven and verify the model loads at all before paying for a month'') p;
          p = warn (a_crippledFP16 a)
                (''this card runs fp16 at 1/64 the rate of fp32, so the plan above uses fp32 and needs '' @
                 ''twice the memory. llama.cpp with a GGUF build is the practical route on these '' @
                 ''cards, at much lower concurrency than vLLM'') p;
          p = warn (\<not> n_HasNVMe node)
                ''no NVMe detected; weight loading from spinning disk will make restarts slow'' p
      in warn (i_HasVision info \<or> i_HasAudio info)
           (''multimodal model: the vision/audio encoder needs activation memory beyond the '' @
            ''figures above, and media expands into many tokens, so leave headroom and '' @
            ''measure with real image or video requests before advertising capacity'') p)"

text \<open>Disk and host memory.\<close>

definition gpu_host :: "Node \<Rightarrow> Plan \<Rightarrow> Plan" where
  "gpu_host node p =
     (let p = block (n_DiskFreeBytes node > 0 \<and> n_DiskFreeBytes node < p_DiskBytes p)
                (''needs about '' @ humanBytes (p_DiskBytes p) @ '' of disk for weights, only '' @
                 humanBytes (n_DiskFreeBytes node) @ '' free'') p;
          short = n_RAMBytes node > 0 \<and> n_RAMBytes node < p_WeightBytes p;
          msg = ''host has '' @ humanBytes (n_RAMBytes node) @ '' of RAM for '' @ humanBytes (p_WeightBytes p) @
                '' of weights; loading streams through host memory, '' @
                ''so expect slow starts and verify it completes before relying on it'';
          third = int64 (n_RAMBytes node * 3) < p_WeightBytes p
      in warn (short \<and> \<not> third) msg
           (block (short \<and> third)
              (msg @ '' '' @ em_dash @ '' at less than a third of the model size this usually fails to load at all'') p))"

definition gpu_speed :: "Info \<Rightarrow> Node \<Rightarrow> string \<Rightarrow> Plan \<Rightarrow> Plan" where
  "gpu_speed info node quant p =
     (let card = gpu_Name (hd (n_GPUs node));
          (bw, known) = gpuBandwidthGBs card;
          effective = f_mul (f_mul bw (f_of_int (p_TensorParallel p))) (gpuShare node);
          active = f_mul (f_of_int (if i_IsMoE info \<and> i_ActiveParams info > 0 then i_ActiveParams info
                                    else i_Params info)) (quantBytes quant);
          est = f_mul (f_div (f_mul effective (10 ^ 9)) active) gpuBandwidthEfficiency
      in warn (\<not> known)
           (''memory bandwidth for '' @ quote_q card @
            '' is not in our table, so the speed estimate assumes a mid-range '' @ fmt_fixed 0 bw @
            '' GB/s; check the card's specification before relying on it'')
           (p\<lparr>p_EstTokensPerSec := (if active > 0 then (if est > maxSingleStreamTPS then maxSingleStreamTPS else est)
                                    else p_EstTokensPerSec p)\<rparr>))"

definition gpu_advice :: "Info \<Rightarrow> Node \<Rightarrow> arch \<Rightarrow> string \<Rightarrow> Plan \<Rightarrow> Plan" where
  "gpu_advice info node a quant p =
     (let nxt = smallerFormat a quant;
          ratio = f_div (quantBytes quant) (quantBytes nxt);
          p = warn (nxt \<noteq> [] \<and> ratio \<ge> 3 / 2)
                (quant @ '' weights read '' @ fmt_fixed 1 ratio @ ''x more per token than '' @ nxt @
                 '' would. Installing a pre-quantized '' @ ToUpper nxt @ '' publication of this model instead '' @
                 ''would raise single-stream throughput to roughly '' @
                 fmt_fixed 0 (f_mul (p_EstTokensPerSec p) ratio) @ '' tok/s and free '' @
                 humanBytes (int64 (p_WeightBytes p - sized (i_Params info) nxt)) @
                 '' of VRAM for more concurrency, at some quality cost. Worth measuring both'') p
      in warn (gpuShare node < 1)
           (''this is a '' @ fmt_fixed 0 (f_mul (gpuShare node) 100) @
            ''% slice of a GPU, not a whole one: the VRAM figure is only half the '' @
            ''story, since the slice also gets roughly that share of the compute and therefore '' @
            ''of the throughput. Compare the price against a whole card before committing'') p)"

definition gpu_verdict :: "Plan \<Rightarrow> Plan" where
  "gpu_verdict p =
     (let fits = (p_Blockers p = []); viable = fits \<and> p_MaxNumSeqs p \<ge> 4
      in p\<lparr>p_Fits := fits, p_Viable := viable,
           p_ViabilityNote := (if viable then ''competitive for OpenRouter traffic''
                               else if fits then ''runs, but concurrency is too low to hold a routing slot''
                               else p_ViabilityNote p)\<rparr>)"

definition planGPU :: "Info \<Rightarrow> Node \<Rightarrow> int \<Rightarrow> Plan" where
  "planGPU info node want =
     (let tp = gpu_tp info node;
          a = nodeArch node;
          p = empty_plan\<lparr>p_Engine := ''vllm'', p_MaxNumSeqs := 256, p_TensorParallel := tp\<rparr>
      in if cudaOlderThan (n_DriverCUDA node) (n_TorchCUDA node)
         then no_capacity (block True (driver_message node) p)
         else
           let (quant, published) = gpu_quant info a;
               p = p\<lparr>p_QuantFromCheckpoint := published, p_Quantization := quant\<rparr>;
               (ok, why) = canRunQuant a quant
           in if \<not> ok then
                no_capacity (block True (''this checkpoint is published in '' @ quant @ '' and '' @ a_name a @
                  '': '' @ why) p)
              else
                let usable = gpu_usable node tp;
                    weights = weightBytes info quant published;
                    p = p\<lparr>p_WeightBytes := weights, p_KVBudgetBytes := int64 (usable - weights)\<rparr>
                in if p_KVBudgetBytes p \<le> 0 then gpu_too_big info node a quant usable p
                   else gpu_verdict (gpu_advice info node a quant (gpu_speed info node quant (gpu_host node
                          (gpu_warnings info node a quant (gpu_context want (gpu_cache info a quant want p)))))))"

subsection \<open>CPU nodes\<close>

definition planCPU :: "Info \<Rightarrow> Node \<Rightarrow> int \<Rightarrow> Plan" where
  "planCPU info node want =
     (let quant = ''q4_k_m'';
          ctxt = chooseContext info want;
          p = empty_plan\<lparr>p_Engine := ''llamacpp'', p_TensorParallel := 1, p_MaxNumSeqs := 4,
                p_Quantization := quant, p_WeightBytes := sized (i_Params info) quant,
                p_KVBytesPerTok := KVBytesPerToken info,
                p_MaxModelLen := (if ctxt > 32768 then 32768 else ctxt)\<rparr>;
          p = warn (ctxt > 32768) ''context capped at 32k; CPU prefill on long prompts is very slow'' p;
          usable = int64 (n_RAMBytes node - cpuRAMHeadroomBytes);
          p = p\<lparr>p_DiskBytes := downloadBytes info quant, p_KVBudgetBytes := int64 (usable - p_WeightBytes p)\<rparr>
      in if p_KVBudgetBytes p \<le> 0 then
           block True (''weights need '' @ humanBytes (p_WeightBytes p) @ '' at 4-bit but the node has '' @
             humanBytes (n_RAMBytes node) @ '' of RAM (leaving '' @ humanBytes cpuRAMHeadroomBytes @
             '' for the OS)'') p
         else
           let seqs = go_div (go_div (p_KVBudgetBytes p) (p_KVBytesPerTok p)) (p_MaxModelLen p);
               p = p\<lparr>p_MaxNumSeqs := (if p_KVBytesPerTok p > 0 \<and> seqs < p_MaxNumSeqs p then maxInt 1 seqs
                                      else p_MaxNumSeqs p)\<rparr>;
               p = block (n_DiskFreeBytes node > 0 \<and> n_DiskFreeBytes node < p_DiskBytes p)
                     (''needs '' @ humanBytes (p_DiskBytes p) @ '' of disk, only '' @
                      humanBytes (n_DiskFreeBytes node) @ '' free'') p;
               active = (if i_IsMoE info \<and> i_ActiveParams info > 0 then i_ActiveParams info else i_Params info);
               activeBytes = f_mul (f_of_int active) (quantBytes quant);
               bw = (if n_MemBandwidthGBs node \<le> 0 then 40 else n_MemBandwidthGBs node);
               p = p\<lparr>p_EstTokensPerSec :=
                       (if activeBytes > 0 then f_mul (f_div (f_mul bw (10 ^ 9)) activeBytes) (fl64 (65 / 100))
                        else p_EstTokensPerSec p)\<rparr>;
               p = warn (p_MaxNumSeqs p > 1)
                     (Itoa (p_MaxNumSeqs p) @ '' concurrent requests share this throughput, they do not multiply it: '' @
                      ''CPU decoding is memory-bandwidth bound, so batching buys far less than it does on a GPU'') p;
               fits = (p_Blockers p = []);
               viable = fits \<and> p_EstTokensPerSec p \<ge> 25;
               p = p\<lparr>p_Fits := fits, p_Viable := viable,
                     p_ViabilityNote :=
                       (if \<not> fits then ''does not fit on this node''
                        else if viable then
                          ''about '' @ fmt_fixed 0 (p_EstTokensPerSec p) @ '' tok/s; marginal but worth measuring''
                        else ''about '' @ fmt_fixed 1 (p_EstTokensPerSec p) @
                          '' tok/s on CPU. GPU providers serve this at 50-100+ tok/s, so OpenRouter would '' @
                          ''deprioritize this endpoint. Fine for testing the pipeline, not for live traffic.'')\<rparr>
           in warn (fits \<and> \<not> viable) ''CPU inference is not competitive for live OpenRouter traffic'' p)"

definition PlanFor :: "Info \<Rightarrow> Node \<Rightarrow> int \<Rightarrow> Plan" where
  "PlanFor info node want = (if HasGPU node then planGPU info node want else planCPU info node want)"

subsection \<open>What the stages keep\<close>

lemmas stage_defs = warn_def block_def no_capacity_def Let_def

lemma gpu_stages [simp]:
  "p_WeightBytes (gpu_warnings i n a q p) = p_WeightBytes p"
  "p_KVBudgetBytes (gpu_warnings i n a q p) = p_KVBudgetBytes p"
  "p_KVBytesPerTok (gpu_warnings i n a q p) = p_KVBytesPerTok p"
  "p_MaxModelLen (gpu_warnings i n a q p) = p_MaxModelLen p"
  "p_MaxNumSeqs (gpu_warnings i n a q p) = p_MaxNumSeqs p"
  "p_TensorParallel (gpu_warnings i n a q p) = p_TensorParallel p"
  "p_Quantization (gpu_warnings i n a q p) = p_Quantization p"
  "p_Blockers (gpu_warnings i n a q p) = p_Blockers p"
  "p_DiskBytes (gpu_warnings i n a q p) = p_DiskBytes p"
  by (simp_all add: gpu_warnings_def stage_defs)

lemma gpu_host_stage [simp]:
  "p_WeightBytes (gpu_host n p) = p_WeightBytes p"
  "p_KVBudgetBytes (gpu_host n p) = p_KVBudgetBytes p"
  "p_KVBytesPerTok (gpu_host n p) = p_KVBytesPerTok p"
  "p_MaxModelLen (gpu_host n p) = p_MaxModelLen p"
  "p_MaxNumSeqs (gpu_host n p) = p_MaxNumSeqs p"
  "p_TensorParallel (gpu_host n p) = p_TensorParallel p"
  "p_Quantization (gpu_host n p) = p_Quantization p"
  by (simp_all add: gpu_host_def stage_defs)

lemma gpu_speed_stage [simp]:
  "p_WeightBytes (gpu_speed i n q p) = p_WeightBytes p"
  "p_KVBudgetBytes (gpu_speed i n q p) = p_KVBudgetBytes p"
  "p_KVBytesPerTok (gpu_speed i n q p) = p_KVBytesPerTok p"
  "p_MaxModelLen (gpu_speed i n q p) = p_MaxModelLen p"
  "p_MaxNumSeqs (gpu_speed i n q p) = p_MaxNumSeqs p"
  "p_TensorParallel (gpu_speed i n q p) = p_TensorParallel p"
  "p_Quantization (gpu_speed i n q p) = p_Quantization p"
  "p_Blockers (gpu_speed i n q p) = p_Blockers p"
  by (simp_all add: gpu_speed_def stage_defs split: prod.split)

lemma gpu_advice_stage [simp]:
  "p_WeightBytes (gpu_advice i n a q p) = p_WeightBytes p"
  "p_KVBudgetBytes (gpu_advice i n a q p) = p_KVBudgetBytes p"
  "p_KVBytesPerTok (gpu_advice i n a q p) = p_KVBytesPerTok p"
  "p_MaxModelLen (gpu_advice i n a q p) = p_MaxModelLen p"
  "p_MaxNumSeqs (gpu_advice i n a q p) = p_MaxNumSeqs p"
  "p_TensorParallel (gpu_advice i n a q p) = p_TensorParallel p"
  "p_Quantization (gpu_advice i n a q p) = p_Quantization p"
  "p_Blockers (gpu_advice i n a q p) = p_Blockers p"
  by (simp_all add: gpu_advice_def stage_defs)

lemma gpu_verdict_stage [simp]:
  "p_WeightBytes (gpu_verdict p) = p_WeightBytes p"
  "p_KVBudgetBytes (gpu_verdict p) = p_KVBudgetBytes p"
  "p_KVBytesPerTok (gpu_verdict p) = p_KVBytesPerTok p"
  "p_MaxModelLen (gpu_verdict p) = p_MaxModelLen p"
  "p_MaxNumSeqs (gpu_verdict p) = p_MaxNumSeqs p"
  "p_TensorParallel (gpu_verdict p) = p_TensorParallel p"
  "p_Quantization (gpu_verdict p) = p_Quantization p"
  "p_Blockers (gpu_verdict p) = p_Blockers p"
  "p_Fits (gpu_verdict p) \<longleftrightarrow> p_Blockers p = []"
  "p_Viable (gpu_verdict p) \<longleftrightarrow> p_Blockers p = [] \<and> p_MaxNumSeqs p \<ge> 4"
  by (simp_all add: gpu_verdict_def Let_def)

lemma gpu_cache_stage [simp]:
  "p_WeightBytes (gpu_cache i a q w p) = p_WeightBytes p"
  "p_KVBudgetBytes (gpu_cache i a q w p) = p_KVBudgetBytes p"
  "p_MaxModelLen (gpu_cache i a q w p) = chooseContext i w"
  "p_MaxNumSeqs (gpu_cache i a q w p) = p_MaxNumSeqs p"
  "p_TensorParallel (gpu_cache i a q w p) = p_TensorParallel p"
  "p_Quantization (gpu_cache i a q w p) = p_Quantization p"
  by (simp_all add: gpu_cache_def Let_def)

lemma gpu_context_stage [simp]:
  "p_WeightBytes (gpu_context w p) = p_WeightBytes p"
  "p_KVBudgetBytes (gpu_context w p) = p_KVBudgetBytes p"
  "p_KVBytesPerTok (gpu_context w p) = p_KVBytesPerTok p"
  "p_TensorParallel (gpu_context w p) = p_TensorParallel p"
  "p_Quantization (gpu_context w p) = p_Quantization p"
  by (simp_all add: gpu_context_def stage_defs)

lemma gpu_too_big_stage [simp]:
  "p_Blockers (gpu_too_big i n a q u p) \<noteq> []"
  "\<not> p_Fits (gpu_too_big i n a q u p)"
  "p_Viable (gpu_too_big i n a q u p) = p_Viable p"
  by (simp_all add: gpu_too_big_def stage_defs)

text \<open>The two ways a GPU plan ends.\<close>

lemma planGPU_cases:
  obtains (refused) "p_Blockers (planGPU info node want) \<noteq> []" "\<not> p_Fits (planGPU info node want)"
      "\<not> p_Viable (planGPU info node want)" "p_MaxNumSeqs (planGPU info node want) = 0"
    | (planned) a quant published p where
      "a = nodeArch node" "gpu_quant info a = (quant, published)" "fst (canRunQuant a quant)"
      "\<not> cudaOlderThan (n_DriverCUDA node) (n_TorchCUDA node)"
      "p = empty_plan\<lparr>p_Engine := ''vllm'', p_MaxNumSeqs := 256, p_TensorParallel := gpu_tp info node,
             p_QuantFromCheckpoint := published, p_Quantization := quant,
             p_WeightBytes := weightBytes info quant published,
             p_KVBudgetBytes := int64 (gpu_usable node (gpu_tp info node) - weightBytes info quant published)\<rparr>"
      "0 < p_KVBudgetBytes p"
      "planGPU info node want = gpu_verdict (gpu_advice info node a quant (gpu_speed info node quant
         (gpu_host node (gpu_warnings info node a quant (gpu_context want (gpu_cache info a quant want p))))))"
proof -
  obtain quant published where q: "gpu_quant info (nodeArch node) = (quant, published)"
    by (cases "gpu_quant info (nodeArch node)")
  obtain ok why where k: "canRunQuant (nodeArch node) quant = (ok, why)"
    by (cases "canRunQuant (nodeArch node) quant")
  consider "cudaOlderThan (n_DriverCUDA node) (n_TorchCUDA node)"
    | "\<not> cudaOlderThan (n_DriverCUDA node) (n_TorchCUDA node)" "\<not> ok"
    | "\<not> cudaOlderThan (n_DriverCUDA node) (n_TorchCUDA node)" "ok"
      "int64 (gpu_usable node (gpu_tp info node) - weightBytes info quant published) \<le> 0"
    | "\<not> cudaOlderThan (n_DriverCUDA node) (n_TorchCUDA node)" "ok"
      "0 < int64 (gpu_usable node (gpu_tp info node) - weightBytes info quant published)"
    by linarith
  then show ?thesis
  proof cases
    case 1
    then show ?thesis by (intro refused) (simp_all add: planGPU_def stage_defs empty_plan_def)
  next
    case 2
    then show ?thesis using q k by (intro refused) (simp_all add: planGPU_def stage_defs empty_plan_def)
  next
    case 3
    then have "planGPU info node want = gpu_too_big info node (nodeArch node) quant
        (gpu_usable node (gpu_tp info node))
        (empty_plan\<lparr>p_Engine := ''vllm'', p_MaxNumSeqs := 256, p_TensorParallel := gpu_tp info node,
             p_QuantFromCheckpoint := published, p_Quantization := quant,
             p_WeightBytes := weightBytes info quant published,
             p_KVBudgetBytes := int64 (gpu_usable node (gpu_tp info node) - weightBytes info quant published)\<rparr>)"
      using q k by (simp add: planGPU_def Let_def)
    then show ?thesis
      by (intro refused) (simp_all add: empty_plan_def gpu_too_big_def [THEN arg_cong [of _ _ p_MaxNumSeqs]] stage_defs)
  next
    case 4
    then show ?thesis using q k by (intro planned) (simp_all add: planGPU_def Let_def)
  qed
qed

subsection \<open>Bounds\<close>

lemma chooseContext_pos: "0 < chooseContext info want"
  by (simp add: chooseContext_def)

lemma trim_context_bounds:
  "0 < len \<Longrightarrow> 4 \<le> low \<Longrightarrow>
     0 < trim_context t low len \<and> trim_context t low len \<le> len \<and>
     (trim_context t low len = len \<or> low \<le> 2 * trim_context t low len) \<and>
     (low < trim_context t low len \<longrightarrow> 8 \<le> go_div t (trim_context t low len))"
proof (induction t low len rule: trim_context.induct)
  case (1 t low len)
  show ?case
  proof (cases "low < len \<and> go_div t len < 8")
    case True
    have half: "go_div len 2 = len div 2" using 1(2) by simp
    have "trim_context t low len = trim_context t low (len div 2)"
      using True 1(2) half by (subst trim_context.simps) simp
    moreover have "0 < trim_context t low (len div 2) \<and> trim_context t low (len div 2) \<le> len div 2 \<and>
        (trim_context t low (len div 2) = len div 2 \<or> low \<le> 2 * trim_context t low (len div 2)) \<and>
        (low < trim_context t low (len div 2) \<longrightarrow> 8 \<le> go_div t (trim_context t low (len div 2)))"
      using 1(1) [unfolded half] True 1(2,3) by auto
    ultimately show ?thesis using True 1(2,3) by auto
  next
    case False
    then have "trim_context t low len = len" by (subst trim_context.simps) auto
    with False 1(2) show ?thesis by auto
  qed
qed

lemma gpu_context_capacity:
  assumes "0 < p_KVBudgetBytes p" "0 < p_MaxModelLen p" "p_MaxNumSeqs p = 256"
    and kv: "0 \<le> p_KVBytesPerTok p"
    and q: "q = gpu_context want p"
  shows "1 \<le> p_MaxNumSeqs q \<and> p_MaxNumSeqs q \<le> 256" 
    and "0 < p_MaxModelLen q \<and> p_MaxModelLen q \<le> p_MaxModelLen p"
    and "p_MaxNumSeqs q = 1 \<or> p_MaxNumSeqs q * p_MaxModelLen q * p_KVBytesPerTok p \<le> p_KVBudgetBytes p"
    and "want > 0 \<Longrightarrow> p_MaxModelLen q = p_MaxModelLen p"
    and "p_MaxModelLen q = p_MaxModelLen p \<or> 4096 \<le> p_MaxModelLen q"
proof -
  let ?t = "p_KVBudgetBytes p div p_KVBytesPerTok p"
  let ?low = "if want > 0 then p_MaxModelLen p else 8192"
  let ?len = "trim_context ?t ?low (p_MaxModelLen p)"
  let ?seqs = "?t div ?len"
  show "want > 0 \<Longrightarrow> p_MaxModelLen q = p_MaxModelLen p"
    by (auto simp: q gpu_context_def stage_defs trim_context.simps [of _ "p_MaxModelLen p"])
  have len: "0 < ?len" "?len \<le> p_MaxModelLen p" "?len = p_MaxModelLen p \<or> 4096 \<le> ?len"
    using trim_context_bounds [of "p_MaxModelLen p" 8192 ?t] assms(2)
      trim_context.simps [of ?t "p_MaxModelLen p" "p_MaxModelLen p"] by (auto split: if_splits)
  have t: "0 \<le> ?t" using assms(1) kv by (simp add: pos_imp_zdiv_nonneg_iff div_int_pos_iff)
  have seqs: "go_div ?t ?len = ?seqs" "go_div (p_KVBudgetBytes p) (p_KVBytesPerTok p) = ?t"
    using len t assms(1) kv by simp_all
  have eqs: "p_MaxNumSeqs q = (if p_KVBytesPerTok p = 0 then 1 else if ?seqs < 256 then maxInt 1 ?seqs else 256)"
      "p_MaxModelLen q = (if p_KVBytesPerTok p = 0 then p_MaxModelLen p else ?len)"
    using kv assms(3) seqs by (simp_all add: q gpu_context_def stage_defs del: go_div_nonneg)
  show "1 \<le> p_MaxNumSeqs q \<and> p_MaxNumSeqs q \<le> 256"
    by (auto simp: eqs maxInt_def)
  show "0 < p_MaxModelLen q \<and> p_MaxModelLen q \<le> p_MaxModelLen p"
    using len assms(2) by (simp add: eqs)
  show "p_MaxModelLen q = p_MaxModelLen p \<or> 4096 \<le> p_MaxModelLen q"
    using len by (simp add: eqs)
  show "p_MaxNumSeqs q = 1 \<or> p_MaxNumSeqs q * p_MaxModelLen q * p_KVBytesPerTok p \<le> p_KVBudgetBytes p"
  proof (cases "p_MaxNumSeqs q = 1")
    case False
    then have pos: "0 < p_KVBytesPerTok p" and le: "p_MaxNumSeqs q \<le> ?seqs" and l: "p_MaxModelLen q = ?len"
      using kv by (auto simp: eqs maxInt_def split: if_splits)
    have "p_MaxNumSeqs q * p_MaxModelLen q * p_KVBytesPerTok p \<le> ?seqs * ?len * p_KVBytesPerTok p"
      using le l len pos by (simp add: mult_right_mono)
    also have "\<dots> \<le> ?t * p_KVBytesPerTok p"
      using len pos t by (intro mult_right_mono) (simp_all add: minus_mod_eq_div_mult [symmetric])
    also have "\<dots> \<le> p_KVBudgetBytes p"
      using pos by (simp add: minus_mod_eq_div_mult [symmetric])
    finally show ?thesis by simp
  qed simp
qed

lemma quantBytes_bounds: "0 \<le> quantBytes q" "quantBytes q \<le> 4"
proof -
  have r: "0 \<le> fl64 x \<and> fl64 x \<le> 4" if "0 \<le> x" "x \<le> 4" for x
    using f64.rnd_nonneg [OF that(1)] f64.rnd_le_int [of x 4] that(2) by simp
  have "0 \<le> quantBytes q \<and> quantBytes q \<le> 4"
    using r [of "60 / 100"] r [of "58 / 100"] r [of "106 / 100"]
    by (simp add: quantBytes_def Let_def bytesBF16_def bytesFP8_def bytesINT4_def bytesQ4KM_def bytesQ8_0_def)
  then show "0 \<le> quantBytes q" "quantBytes q \<le> 4" by simp_all
qed

lemma sized_bounds:
  assumes "0 \<le> n" "n \<le> 2 ^ 51"
  shows "0 \<le> sized n q \<and> sized n q \<le> 4 * n"
proof -
  have n: "f_of_int n = of_int n" using assms by (simp add: f_of_int_def fl64_of_int)
  have "of_int n * quantBytes q \<le> of_int (4 * n)"
    using mult_left_mono [OF quantBytes_bounds(2), of "of_int n" q] assms by simp
  then have "f_mul (of_int n) (quantBytes q) \<le> of_int (4 * n)"
    unfolding f_mul_def by (rule f64.rnd_le_int) (use assms in simp)
  then have "sized n q \<le> 4 * n"
    unfolding sized_def n by (metis f_trunc_mono f_trunc_of_int)
  moreover have "0 \<le> f_mul (of_int n) (quantBytes q)"
    unfolding f_mul_def using assms quantBytes_bounds(1) by (intro f64.mult_nonneg) simp_all
  then have "0 \<le> sized n q"
    unfolding sized_def n by (rule f_trunc_nonneg)
  ultimately show ?thesis by simp
qed

lemma weightBytes_bounds:
  assumes "0 \<le> i_Params info" "i_Params info \<le> 2 ^ 51" "i_CheckpointBytes info \<le> 2 ^ 53"
  shows "0 \<le> weightBytes info q b \<and> weightBytes info q b \<le> 2 ^ 53"
  using sized_bounds [OF assms(1,2), of q] assms by (auto simp: weightBytes_def)

lemma mem_util_bounds: "0 \<le> defaultGPUMemUtil" "defaultGPUMemUtil \<le> 1"
  using f64.rnd_nonneg [of "90 / 100"] f64.rnd_le_int [of "90 / 100" 1] by (simp_all add: defaultGPUMemUtil_def)

lemma mem_share_bounds:
  assumes "0 \<le> v" "v \<le> 2 ^ 53"
  shows "0 \<le> f_trunc (f_mul (f_of_int v) defaultGPUMemUtil) \<and>
         f_trunc (f_mul (f_of_int v) defaultGPUMemUtil) \<le> v"
proof -
  have f: "f_of_int v = of_int v" unfolding f_of_int_def by (rule fl64_of_int) (use assms in simp)
  have "of_int v * defaultGPUMemUtil \<le> of_int v"
    using mult_left_mono [OF mem_util_bounds(2), of "of_int v"] assms(1) by simp
  then have "f_mul (of_int v) defaultGPUMemUtil \<le> of_int v"
    unfolding f_mul_def by (rule f64.rnd_le_int) (use assms in simp)
  then have "f_trunc (f_mul (of_int v) defaultGPUMemUtil) \<le> v"
    by (metis f_trunc_mono f_trunc_of_int)
  moreover have "0 \<le> f_mul (of_int v) defaultGPUMemUtil"
    unfolding f_mul_def using assms(1) mem_util_bounds(1) by (intro f64.mult_nonneg) simp_all
  ultimately show ?thesis unfolding f by (simp add: f_trunc_nonneg)
qed

lemma gpu_usable_bounds:
  assumes "0 \<le> perGPUVRAM node * tp" "perGPUVRAM node * tp \<le> 2 ^ 53"
  shows "0 \<le> gpu_usable node tp \<and> gpu_usable node tp \<le> perGPUVRAM node * tp"
  using mem_share_bounds [OF assms] assms by (simp add: gpu_usable_def addressable_def int64_id)

text \<open>A description with sensible figures: what the registry and the agents report.\<close>

definition sane_model :: "Info \<Rightarrow> bool" where
  "sane_model i \<longleftrightarrow>
     0 \<le> i_Params i \<and> i_Params i \<le> 2 ^ 51 \<and> i_CheckpointBytes i \<le> 2 ^ 53 \<and>
     0 \<le> i_NumLayers i \<and> 0 \<le> i_NumKVHeads i \<and> 0 \<le> i_HeadDim i"

definition sane_node :: "Node \<Rightarrow> bool" where
  "sane_node n \<longleftrightarrow>
     length (n_GPUs n) \<le> 2 ^ 10 \<and> 0 \<le> n_RAMBytes n \<and> n_RAMBytes n \<le> 2 ^ 53 \<and>
     list_all (\<lambda>g. 0 < gpu_VRAMBytes g \<and> gpu_VRAMBytes g \<le> 2 ^ 43) (n_GPUs n)"

lemma KVBytesPerToken_nonneg: "sane_model i \<Longrightarrow> 0 \<le> KVBytesPerToken i"
  unfolding KVBytesPerToken_def Let_def sane_model_def f_mul_def f_of_int_def bytesKVElem_def
  by (auto intro!: f_trunc_nonneg f64.mult_nonneg f64.of_int_nonneg)

lemma gpu_tp_bounds:
  assumes "n_GPUs node \<noteq> []"
  shows "1 \<le> gpu_tp info node \<and> gpu_tp info node \<le> int (length (n_GPUs node)) \<and>
     gpu_tp info node dvd int (length (n_GPUs node)) \<and>
     (i_IsMLA info \<or> gpu_tp info node dvd i_NumKVHeads info)"
proof -
  let ?n = "int (length (n_GPUs node))" and ?k = "if i_IsMLA info then 0 else i_NumKVHeads info"
  have n: "1 \<le> ?n" using assms by (cases "n_GPUs node") auto
  then have "gpu_tp info node = gcd ?n ?k"
    unfolding gpu_tp_def by (rule largestValidTP_is_gcd)
  moreover have "1 \<le> gcd ?n ?k" using n by (simp add: int_one_le_iff_zero_less)
  moreover have "gcd ?n ?k \<le> ?n" using n by (intro zdvd_imp_le) auto
  ultimately show ?thesis by auto
qed

lemma planGPU_usable:
  assumes "n_GPUs node \<noteq> []" "sane_node node" "h \<in> set (n_GPUs node)"
  shows "0 \<le> gpu_usable node (gpu_tp info node) \<and>
     gpu_usable node (gpu_tp info node) \<le> gpu_tp info node * gpu_VRAMBytes h \<and>
     gpu_usable node (gpu_tp info node) \<le> 2 ^ 53"
proof -
  let ?tp = "gpu_tp info node" and ?v = "perGPUVRAM node"
  note tp = gpu_tp_bounds [OF assms(1), of info]
  have v: "0 < ?v \<and> ?v \<le> gpu_VRAMBytes g" if "g \<in> set (n_GPUs node)" for g
    using perGPUVRAM_min [OF _ that] assms(2) by (auto simp: sane_node_def list_all_iff)
  have "?v \<le> 2 ^ 43" "?tp \<le> 2 ^ 10"
    using v [OF assms(3)] assms(2,3) tp by (auto simp: sane_node_def list_all_iff)
  then have "?v * ?tp \<le> 2 ^ 43 * 2 ^ 10"
    using v [OF assms(3)] tp by (intro mult_mono) auto
  then have b: "?v * ?tp \<le> 2 ^ 53" "0 \<le> ?v * ?tp" using v [OF assms(3)] tp by simp_all
  have "?v * ?tp \<le> ?tp * gpu_VRAMBytes h"
    using mult_left_mono [of ?v "gpu_VRAMBytes h" ?tp] v [OF assms(3)] tp by (simp add: mult.commute)
  then show ?thesis using gpu_usable_bounds [OF b(2,1)] b by linarith
qed

lemma cache_capacity:
  assumes "0 < b" "0 < kv" "0 < len" "k \<le> go_div (go_div b kv) len"
  shows "k * len * kv \<le> b"
proof -
  have "go_div (go_div b kv) len = b div kv div len"
    using assms(1-3) by (simp add: pos_imp_zdiv_nonneg_iff)
  then have "k * len * kv \<le> b div kv div len * len * kv"
    using assms by (intro mult_right_mono) auto
  also have "\<dots> \<le> b div kv * kv"
    using assms(2,3) by (intro mult_right_mono) (simp_all add: minus_mod_eq_div_mult [symmetric])
  also have "\<dots> \<le> b" using assms(2) by (simp add: minus_mod_eq_div_mult [symmetric])
  finally show ?thesis .
qed

definition sample_model :: Info where
  "sample_model = zero_info\<lparr>i_Params := 8000000000, i_NumLayers := 32, i_FullAttentionLayers := 32,
     i_NumHeads := 32, i_NumKVHeads := 8, i_HeadDim := 128, i_MaxPositions := 40960\<rparr>"

definition sample_node :: Node where
  "sample_node = \<lparr>n_Name = ''gpu1'',
     n_GPUs = [\<lparr>gpu_Name = ''NVIDIA L40S'', gpu_VRAMBytes = 48000000000, gpu_Index = 0\<rparr>],
     n_CPUCores = 16, n_CPUModel = [], n_RAMBytes = 64000000000, n_DiskFreeBytes = 0,
     n_MemBandwidthGBs = 40, n_HasNVMe = True, n_GPUFraction = 0, n_DriverCUDA = ''12.8'', n_TorchCUDA = ''12.4''\<rparr>"

lemma sample_sane: "sane_model sample_model" "sane_node sample_node" "n_GPUs sample_node \<noteq> []"
  by (simp_all add: sane_model_def sane_node_def sample_model_def sample_node_def zero_info_def)

lemma gpu_blockers [simp]:
  "p_Blockers (gpu_cache i a q w p) = p_Blockers p"
  "p_Blockers (gpu_context w p) = p_Blockers p"
  "p_DiskBytes (gpu_cache i a q w p) = downloadBytes i q"
  "p_DiskBytes (gpu_context w p) = p_DiskBytes p"
  "p_Blockers (gpu_host n p) = [] \<longleftrightarrow> p_Blockers p = [] \<and>
     \<not> (n_DiskFreeBytes n > 0 \<and> n_DiskFreeBytes n < p_DiskBytes p) \<and>
     \<not> (n_RAMBytes n > 0 \<and> n_RAMBytes n < p_WeightBytes p \<and> int64 (n_RAMBytes n * 3) < p_WeightBytes p)"
  by (auto simp: gpu_cache_def gpu_context_def gpu_host_def stage_defs)

lemma planGPU_fits_iff:
  assumes "gpu_quant info (nodeArch node) = (quant, published)"
    and "w = weightBytes info quant published"
  shows "p_Fits (planGPU info node want) \<longleftrightarrow>
     \<not> cudaOlderThan (n_DriverCUDA node) (n_TorchCUDA node) \<and>
     fst (canRunQuant (nodeArch node) quant) \<and>
     0 < int64 (gpu_usable node (gpu_tp info node) - w) \<and>
     \<not> (n_DiskFreeBytes node > 0 \<and> n_DiskFreeBytes node < downloadBytes info quant) \<and>
     \<not> (n_RAMBytes node > 0 \<and> n_RAMBytes node < w \<and> int64 (n_RAMBytes node * 3) < w)"
proof -
  obtain ok why where k: "canRunQuant (nodeArch node) quant = (ok, why)"
    by (cases "canRunQuant (nodeArch node) quant")
  consider "cudaOlderThan (n_DriverCUDA node) (n_TorchCUDA node)"
    | "\<not> cudaOlderThan (n_DriverCUDA node) (n_TorchCUDA node)" "\<not> ok"
    | "\<not> cudaOlderThan (n_DriverCUDA node) (n_TorchCUDA node)" "ok"
      "int64 (gpu_usable node (gpu_tp info node) - w) \<le> 0"
    | "\<not> cudaOlderThan (n_DriverCUDA node) (n_TorchCUDA node)" "ok"
      "0 < int64 (gpu_usable node (gpu_tp info node) - w)"
    by linarith
  then show ?thesis
  proof cases
    case 4
    then show ?thesis using k
      by (simp add: planGPU_def Let_def assms(1) assms(2) [symmetric]) (simp add: empty_plan_def assms(2))
  qed (use k in \<open>simp_all add: planGPU_def stage_defs empty_plan_def assms(1) assms(2) [symmetric]\<close>)
qed

subsection \<open>What a plan promises\<close>

lemma sample_fits: "p_Fits (planGPU sample_model sample_node want)"
proof -
  have q: "gpu_quant sample_model (nodeArch sample_node) = (''bf16'', False)" by code_simp
  have "weightBytes sample_model ''bf16'' False = 16000000000" by code_simp
  moreover have "gpu_usable sample_node (gpu_tp sample_model sample_node) = 43200000000" by code_simp
  moreover have "\<not> cudaOlderThan (n_DriverCUDA sample_node) (n_TorchCUDA sample_node)" by code_simp
  moreover have "fst (canRunQuant (nodeArch sample_node) ''bf16'')" by code_simp
  ultimately show ?thesis
    using planGPU_fits_iff [OF q refl, of want] by (simp add: sample_node_def int64_def)
qed



text \<open>
  A GPU plan fits exactly when the driver is recent enough, the node's cards run the checkpoint's format,
  the weights leave room for a KV cache in the share of the memory of the sharded cards, the disk holds
  the download and the host's memory is at least a third of the weights.
\<close>

theorem planGPU_fits_exactly:
  assumes "gpu_quant info (nodeArch node) = (quant, published)"
    and "w = weightBytes info quant published"
  shows "p_Fits (planGPU info node want) \<longleftrightarrow>
     \<not> cudaOlderThan (n_DriverCUDA node) (n_TorchCUDA node) \<and>
     fst (canRunQuant (nodeArch node) quant) \<and>
     0 < int64 (gpu_usable node (gpu_tp info node) - w) \<and>
     \<not> (n_DiskFreeBytes node > 0 \<and> n_DiskFreeBytes node < downloadBytes info quant) \<and>
     \<not> (n_RAMBytes node > 0 \<and> n_RAMBytes node < w \<and> int64 (n_RAMBytes node * 3) < w)"
  by (rule planGPU_fits_iff [OF assms])

theorem planGPU_fits_exactly_witness:
  "gpu_quant sample_model (nodeArch sample_node) = (''bf16'', False) \<and>
   (p_Fits (planGPU sample_model (sample_node\<lparr>n_DiskFreeBytes := 1\<rparr>) 0) \<longleftrightarrow> False)"
proof -
  let ?n = "sample_node\<lparr>n_DiskFreeBytes := 1\<rparr>"
  have q: "gpu_quant sample_model (nodeArch ?n) = (''bf16'', False)"
      "gpu_quant sample_model (nodeArch sample_node) = (''bf16'', False)" by code_simp+
  have "n_DiskFreeBytes ?n < downloadBytes sample_model ''bf16''" by code_simp
  with planGPU_fits_exactly [OF q(1) refl, of 0] q(2) show ?thesis by simp
qed

text \<open>
  A CPU plan that fits divides the memory of the node into weights, KV budget and the headroom of the
  operating system, the context is at most 32k and no more than asked, and unless it serves one
  request at a time the KV budget holds all of them at the full context.
\<close>

theorem planCPU_fits:
  assumes "p_Fits (planCPU info node want)" "sane_node node" "sane_model info"
    and "p = planCPU info node want"
  shows "p_WeightBytes p + p_KVBudgetBytes p + cpuRAMHeadroomBytes = n_RAMBytes node \<and>
     0 < p_KVBudgetBytes p \<and> 1 \<le> p_MaxNumSeqs p \<and> p_MaxNumSeqs p \<le> 4 \<and>
     0 < p_MaxModelLen p \<and> p_MaxModelLen p \<le> 32768 \<and> p_MaxModelLen p \<le> chooseContext info want \<and>
     (n_DiskFreeBytes node \<le> 0 \<or> p_DiskBytes p \<le> n_DiskFreeBytes node) \<and>
     (p_MaxNumSeqs p = 1 \<or>
      p_MaxNumSeqs p * p_MaxModelLen p * p_KVBytesPerTok p \<le> p_KVBudgetBytes p)"
proof -
  let ?w = "sized (i_Params info) ''q4_k_m''"
  let ?b = "int64 (int64 (n_RAMBytes node - cpuRAMHeadroomBytes) - ?w)"
  let ?kv = "KVBytesPerToken info"
  let ?len = "if chooseContext info want > 32768 then 32768 else chooseContext info want"
  let ?s = "go_div (go_div ?b ?kv) ?len"
  have w: "0 \<le> ?w" "?w \<le> 2 ^ 53"
    using sized_bounds [of "i_Params info" "''q4_k_m''"] assms(3) by (auto simp: sane_model_def)
  have ram: "?b = n_RAMBytes node - cpuRAMHeadroomBytes - ?w"
    using assms(2) w by (simp add: sane_node_def cpuRAMHeadroomBytes_def int64_id)
  have pos: "0 < ?b"
    using assms(1) by (auto simp: planCPU_def stage_defs empty_plan_def not_le split: if_splits)
  have same: "p_WeightBytes p = ?w" "p_KVBudgetBytes p = ?b" "p_KVBytesPerTok p = ?kv" "p_MaxModelLen p = ?len"
      "p_MaxNumSeqs p = (if ?kv > 0 \<and> ?s < 4 then maxInt 1 ?s else 4)"
      "p_DiskBytes p = downloadBytes info ''q4_k_m''"
    using pos by (simp_all add: assms(4) planCPU_def stage_defs empty_plan_def del: go_div_nonneg)
  have disk: "n_DiskFreeBytes node \<le> 0 \<or> p_DiskBytes p \<le> n_DiskFreeBytes node"
    using assms(1) pos by (auto simp: same planCPU_def stage_defs empty_plan_def split: if_splits)
  have len: "0 < ?len" "?len \<le> 32768" "?len \<le> chooseContext info want" using chooseContext_pos by auto
  have kv: "0 \<le> ?kv" by (rule KVBytesPerToken_nonneg [OF assms(3)])
  have cap: "k * ?len * ?kv \<le> ?b" if "k \<le> ?s" "0 < ?kv" for k
    by (rule cache_capacity [OF pos that(2) len(1) that(1)])
  have "p_MaxNumSeqs p = 1 \<or> p_MaxNumSeqs p * p_MaxModelLen p * p_KVBytesPerTok p \<le> p_KVBudgetBytes p"
  proof (cases "p_MaxNumSeqs p = 1 \<or> ?kv = 0")
    case True
    then show ?thesis using pos same(2,3) by fastforce
  next
    case False
    then have "p_MaxNumSeqs p \<le> ?s" "0 < ?kv" using kv unfolding same(5) maxInt_def by (auto split: if_splits)
    from cap [OF this] show ?thesis unfolding same(2-4) by simp
  qed
  moreover have "1 \<le> p_MaxNumSeqs p \<and> p_MaxNumSeqs p \<le> 4" by (auto simp: same(5) maxInt_def)
  ultimately show ?thesis using ram pos len disk by (simp add: same(1-4))
qed

text \<open>
  A plan fits exactly when nothing blocks it, so every refusal carries its reason, and only a plan that
  fits is called viable.
\<close>

theorem PlanFor_verdict:
  "(p_Fits (PlanFor info node want) \<longleftrightarrow> p_Blockers (PlanFor info node want) = []) \<and>
   (p_Viable (PlanFor info node want) \<longrightarrow> p_Fits (PlanFor info node want))"
proof (cases "HasGPU node")
  case True
  then have plan: "PlanFor info node want = planGPU info node want" by (simp add: PlanFor_def)
  show ?thesis unfolding plan
  proof (cases info node want rule: planGPU_cases)
    case (planned a quant published p)
    then show "(p_Fits (planGPU info node want) \<longleftrightarrow> p_Blockers (planGPU info node want) = []) \<and>
       (p_Viable (planGPU info node want) \<longrightarrow> p_Fits (planGPU info node want))"
      by (simp only: planned(7)) simp
  qed simp_all
next
  case False
  then show ?thesis by (simp add: PlanFor_def planCPU_def stage_defs empty_plan_def)
qed

theorem PlanFor_verdict_witness:
  "p_Fits (PlanFor sample_model sample_node 4096) \<and> p_Blockers (PlanFor sample_model sample_node 4096) = []"
  using PlanFor_verdict [of sample_model sample_node 4096] sample_fits [of 4096]
  by (simp add: PlanFor_def HasGPU_def sample_node_def)

end
