(* ===== verification/Agent_Engine.thy ===== *)
theory Agent_Engine
  imports Go_Format
begin

text \<open>
  The engines of an inference node (\<^verbatim>\<open>src/internal/agent/engine.go\<close>): an install request, how the agent
  launches engines, and the exact command line, arguments and environment, for each engine. Whether
  the download accelerator is asked for by the environment and missing is an argument, as is the
  search of a binary on the path.
\<close>

record Spec =
  s_HFID :: string
  s_ServedName :: string
  s_Engine :: string
  s_Quantization :: string
  s_KVCacheDType :: string
  s_TensorParallel :: int
  s_MaxModelLen :: int
  s_MaxNumSeqs :: int
  s_Hybrid :: bool
  s_QuantFromCheckpoint :: bool
  s_GGUFRepo :: string
  s_LocalGGUF :: string
  s_ExtraArgs :: "string list"

record Runtime =
  rt_EngineHost :: string
  rt_Mode :: string
  rt_VLLMImage :: string
  rt_HFCacheDir :: string
  rt_HFToken :: string

type_synonym command = "string \<times> string list \<times> string list"

definition engineHost :: "Runtime \<Rightarrow> string" where
  "engineHost rt = (if rt_EngineHost rt \<noteq> [] then rt_EngineHost rt else ''0.0.0.0'')"

definition token_env :: "Runtime \<Rightarrow> string list" where
  "token_env rt = (if rt_HFToken rt \<noteq> [] then [''HF_TOKEN='' @ rt_HFToken rt] else [])"

definition vllm_options :: "Spec \<Rightarrow> string list" where
  "vllm_options s =
     (if \<not> s_Hybrid s then [''--enable-prefix-caching''] else []) @
     (if s_TensorParallel s > 1 then [''--tensor-parallel-size'', Itoa (s_TensorParallel s)] else []) @
     (if s_Quantization s \<noteq> [] \<and> s_Quantization s \<noteq> ''bf16'' \<and> s_Quantization s \<noteq> ''fp16'' \<and>
         \<not> s_QuantFromCheckpoint s
      then [''--quantization'', s_Quantization s] else []) @
     (if s_MaxModelLen s > 0 then [''--max-model-len'', Itoa (s_MaxModelLen s)] else []) @
     (if s_MaxNumSeqs s > 0 then [''--max-num-seqs'', Itoa (s_MaxNumSeqs s)] else []) @
     (if s_KVCacheDType s \<noteq> [] \<and> s_KVCacheDType s \<noteq> ''auto''
      then [''--kv-cache-dtype'', s_KVCacheDType s] else [])"

definition vllm_args :: "Spec \<Rightarrow> Runtime \<Rightarrow> int \<Rightarrow> string list" where
  "vllm_args s rt port =
     [''serve'', s_HFID s, ''--served-model-name'', s_ServedName s, ''--port'', Itoa port,
      ''--host'', engineHost rt, ''--enable-chunked-prefill''] @ vllm_options s @ s_ExtraArgs s"

definition buildVLLM :: "Spec \<Rightarrow> Runtime \<Rightarrow> bool \<Rightarrow> int \<Rightarrow> string + command" where
  "buildVLLM s rt no_transfer port =
     (if s_HFID s = [] then Inl ''hf_id is required''
      else if rt_Mode rt = ''docker'' then
        let image = (if rt_VLLMImage rt = [] then ''vllm/vllm-openai:latest'' else rt_VLLMImage rt)
        in Inr (''docker'',
             [''run'', ''--rm'', ''--gpus'', ''all'', ''--ipc=host'', ''-p'', Itoa port @ '':'' @ Itoa port] @
             (if rt_HFCacheDir rt \<noteq> [] then [''-v'', rt_HFCacheDir rt @ '':/root/.cache/huggingface''] else []) @
             (if rt_HFToken rt \<noteq> [] then [''-e'', ''HF_TOKEN='' @ rt_HFToken rt] else []) @
             [image] @ tl (vllm_args s rt port),
             token_env rt)
      else Inr (''vllm'', vllm_args s rt port,
             token_env rt @
             (if rt_HFCacheDir rt \<noteq> [] then [''HF_HOME='' @ rt_HFCacheDir rt] else []) @
             (if no_transfer then [''HF_HUB_ENABLE_HF_TRANSFER=0''] else [])))"

definition buildLlamaCpp :: "Spec \<Rightarrow> Runtime \<Rightarrow> int \<Rightarrow> string + command" where
  "buildLlamaCpp s rt port =
     (let quant = (if s_Quantization s = [] then ''Q4_K_M'' else s_Quantization s);
          rest = [''--port'', Itoa port, ''--host'', engineHost rt, ''--alias'', s_ServedName s, ''--cont-batching''] @
                 (if s_MaxModelLen s > 0 then [''-c'', Itoa (s_MaxModelLen s)] else []) @
                 (if s_MaxNumSeqs s > 0 then [''-np'', Itoa (s_MaxNumSeqs s)] else []) @
                 s_ExtraArgs s;
          env = token_env rt @
                (if rt_HFCacheDir rt \<noteq> [] then [''LLAMA_CACHE='' @ rt_HFCacheDir rt] else [])
      in if s_LocalGGUF s \<noteq> [] then Inr (''llama-server'', [''-m'', s_LocalGGUF s] @ rest, env)
         else if s_GGUFRepo s \<noteq> [] then
           Inr (''llama-server'', [''-hf'', s_GGUFRepo s @ '':'' @ quant] @ rest, env)
         else Inl (''llama.cpp needs a GGUF: none was resolved for '' @ quote_q (s_HFID s) @
                   '', and no local .gguf was given''))"

definition buildFreeToken :: "Spec \<Rightarrow> Runtime \<Rightarrow> bool \<Rightarrow> int \<Rightarrow> string + command" where
  "buildFreeToken s rt no_transfer port =
     (if s_HFID s = [] then Inl ''hf_id is required''
      else Inr (''ft'',
        [''serve'', ''--model'', s_HFID s, ''--host'', engineHost rt, ''--port'', Itoa port,
         ''--served-model-name'', s_ServedName s] @
        (if s_MaxModelLen s > 0 then [''--max-seq-len-override'', Itoa (s_MaxModelLen s)] else []) @
        [''--moe-cache-auto''] @ s_ExtraArgs s,
        token_env rt @
        (if rt_HFCacheDir rt \<noteq> [] then [''HF_HOME='' @ rt_HFCacheDir rt] else []) @
        (if no_transfer then [''HF_HUB_ENABLE_HF_TRANSFER=0''] else [])))"

definition BuildCommand :: "Spec \<Rightarrow> Runtime \<Rightarrow> bool \<Rightarrow> int \<Rightarrow> string + command" where
  "BuildCommand s rt no_transfer port =
     (if s_Engine s = ''vllm'' then buildVLLM s rt no_transfer port
      else if s_Engine s = ''freetoken'' then buildFreeToken s rt no_transfer port
      else if s_Engine s = ''llamacpp'' then buildLlamaCpp s rt port
      else Inl (''unknown engine '' @ quote_q (s_Engine s)))"

definition EngineAvailable :: "(string \<Rightarrow> bool) \<Rightarrow> string \<Rightarrow> Runtime \<Rightarrow> bool" where
  "EngineAvailable on_path engine rt =
     (if rt_Mode rt = ''docker'' \<and> engine = ''vllm'' then on_path ''docker''
      else if engine = ''vllm'' then on_path ''vllm''
      else if engine = ''llamacpp'' then on_path ''llama-server''
      else if engine = ''freetoken'' then on_path ''ft''
      else False)"

subsection \<open>What the command line says\<close>

text \<open>An option with its value occurs in an argument list.\<close>

fun passes :: "string list \<Rightarrow> string \<Rightarrow> string \<Rightarrow> bool" where
  "passes (x # y # ys) opt val \<longleftrightarrow> x = opt \<and> y = val \<or> passes (y # ys) opt val"
| "passes _ opt val \<longleftrightarrow> False"

lemma passes_Cons: "passes ys opt val \<Longrightarrow> passes (x # ys) opt val"
  by (cases ys) auto

lemma passes_append: "passes ys opt val \<Longrightarrow> passes (xs @ ys) opt val"
  by (induction xs) (auto intro: passes_Cons)

definition name_option :: "string \<Rightarrow> string" where
  "name_option engine = (if engine = ''llamacpp'' then ''--alias'' else ''--served-model-name'')"

lemma vllm_args_pass:
  "passes (tl (vllm_args s rt port)) ''--port'' (Itoa port)"
  "passes (tl (vllm_args s rt port)) ''--host'' (engineHost rt)"
  "passes (tl (vllm_args s rt port)) ''--served-model-name'' (s_ServedName s)"
  by (simp_all add: vllm_args_def)

lemma vllm_args_extra: "\<exists>own. tl (vllm_args s rt port) = own @ s_ExtraArgs s"
  by (rule exI [of _ "tl (vllm_args (s\<lparr>s_ExtraArgs := []\<rparr>) rt port)"])
    (simp add: vllm_args_def vllm_options_def)


definition sample_spec :: Spec where
  "sample_spec = \<lparr>s_HFID = ''Q/Qwen3-8B'', s_ServedName = ''qwen'', s_Engine = ''vllm'', s_Quantization = ''bf16'',
     s_KVCacheDType = ''fp8'', s_TensorParallel = 2, s_MaxModelLen = 4096, s_MaxNumSeqs = 8, s_Hybrid = False,
     s_QuantFromCheckpoint = False, s_GGUFRepo = [], s_LocalGGUF = [], s_ExtraArgs = [''-x'']\<rparr>"

definition sample_runtime :: Runtime where
  "sample_runtime = \<lparr>rt_EngineHost = [], rt_Mode = ''native'', rt_VLLMImage = [], rt_HFCacheDir = [],
     rt_HFToken = ''t''\<rparr>"

lemma sample_spec_engine: "s_Engine sample_spec = ''vllm''" "s_HFID sample_spec \<noteq> []"
  by (simp_all add: sample_spec_def)

lemma vllm_command: "s_Engine s = ''vllm'' \<Longrightarrow> s_HFID s \<noteq> [] \<Longrightarrow> \<exists>bin args env. BuildCommand s rt have_vllm port = Inr (bin, args, env)"
  by (auto simp: BuildCommand_def buildVLLM_def Let_def)


end
