(* ===== verification/Agent_Cache.thy ===== *)
theory Agent_Cache
  imports Go_Format
begin

text \<open>
  The weight cache of a node (\<^verbatim>\<open>src/internal/agent/cache.go\<close>): the names of cache directories, what the
  cache holds, and the guarded deletion of one repository. The hub directory is an association list
  from the full path of a directory to what a walk over its tree meets; failures of the file system
  are arguments.
\<close>

subsection \<open>Names\<close>

definition hubDir :: "string \<Rightarrow> string" where
  "hubDir hfCache = (if hfCache = [] then [] else path_join hfCache ''hub'')"

definition repoFromCacheDir :: "string \<Rightarrow> string" where
  "repoFromCacheDir name =
     (if \<not> HasPrefix name ''models--'' then []
      else let rest = TrimPrefix name ''models--''
           in case Cut rest ''--'' of (owner, model, ok) \<Rightarrow>
                if \<not> ok then rest else owner @ ''/'' @ ReplaceAll model ''--'' ''/'')"

definition cacheDirForRepo :: "string \<Rightarrow> string" where
  "cacheDirForRepo repo = ''models--'' @ ReplaceAll repo ''/'' ''--''"

definition repo_char :: "char \<Rightarrow> bool" where
  "repo_char c \<longleftrightarrow>
     (let n = (of_char c :: nat)
      in (97 \<le> n \<and> n \<le> 122) \<or> (65 \<le> n \<and> n \<le> 90) \<or> (48 \<le> n \<and> n \<le> 57) \<or>
         c = CHR ''-'' \<or> c = CHR ''_'' \<or> c = CHR ''.'')"

definition repo_part :: "string \<Rightarrow> bool" where
  "repo_part p \<longleftrightarrow> \<not> (p = ''.'' \<or> p = ''..'' \<or> HasPrefix p ''.'') \<and> list_all repo_char p"

definition validRepo :: "string \<Rightarrow> bool" where
  "validRepo repo =
     (case Cut repo ''/'' of (owner, name, ok) \<Rightarrow>
        if \<not> ok \<or> owner = [] \<or> name = [] \<or> Contains name ''/'' then False
        else repo_part owner \<and> repo_part name)"

subsection \<open>Contents\<close>

text \<open>
  What \<^verbatim>\<open>WalkDir\<close> meets: an error or a directory, a file whose information cannot be read, or a file with
  its inode and link count (where the system has them) and its size.
\<close>

datatype walked = Skipped | NoInfo | Found "(nat \<times> nat) option" int

definition count_file :: "walked \<Rightarrow> int \<times> nat list \<Rightarrow> int \<times> nat list" where
  "count_file w acc =
     (case (w, acc) of
        (Found (Some (ino, nlink)) sz, (sofar, seen)) \<Rightarrow>
          if nlink > 1 then
            (if ino \<in> set seen then (sofar, seen) else (int64 (sofar + sz), ino # seen))
          else (int64 (sofar + sz), seen)
      | (Found None sz, (sofar, seen)) \<Rightarrow> (int64 (sofar + sz), seen)
      | (_, a) \<Rightarrow> a)"

definition dirSize :: "walked list \<Rightarrow> int" where
  "dirSize ws = fst (fold count_file ws (0, []))"

type_synonym hub = "(string \<times> walked list) list"

record CacheEntry =
  ce_Repo :: string
  ce_Bytes :: int
  ce_InUse :: bool
  ce_dir :: string

datatype readdir = NotExist | ReadFails string | Items "(string \<times> bool) list"

text \<open>
  \<^verbatim>\<open>sort.Slice\<close> may order equal entries in any way: it is a stable sort of some rearrangement \<open>ord\<close>.
\<close>

definition ListCache ::
  "(CacheEntry list \<Rightarrow> CacheEntry list) \<Rightarrow> string \<Rightarrow> (string \<Rightarrow> bool) \<Rightarrow> (string \<Rightarrow> readdir) \<Rightarrow> hub \<Rightarrow>
   string + CacheEntry list" where
  "ListCache ord hfCache inUse readDir fs =
     (let dir = hubDir hfCache
      in if dir = [] then Inr []
         else case readDir dir of
           NotExist \<Rightarrow> Inr []
         | ReadFails e \<Rightarrow> Inl e
         | Items items \<Rightarrow>
             Inr (sort_key (\<lambda>e. - ce_Bytes e) (ord
               (map (\<lambda>(n, _). let full = path_join dir n
                              in \<lparr>ce_Repo = repoFromCacheDir n,
                                  ce_Bytes = dirSize (case map_of fs full of Some ws \<Rightarrow> ws | None \<Rightarrow> []),
                                  ce_InUse = inUse (repoFromCacheDir n), ce_dir = full\<rparr>)
                 (filter (\<lambda>(n, isdir). isdir \<and> repoFromCacheDir n \<noteq> []) items)))))"

definition DeleteCache ::
  "string \<Rightarrow> (string \<Rightarrow> bool) \<Rightarrow> string option \<Rightarrow> string option \<Rightarrow> string \<Rightarrow> hub \<Rightarrow> (string + int) \<times> hub" where
  "DeleteCache hfCache inUse stat_fails remove_fails repo fs =
     (if repo = [] then (Inl ''repo is required'', fs)
      else if inUse repo then
        (Inl (repo @ '' is being served right now; stop it before deleting its weights''), fs)
      else if \<not> validRepo repo then (Inl (''invalid repo name '' @ quote_q repo), fs)
      else let dir = hubDir hfCache
           in if dir = [] then (Inl ''no HuggingFace cache directory is configured'', fs)
              else let target = path_join dir (cacheDirForRepo repo)
                   in if path_dir target \<noteq> Clean dir then (Inl (''invalid repo name '' @ quote_q repo), fs)
                      else case stat_fails of
                        Some e \<Rightarrow> (Inl e, fs)
                      | None \<Rightarrow>
                          (case map_of fs target of
                             None \<Rightarrow> (Inl (repo @ '' is not in the weight cache''), fs)
                           | Some ws \<Rightarrow>
                               (case remove_fails of
                                  Some e \<Rightarrow> (Inl e, fs)
                                | None \<Rightarrow> (Inr (dirSize ws), AList.delete target fs))))"

subsection \<open>Round trip\<close>

lemma ReplaceAll_none: "old \<noteq> [] \<Longrightarrow> \<not> Contains s old \<Longrightarrow> ReplaceAll s old new = s"
proof (induction s)
  case Nil
  then show ?case by (simp add: ReplaceAll.simps)
next
  case (Cons c s)
  then have "\<not> HasPrefix (c # s) old" "\<not> Contains s old"
    by (auto simp: Contains_def Index_prefix split: option.splits if_splits)
  with Cons show ?case by (subst ReplaceAll.simps) simp
qed

lemma ReplaceAll_char:
  "c \<notin> set a \<Longrightarrow> ReplaceAll (a @ c # b) [c] new = a @ new @ ReplaceAll b [c] new"
  by (induction a) (subst ReplaceAll.simps, force simp: HasPrefix_def)+

text \<open>A name without doubled dashes, where the owner does not end in one.\<close>

definition plain_repo :: "string \<Rightarrow> bool" where
  "plain_repo repo =
     (case Cut repo ''/'' of (owner, name, ok) \<Rightarrow>
        validRepo repo \<and> \<not> Contains owner ''--'' \<and> last owner \<noteq> CHR ''-'' \<and> \<not> Contains name ''--'')"

lemma repo_char_no_slash: "list_all repo_char p \<Longrightarrow> CHR ''/'' \<notin> set p"
  by (induction p) (auto simp: repo_char_def Let_def)

lemma Index_double_dash:
  assumes "\<not> Contains owner ''--''" "owner = [] \<or> last owner \<noteq> CHR ''-''"
  shows "Index (owner @ ''--'' @ rest) ''--'' = Some (length owner)"
  using assms
proof (induction owner)
  case (Cons c owner)
  have "\<not> HasPrefix (c # owner @ ''--'' @ rest) ''--''"
  proof
    assume p: "HasPrefix (c # owner @ ''--'' @ rest) ''--''"
    show False
    proof (cases owner)
      case Nil
      with p Cons.prems show ?thesis by (simp add: HasPrefix_def)
    next
      case (Cons d ds)
      with p have "HasPrefix (c # owner) ''--''" by (simp add: HasPrefix_def)
      with Cons.prems(1) show ?thesis by (simp add: Contains_def Index_prefix)
    qed
  qed
  moreover have "\<not> Contains owner ''--''"
    using Cons.prems(1) by (auto simp: Contains_def split: option.splits if_splits)
  moreover have "owner = [] \<or> last owner \<noteq> CHR ''-''"
    using Cons.prems(2) by (auto split: if_splits)
  ultimately show ?case using Cons.IH by simp
qed (simp add: HasPrefix_def)


lemma plain_repoE:
  assumes "plain_repo repo"
  obtains owner name where "repo = owner @ ''/'' @ name" "CHR ''/'' \<notin> set owner" "CHR ''/'' \<notin> set name"
    "\<not> Contains owner ''--''" "owner = [] \<or> last owner \<noteq> CHR ''-''" "\<not> Contains name ''--''"
proof -
  obtain owner name ok where cut: "Cut repo ''/'' = (owner, name, ok)" by (cases "Cut repo ''/''")
  with assms have ok: ok "repo_part owner" "repo_part name"
    by (auto simp: plain_repo_def validRepo_def split: if_splits)
  show ?thesis
  proof (rule that)
    show "repo = owner @ ''/'' @ name" using Cut_found [of repo "''/''" owner name] cut ok by simp
    show "CHR ''/'' \<notin> set owner" "CHR ''/'' \<notin> set name"
      using ok repo_char_no_slash by (auto simp: repo_part_def)
    show "\<not> Contains owner ''--''" "owner = [] \<or> last owner \<noteq> CHR ''-''" "\<not> Contains name ''--''"
      using assms cut by (auto simp: plain_repo_def)
  qed
qed

lemma cacheDirForRepo_parts:
  assumes "CHR ''/'' \<notin> set owner" "CHR ''/'' \<notin> set name"
  shows "cacheDirForRepo (owner @ ''/'' @ name) = ''models--'' @ owner @ ''--'' @ name"
proof -
  have "\<not> Contains name ''/''" using assms(2) by (simp add: Contains_single)
  then have "ReplaceAll name ''/'' ''--'' = name" by (rule ReplaceAll_none [rotated]) simp
  then show ?thesis
    using ReplaceAll_char [OF assms(1), of name "''--''"] by (simp add: cacheDirForRepo_def)
qed

lemma cache_name_inverse:
  assumes "plain_repo repo"
  shows "repoFromCacheDir (cacheDirForRepo repo) = repo"
proof -
  from assms obtain owner name where r: "repo = owner @ ''/'' @ name"
      "CHR ''/'' \<notin> set owner" "CHR ''/'' \<notin> set name" "\<not> Contains owner ''--''"
      "owner = [] \<or> last owner \<noteq> CHR ''-''" "\<not> Contains name ''--''"
    by (rule plain_repoE)
  have "Cut (owner @ ''--'' @ name) ''--'' = (owner, name, True)"
    using Index_double_dash [OF r(4,5), of name] by (simp add: Cut_def)
  moreover have "ReplaceAll name ''--'' ''/'' = name" by (rule ReplaceAll_none) (use r in auto)
  ultimately show ?thesis
    unfolding repoFromCacheDir_def r(1) cacheDirForRepo_parts [OF r(2,3)]
    by (simp only: TrimPrefix_append HasPrefix_append Let_def) simp
qed

lemma cacheDirForRepo_plain:
  assumes "plain_repo repo"
  shows "CHR ''/'' \<notin> set (cacheDirForRepo repo) \<and> cacheDirForRepo repo \<noteq> [] \<and>
    cacheDirForRepo repo \<noteq> ''.'' \<and> cacheDirForRepo repo \<noteq> ''..''"
proof -
  from assms obtain owner name where r: "repo = owner @ ''/'' @ name"
      "CHR ''/'' \<notin> set owner" "CHR ''/'' \<notin> set name"
    by (rule plain_repoE)
  show ?thesis unfolding r(1) cacheDirForRepo_parts [OF r(2,3)] using r by simp
qed

text \<open>
  The name of a cache directory determines the repository: reading the name written for a repository gives
  the repository back, for names without doubled dashes.
\<close>

theorem cache_name_roundtrip:
  assumes "plain_repo repo"
  shows "repoFromCacheDir (cacheDirForRepo repo) = repo"
  using assms by (rule cache_name_inverse)

theorem cache_name_roundtrip_witness: "repoFromCacheDir (cacheDirForRepo ''Q/Qwen3-8B'') = ''Q/Qwen3-8B''"
proof -
  have "plain_repo ''Q/Qwen3-8B''" by code_simp
  from cache_name_roundtrip [OF this] show ?thesis .
qed

text \<open>
  Deleting weights is confined and guarded: the only directory that can disappear is the one of the named
  repository, which exists, is not in use and whose size is reported; on every error the cache is
  unchanged; and the weights of any repository in use stay.
\<close>

theorem DeleteCache_guarded:
  assumes "DeleteCache hfCache inUse stat_fails remove_fails repo fs = (res, fs')"
    and "plain_repo repo" "plain_repo other" "inUse other"
  shows "case res of
           Inl e \<Rightarrow> fs' = fs
         | Inr freed \<Rightarrow> \<not> inUse repo \<and>
             (\<exists>ws. map_of fs (path_join (hubDir hfCache) (cacheDirForRepo repo)) = Some ws \<and> freed = dirSize ws) \<and>
             map_of fs' = (map_of fs)(path_join (hubDir hfCache) (cacheDirForRepo repo) := None) \<and>
             map_of fs' (path_join (hubDir hfCache) (cacheDirForRepo other)) =
               map_of fs (path_join (hubDir hfCache) (cacheDirForRepo other))"
proof (cases res)
  case (Inl e)
  then show ?thesis
    using assms(1) by (auto simp: DeleteCache_def Let_def split: if_splits option.splits)
next
  case (Inr freed)
  let ?t = "path_join (hubDir hfCache) (cacheDirForRepo repo)"
  have ok: "\<not> inUse repo" "hubDir hfCache \<noteq> []" "fs' = AList.delete ?t fs"
      "\<exists>ws. map_of fs ?t = Some ws \<and> freed = dirSize ws"
    using assms(1) Inr by (auto simp: DeleteCache_def Let_def split: if_splits option.splits)
  have "path_join (hubDir hfCache) (cacheDirForRepo other) \<noteq> ?t"
  proof
    assume "path_join (hubDir hfCache) (cacheDirForRepo other) = ?t"
    then have "cacheDirForRepo other = cacheDirForRepo repo"
      using path_join_plain_inj [OF ok(2)] cacheDirForRepo_plain [OF assms(2)]
        cacheDirForRepo_plain [OF assms(3)] by metis
    then have "other = repo" using cache_name_inverse assms(2,3) by metis
    with assms(4) ok(1) show False by simp
  qed
  with ok Inr show ?thesis by auto
qed

definition sample_hub :: hub where
  "sample_hub = [(''/c/hub/models--Q--Qwen3-8B'', [Skipped, Found (Some (7, 2)) 100, Found (Some (7, 2)) 100]),
                 (''/c/hub/models--m--x'', [Found None 5])]"

theorem DeleteCache_guarded_witness:
  "map_of (snd (DeleteCache ''/c'' (\<lambda>r. r = ''m/x'') None None ''Q/Qwen3-8B'' sample_hub))
     (path_join (hubDir ''/c'') (cacheDirForRepo ''m/x'')) = Some [Found None 5] \<and>
   fst (DeleteCache ''/c'' (\<lambda>r. r = ''m/x'') None None ''Q/Qwen3-8B'' sample_hub) = Inr 100"
proof -
  have plain: "plain_repo ''Q/Qwen3-8B''" "plain_repo ''m/x''" by code_simp+
  have dirs: "cacheDirForRepo ''Q/Qwen3-8B'' = ''models--Q--Qwen3-8B''" "cacheDirForRepo ''m/x'' = ''models--m--x''"
    using cacheDirForRepo_parts [of "''Q''" "''Qwen3-8B''"] cacheDirForRepo_parts [of "''m''" "''x''"] by simp_all
  have paths: "path_join (hubDir ''/c'') ''models--Q--Qwen3-8B'' = ''/c/hub/models--Q--Qwen3-8B''"
      "path_join (hubDir ''/c'') ''models--m--x'' = ''/c/hub/models--m--x''"
      "path_dir ''/c/hub/models--Q--Qwen3-8B'' = Clean (hubDir ''/c'')" "hubDir ''/c'' \<noteq> []"
      "validRepo ''Q/Qwen3-8B''"
    by code_simp+
  have sz: "dirSize [Skipped, Found (Some (7, 2)) 100, Found (Some (7, 2)) 100] = 100" by code_simp
  have run: "fst (DeleteCache ''/c'' (\<lambda>r. r = ''m/x'') None None ''Q/Qwen3-8B'' sample_hub) = Inr 100"
    using paths sz by (simp add: DeleteCache_def Let_def dirs sample_hub_def)
  obtain fs' where d: "DeleteCache ''/c'' (\<lambda>r. r = ''m/x'') None None ''Q/Qwen3-8B'' sample_hub = (Inr 100, fs')"
    using run by (cases "DeleteCache ''/c'' (\<lambda>r. r = ''m/x'') None None ''Q/Qwen3-8B'' sample_hub") auto
  have "map_of fs' (path_join (hubDir ''/c'') (cacheDirForRepo ''m/x'')) =
      map_of sample_hub (path_join (hubDir ''/c'') (cacheDirForRepo ''m/x''))"
    using DeleteCache_guarded [OF d plain refl] unfolding sum.case by blast
  then show ?thesis using d paths(2) by (simp add: dirs sample_hub_def)
qed

text \<open>
  Without the restriction on names the guard has a gap: two repositories share a directory when one has
  the doubled dash in its owner and the other in its name.
\<close>

lemma cache_dir_alias:
  "validRepo ''a--b/c'' \<and> validRepo ''a/b--c'' \<and> cacheDirForRepo ''a--b/c'' = cacheDirForRepo ''a/b--c''"
  using cacheDirForRepo_parts [of "''a--b''" "''c''"] cacheDirForRepo_parts [of "''a''" "''b--c''"]
  by (simp, code_simp)

end
