(* ===== verification/Agent_Supervisor.thy ===== *)
theory Agent_Supervisor
  imports Agent_Engine "HOL-Library.List_Lexorder" "HOL-Library.Char_ord"
begin

text \<open>
  The engine supervisor of a node (\<^verbatim>\<open>src/internal/agent/supervisor.go\<close>). An instance is an object of a
  heap, because its goroutines keep it after the table of models forgets it. Every goroutine is a
  thread with the position it has reached; each critical section is one operation on the state, and
  a step lets one thread, the operator or the environment (a process that exits, a probe, a log line)
  perform the next one. Sleeping and signalling take no step of their own: a signalled process exits
  when the environment says so.
\<close>

subsection \<open>Data\<close>

datatype inst_state = StateStarting | StateReady | StateFailed | StateStopped

definition state_text :: "inst_state \<Rightarrow> string" where
  "state_text st =
     (case st of StateStarting \<Rightarrow> ''starting'' | StateReady \<Rightarrow> ''ready'' | StateFailed \<Rightarrow> ''failed''
      | StateStopped \<Rightarrow> ''stopped'')"

definition logRingSize :: nat where "logRingSize = 400"
definition readyProbeFreq :: duration where "readyProbeFreq = 3 * second"
definition readyTimeout :: duration where "readyTimeout = 2 * hour"
definition defaultMaxRestarts :: int where "defaultMaxRestarts = 5"
definition defaultRestartBackoff :: duration where "defaultRestartBackoff = 5 * second"

text \<open>
  \<open>in_chan\<close> is the channel \<^verbatim>\<open>exited\<close> currently refers to and \<open>in_closed\<close> are the channels of the instance
  that were closed; \<open>in_cmd\<close> is the process of the last launch.
\<close>

record Instance =
  in_Spec :: Spec
  in_Port :: int
  in_state :: inst_state
  in_errMsg :: string
  in_pid :: int
  in_command :: string
  in_startedAt :: time
  in_readyAt :: time
  in_restarts :: int
  in_logs :: "string list"
  in_cmd :: "int option"
  in_stopping :: bool
  in_desired :: bool
  in_chan :: nat
  in_closed :: "nat list"

record View =
  v_Spec :: Spec
  v_Port :: int
  v_State :: inst_state
  v_PID :: int
  v_StartedAt :: time
  v_ReadyAt :: time
  v_Error :: string
  v_Restarts :: int
  v_Command :: string

datatype caller = FromStart | FromReap

datatype thread =
    Launching nat caller
  | Probing nat
  | Reaping nat int
  | ReapStopped nat
  | ReapDecide nat string
  | StopWaiting nat nat "string option"
  | StopFinish nat "string option"
  | RemoveDelete string
  | Persisting "string option"

record Supervisor =
  su_rt :: Runtime
  su_stateDir :: string
  su_portBase :: int
  su_heap :: "Instance list"
  su_instances :: "(string \<times> nat) list"
  su_MaxRestarts :: int
  su_RestartBackoff :: duration
  su_ProbeInterval :: duration
  su_threads :: "thread list"
  su_alive :: "int list"
  su_file :: "Spec list option"

definition NewSupervisor :: "Runtime \<Rightarrow> string \<Rightarrow> int \<Rightarrow> Spec list option \<Rightarrow> Supervisor" where
  "NewSupervisor rt stateDir portBase file =
     \<lparr>su_rt = rt, su_stateDir = stateDir, su_portBase = (if portBase \<le> 0 then 18000 else portBase),
      su_heap = [], su_instances = [], su_MaxRestarts = defaultMaxRestarts,
      su_RestartBackoff = defaultRestartBackoff, su_ProbeInterval = readyProbeFreq,
      su_threads = [], su_alive = [], su_file = file\<rparr>"

subsection \<open>One instance\<close>

definition Snapshot :: "Instance \<Rightarrow> View" where
  "Snapshot i =
     \<lparr>v_Spec = in_Spec i, v_Port = in_Port i, v_State = in_state i, v_PID = in_pid i,
      v_StartedAt = in_startedAt i, v_ReadyAt = in_readyAt i, v_Error = in_errMsg i,
      v_Restarts = in_restarts i, v_Command = in_command i\<rparr>"

definition setState :: "inst_state \<Rightarrow> string \<Rightarrow> Instance \<Rightarrow> Instance" where
  "setState st msg i = i\<lparr>in_state := st, in_errMsg := msg\<rparr>"

definition appendLog :: "string \<Rightarrow> Instance \<Rightarrow> Instance" where
  "appendLog line i =
     (let ls = in_logs i @ [line]
      in i\<lparr>in_logs := (if length ls > logRingSize then drop (length ls - logRingSize) ls else ls)\<rparr>)"

definition Logs :: "int \<Rightarrow> Instance \<Rightarrow> string list" where
  "Logs n i =
     (let k = (if n \<le> 0 \<or> n > int (length (in_logs i)) then length (in_logs i) else nat n)
      in drop (length (in_logs i) - k) (in_logs i))"

definition lastN :: "string list \<Rightarrow> nat \<Rightarrow> string list" where
  "lastN lines n = (if length lines \<le> n then lines else drop (length lines - n) lines)"

fun shellJoin :: "string list \<Rightarrow> string" where
  "shellJoin [] = []"
| "shellJoin [a] = a"
| "shellJoin (a # b # as) = a @ '' '' @ shellJoin (b # as)"

definition joinLines :: "string list \<Rightarrow> string" where
  "joinLines lines = concat (map (\<lambda>l. ''  '' @ l @ [CHR 0x0A]) lines)"

subsection \<open>Why an engine failed\<close>

definition uselessErrors :: "string list" where
  "uselessErrors = [''Engine core initialization failed'', ''See root cause above'',
     ''EngineCore failed to start'', ''Engine process failed to start'']"

definition buildDefects :: "(string \<times> string) list" where
  "buildDefects =
     [(''HTTPS is not supported'',
       ''this llama.cpp was built without HTTPS, so it cannot download models: install libssl-dev and '' @
       ''rebuild with -DLLAMA_OPENSSL=ON''),
      (''CUDA error'', ''the engine could not use the GPU'')]"

definition interestingErrors :: "string list" where
  "interestingErrors = [''torch.cuda.OutOfMemoryError'', ''OutOfMemoryError'', ''NotImplementedError'',
     ''ValueError'', ''AssertionError'', ''TypeError'', ''KeyError'', ''OSError'', ''ImportError'',
     ''ModuleNotFoundError'', ''RuntimeError'']"

definition stripPIDPrefix :: "string \<Rightarrow> string" where
  "stripPIDPrefix line =
     (if \<not> HasPrefix line ''('' then line
      else case Index line '') '' of
        Some i \<Rightarrow> if i > 0 \<and> i < 40 then drop (i + 2) line else line
      | None \<Rightarrow> line)"

text \<open>The state of the scan is the repository, whether its files are being listed, and the files so far.\<close>

definition no_gguf :: string where
  "no_gguf = ''no GGUF files found in repository''"

definition scan_listing :: "string \<Rightarrow> string \<times> bool \<times> string list \<Rightarrow> string \<times> bool \<times> string list" where
  "scan_listing raw acc =
     (case acc of (repo, listing, have) \<Rightarrow>
        let line = TrimSpace (stripPIDPrefix raw)
        in case Index line no_gguf of
             Some i \<Rightarrow> (TrimSpace (drop (i + length no_gguf) line), False, [])
           | None \<Rightarrow>
               if repo = [] then acc
               else if Contains line ''Available GGUF files'' then (repo, True, have)
               else if listing then
                 let f = TrimSpace (TrimPrefix (TrimSpace line) ''-'')
                 in if HasSuffix (ToLower f) ''.gguf'' then (repo, listing, have @ [f]) else (repo, False, have)
               else acc)"

definition missingQuantization :: "string list \<Rightarrow> string" where
  "missingQuantization lines =
     (case fold scan_listing lines ([], False, []) of (repo, _, have) \<Rightarrow>
        if repo = [] then []
        else repo @ '' does not publish the quantization that was requested'' @
          (if have \<noteq> []
           then ''. It has: '' @ Join have '', '' @
                '' -- pick a repository that offers the format you want, or install with one of these''
           else []))"

text \<open>The rank of a line that can explain a failure, \<open>None\<close> for one that says nothing.\<close>

definition error_rank :: "string \<Rightarrow> nat option" where
  "error_rank line =
     (if line = [] \<or> list_ex (Contains line) uselessErrors then None
      else first_index (\<lambda>kind. Contains line (kind @ '':'')) interestingErrors)"

definition better_cause :: "string \<Rightarrow> string \<times> nat \<Rightarrow> string \<times> nat" where
  "better_cause raw best =
     (let line = TrimSpace (stripPIDPrefix raw)
      in case error_rank line of
           Some rank \<Rightarrow> if rank < snd best then (line, rank) else best
         | None \<Rightarrow> best)"

definition ellipsis :: string where
  "ellipsis = [CHR 0xE2, CHR 0x80, CHR 0xA6]"

text \<open>The map of build defects is ranged over for each line, in an order \<open>ord\<close>.\<close>

definition rootCause :: "((string \<times> string) list \<Rightarrow> (string \<times> string) list) \<Rightarrow> string list \<Rightarrow> string" where
  "rootCause ord lines =
     (case find (\<lambda>(raw, marker, _). Contains raw marker)
             (concat (map (\<lambda>raw. map (Pair raw) (ord buildDefects)) lines)) of
        Some (_, _, explain) \<Rightarrow> explain
      | None \<Rightarrow>
          let q = missingQuantization lines
          in if q \<noteq> [] then q
             else let best = fst (fold better_cause lines ([], length interestingErrors))
                  in if length best > 400 then take 400 best @ ellipsis else best)"


subsection \<open>Operations\<close>

definition upd :: "nat \<Rightarrow> (Instance \<Rightarrow> Instance) \<Rightarrow> Supervisor \<Rightarrow> Supervisor" where
  "upd i f s = s\<lparr>su_heap := (su_heap s)[i := f (su_heap s ! i)]\<rparr>"

definition spawn :: "thread list \<Rightarrow> Supervisor \<Rightarrow> Supervisor" where
  "spawn ts s = s\<lparr>su_threads := su_threads s @ ts\<rparr>"

definition allocatePort :: "(int \<Rightarrow> bool) \<Rightarrow> Supervisor \<Rightarrow> string + int" where
  "allocatePort free s =
     (let used = map (\<lambda>(_, i). in_Port (su_heap s ! i)) (su_instances s);
          b = su_portBase s
      in case find (\<lambda>p. p \<notin> set used \<and> free p) [b..b + 199] of
           Some p \<Rightarrow> Inr p
         | None \<Rightarrow> Inl (''no free port in range '' @ Itoa b @ ''-'' @ Itoa (b + 200)))"

definition new_instance :: "Spec \<Rightarrow> int \<Rightarrow> time \<Rightarrow> Instance" where
  "new_instance spec port now =
     \<lparr>in_Spec = spec, in_Port = port, in_state = StateStarting, in_errMsg = [], in_pid = 0, in_command = [],
      in_startedAt = now, in_readyAt = 0, in_restarts = 0, in_logs = [], in_cmd = None, in_stopping = False,
      in_desired = True, in_chan = 0, in_closed = []\<rparr>"

text \<open>\<^verbatim>\<open>Start\<close> up to the launch: the part under the supervisor's lock.\<close>

definition running_state :: "Supervisor \<Rightarrow> string \<Rightarrow> inst_state option" where
  "running_state s name =
     (case map_of (su_instances s) name of
        None \<Rightarrow> None
      | Some i \<Rightarrow>
          let st = in_state (su_heap s ! i) in if st = StateReady \<or> st = StateStarting then Some st else None)"

definition start_register ::
  "(int \<Rightarrow> bool) \<Rightarrow> time \<Rightarrow> Spec \<Rightarrow> Supervisor \<Rightarrow> (string + nat) \<times> Supervisor" where
  "start_register free now spec s =
     (if s_ServedName spec = [] then (Inl ''served_name is required'', s)
      else case running_state s (s_ServedName spec) of
        Some st \<Rightarrow>
          (Inl (''model '' @ quote_q (s_ServedName spec) @ '' is already '' @ state_text st @ '' on this node''), s)
      | None \<Rightarrow>
          (case allocatePort free s of
             Inl e \<Rightarrow> (Inl e, s)
           | Inr port \<Rightarrow>
               (Inr (length (su_heap s)),
                s\<lparr>su_heap := su_heap s @ [new_instance spec port now],
                  su_instances := AList.update (s_ServedName spec) (length (su_heap s)) (su_instances s)\<rparr>)))"

datatype exec_result = PipeError string | StartError string | Started int

text \<open>A launch that succeeds starts the log reader, the readiness probe and the reaper.\<close>

definition launched :: "nat \<Rightarrow> int \<Rightarrow> string \<Rightarrow> Supervisor \<Rightarrow> Supervisor" where
  "launched i pid command s =
     spawn [Probing i, Reaping i pid]
       (upd i (\<lambda>x. x\<lparr>in_cmd := Some pid, in_pid := pid, in_command := command, in_stopping := False\<rparr>)
         (s\<lparr>su_alive := pid # su_alive s\<rparr>))"

definition launch ::
  "(string \<Rightarrow> bool) \<Rightarrow> bool \<Rightarrow> exec_result \<Rightarrow> nat \<Rightarrow> Supervisor \<Rightarrow> string option \<times> Supervisor" where
  "launch on_path no_transfer result i s =
     (let x = su_heap s ! i
      in case BuildCommand (in_Spec x) (su_rt s) no_transfer (in_Port x) of
           Inl e \<Rightarrow> (Some e, s)
         | Inr (bin, args, env) \<Rightarrow>
             if \<not> on_path bin then
               (Some (s_Engine (in_Spec x) @ '' is not installed on this node (looked for '' @ quote_q bin @
                      '' on PATH)''), s)
             else case result of
               PipeError e \<Rightarrow> (Some e, s)
             | StartError e \<Rightarrow> (Some (''start '' @ bin @ '': '' @ e), s)
             | Started pid \<Rightarrow> (None, launched i pid (bin @ '' '' @ shellJoin args) s))"

text \<open>What \<^verbatim>\<open>Start\<close> and \<^verbatim>\<open>reap\<close> do with the outcome of a launch.\<close>

definition after_launch :: "nat \<Rightarrow> caller \<Rightarrow> string option \<times> Supervisor \<Rightarrow> Supervisor" where
  "after_launch i who r =
     (case r of
        (Some e, s) \<Rightarrow>
          (if who = FromStart then upd i (setState StateFailed e) s
           else spawn [Persisting None] (upd i (setState StateFailed e) s))
      | (None, s) \<Rightarrow> spawn [Persisting None] s)"

datatype probe = NoAnswer | Answers time | TimesOut

text \<open>One round of \<^verbatim>\<open>waitForReady\<close>: the threads that replace it and the state.\<close>

definition probe_round :: "probe \<Rightarrow> nat \<Rightarrow> Supervisor \<Rightarrow> thread list \<times> Supervisor" where
  "probe_round pr i s =
     (let st = in_state (su_heap s ! i)
      in case pr of
           TimesOut \<Rightarrow> ([], upd i (setState StateFailed ''engine did not become ready within 2h0m0s'') s)
         | NoAnswer \<Rightarrow> if st = StateStopped \<or> st = StateFailed then ([], s) else ([Probing i], s)
         | Answers now \<Rightarrow>
             if st = StateStopped \<or> st = StateFailed then ([], s)
             else ([Persisting None], upd i (\<lambda>x. x\<lparr>in_state := StateReady, in_errMsg := [], in_readyAt := now\<rparr>) s))"

text \<open>The process is gone: the reaper closes the channel and reads the flag of an operator's stop.\<close>

definition reap_exit :: "nat \<Rightarrow> int \<Rightarrow> string option \<Rightarrow> Supervisor \<Rightarrow> thread list \<times> Supervisor" where
  "reap_exit i pid err s =
     ((if in_stopping (su_heap s ! i) then [ReapStopped i]
       else [ReapDecide i (case err of Some e \<Rightarrow> e | None \<Rightarrow> ''exited'')]),
      upd i (\<lambda>x. if in_chan x \<in> set (in_closed x) then x else x\<lparr>in_closed := in_chan x # in_closed x\<rparr>)
        (s\<lparr>su_alive := removeAll pid (su_alive s)\<rparr>))"

definition reap_decide ::
  "((string \<times> string) list \<Rightarrow> (string \<times> string) list) \<Rightarrow> nat \<Rightarrow> string \<Rightarrow> Supervisor \<Rightarrow> thread list \<times> Supervisor" where
  "reap_decide ord i reason s =
     (let x = su_heap s ! i; tail = Logs (int logRingSize) x
      in if in_restarts x \<ge> su_MaxRestarts s then
           let cause = rootCause ord tail;
               msg = reason @ '' (gave up after '' @ Itoa (in_restarts x) @ '' restarts)'' @
                 (if cause \<noteq> [] then [CHR ''.'', CHR 0x0A] @ cause
                  else if tail \<noteq> [] then ''. Last output:'' @ [CHR 0x0A] @ joinLines (lastN tail 20) else [])
           in ([Persisting None], upd i (setState StateFailed msg) s)
         else
           ([Launching i FromReap],
            upd i (\<lambda>x. x\<lparr>in_restarts := in_restarts x + 1, in_state := StateStarting,
                         in_errMsg := ''restarting after: '' @ reason,
                         in_chan := Suc (in_chan x)\<rparr>) s))"

text \<open>\<^verbatim>\<open>stop\<close>: mark the instance, wait for the channel it has now, and finish.\<close>

definition stop_mark ::
  "string \<Rightarrow> bool \<Rightarrow> string option \<Rightarrow> Supervisor \<Rightarrow> string option \<times> thread list \<times> Supervisor" where
  "stop_mark name clearDesired remove s =
     (case map_of (su_instances s) name of
        None \<Rightarrow> (Some (''no model '' @ quote_q name @ '' on this node''), [], s)
      | Some i \<Rightarrow>
          (None,
           (if in_cmd (su_heap s ! i) \<noteq> None then [StopWaiting i (in_chan (su_heap s ! i)) remove]
            else [StopFinish i remove]),
           upd i (\<lambda>x. x\<lparr>in_stopping := True, in_desired := (if clearDesired then False else in_desired x)\<rparr>) s))"

definition stop_finish :: "nat \<Rightarrow> string option \<Rightarrow> Supervisor \<Rightarrow> thread list \<times> Supervisor" where
  "stop_finish i remove s =
     ([Persisting remove], upd i (setState StateStopped []) s)"

definition remove_delete :: "string \<Rightarrow> Supervisor \<Rightarrow> thread list \<times> Supervisor" where
  "remove_delete name s = ([Persisting None], s\<lparr>su_instances := AList.delete name (su_instances s)\<rparr>)"

definition List_views :: "Supervisor \<Rightarrow> View list" where
  "List_views s =
     sort_key (\<lambda>v. s_ServedName (v_Spec v)) (map (\<lambda>(_, i). Snapshot (su_heap s ! i)) (su_instances s))"

definition Get :: "Supervisor \<Rightarrow> string \<Rightarrow> Instance option" where
  "Get s name = map_option (\<lambda>i. su_heap s ! i) (map_of (su_instances s) name)"

subsection \<open>Persistence\<close>

definition desired_specs :: "Supervisor \<Rightarrow> Spec list" where
  "desired_specs s =
     sort_key s_ServedName
       (map in_Spec (filter in_desired (map (\<lambda>(_, i). su_heap s ! i) (su_instances s))))"

definition persist :: "bool \<Rightarrow> Supervisor \<Rightarrow> Supervisor" where
  "persist writable s =
     (if su_stateDir s = [] \<or> \<not> writable then s else s\<lparr>su_file := Some (desired_specs s)\<rparr>)"

text \<open>
  \<^verbatim>\<open>Start\<close> as its caller sees it, and the loop of \<^verbatim>\<open>Restore\<close> over the state file, which calls it once for
  every model with the surroundings of that moment. A state file that cannot be read or decoded is \<open>None\<close>.
\<close>

record start_env =
  se_free :: "int \<Rightarrow> bool"
  se_now :: time
  se_on_path :: "string \<Rightarrow> bool"
  se_no_transfer :: bool
  se_result :: exec_result
  se_writable :: bool

definition Start :: "start_env \<Rightarrow> Spec \<Rightarrow> Supervisor \<Rightarrow> string option \<times> Supervisor" where
  "Start w spec s =
     (case start_register (se_free w) (se_now w) spec s of
        (Inl e, s') \<Rightarrow> (Some e, s')
      | (Inr i, s') \<Rightarrow>
          (case launch (se_on_path w) (se_no_transfer w) (se_result w) i s' of
             (Some e, t) \<Rightarrow> (Some e, upd i (setState StateFailed e) t)
           | (None, t) \<Rightarrow> (None, persist (se_writable w) t)))"

fun restore_all :: "(nat \<Rightarrow> start_env) \<Rightarrow> nat \<Rightarrow> Spec list \<Rightarrow> Supervisor \<Rightarrow> Supervisor" where
  "restore_all w n [] s = s"
| "restore_all w n (spec # specs) s = restore_all w (Suc n) specs (snd (Start (w n) spec s))"

definition Restore :: "(nat \<Rightarrow> start_env) \<Rightarrow> Supervisor \<Rightarrow> Supervisor" where
  "Restore w s = (case su_file s of None \<Rightarrow> s | Some specs \<Rightarrow> restore_all w 0 specs s)"

subsection \<open>Steps\<close>

text \<open>What happens to a thread: an event of the environment where it waits for one, else its next section.\<close>

datatype event =
    EvLaunch "string \<Rightarrow> bool" bool exec_result
  | EvProbe probe
  | EvExit "string option"
  | EvPersist bool
  | EvGo

definition fresh_pid :: "Supervisor \<Rightarrow> exec_result \<Rightarrow> bool" where
  "fresh_pid s r = (case r of Started pid \<Rightarrow> pid \<notin> set (su_alive s) | _ \<Rightarrow> True)"

fun thread_step ::
  "((string \<times> string) list \<Rightarrow> (string \<times> string) list) \<Rightarrow> event \<Rightarrow> thread \<Rightarrow> Supervisor \<Rightarrow>
   (thread list \<times> Supervisor) option" where
  "thread_step ord (EvLaunch p nt r) (Launching i who) s =
     (if fresh_pid s r then Some ([], after_launch i who (launch p nt r i s)) else None)"
| "thread_step ord (EvProbe pr) (Probing i) s = Some (probe_round pr i s)"
| "thread_step ord (EvExit err) (Reaping i pid) s = Some (reap_exit i pid err s)"
| "thread_step ord (EvPersist ok) (Persisting next) s =
     Some (case next of None \<Rightarrow> [] | Some n \<Rightarrow> [RemoveDelete n], persist ok s)"
| "thread_step ord EvGo (ReapStopped i) s = Some ([], upd i (setState StateStopped []) s)"
| "thread_step ord EvGo (ReapDecide i reason) s = Some (reap_decide ord i reason s)"
| "thread_step ord EvGo (StopWaiting i ch remove) s =
     (if ch \<in> set (in_closed (su_heap s ! i)) then Some ([StopFinish i remove], s) else None)"
| "thread_step ord EvGo (StopFinish i remove) s = Some (stop_finish i remove s)"
| "thread_step ord EvGo (RemoveDelete n) s = Some (remove_delete n s)"
| "thread_step ord _ _ s = None"

datatype action =
    OpStart "int \<Rightarrow> bool" time Spec
  | OpStop string bool
  | OpRemove string
  | EvLog nat string
  | Sched nat event

definition drop_thread :: "nat \<Rightarrow> Supervisor \<Rightarrow> Supervisor" where
  "drop_thread k s = s\<lparr>su_threads := take k (su_threads s) @ drop (Suc k) (su_threads s)\<rparr>"

fun sup_step ::
  "((string \<times> string) list \<Rightarrow> (string \<times> string) list) \<Rightarrow> action \<Rightarrow> Supervisor \<Rightarrow> Supervisor option" where
  "sup_step ord (OpStart free now spec) s =
     (case start_register free now spec s of
        (Inl _, s') \<Rightarrow> Some s'
      | (Inr i, s') \<Rightarrow> Some (spawn [Launching i FromStart] s'))"
| "sup_step ord (OpStop name clear) s =
     (case stop_mark name clear None s of (_, ts, s') \<Rightarrow> Some (spawn ts s'))"
| "sup_step ord (OpRemove name) s =
     (case stop_mark name True (Some name) s of (_, ts, s') \<Rightarrow> Some (spawn ts s'))"
| "sup_step ord (EvLog i line) s =
     (if i < length (su_heap s) then Some (upd i (appendLog line) s) else None)"
| "sup_step ord (Sched k ev) s =
     (if k < length (su_threads s) then
        (case thread_step ord ev (su_threads s ! k) (drop_thread k s) of
           Some (ts, s') \<Rightarrow> Some (spawn ts s') | None \<Rightarrow> None)
      else None)"

definition StopAll :: "Supervisor \<Rightarrow> action list" where
  "StopAll s = map (\<lambda>v. OpStop (s_ServedName (v_Spec v)) False) (List_views s)"

text \<open>The executions, as sequences of actions that are all enabled.\<close>

fun sup_run ::
  "((string \<times> string) list \<Rightarrow> (string \<times> string) list) \<Rightarrow> action list \<Rightarrow> Supervisor \<Rightarrow> Supervisor option" where
  "sup_run ord [] s = Some s"
| "sup_run ord (a # as) s = (case sup_step ord a s of Some s' \<Rightarrow> sup_run ord as s' | None \<Rightarrow> None)"

end
