(* ===== verification/Agent_Lifecycle.thy ===== *)
theory Agent_Lifecycle
  imports Agent_Supervisor
begin

text \<open>
  What holds in every execution of the supervisor: the table of models, the ports, the bounds on
  restarts and logs, and one process per instance; and two executions that go wrong.
\<close>

subsection \<open>The invariant\<close>

definition inst_ok :: "int \<Rightarrow> Instance \<Rightarrow> bool" where
  "inst_ok m x \<longleftrightarrow> 0 \<le> in_restarts x \<and> in_restarts x \<le> max 0 m \<and> length (in_logs x) \<le> logRingSize"

definition table_ok :: "Supervisor \<Rightarrow> bool" where
  "table_ok s \<longleftrightarrow>
     distinct (keys_of (su_instances s)) \<and>
     (\<forall>(n, i) \<in> set (su_instances s). n \<noteq> [] \<and> i < length (su_heap s) \<and> s_ServedName (in_Spec (su_heap s ! i)) = n \<and>
        su_portBase s \<le> in_Port (su_heap s ! i) \<and> in_Port (su_heap s ! i) < su_portBase s + 200) \<and>
     distinct (map (\<lambda>(_, i). in_Port (su_heap s ! i)) (su_instances s))"

text \<open>The thread that drives an instance: it launches the process, waits for it or decides on a restart.\<close>

fun drives :: "nat \<Rightarrow> thread \<Rightarrow> bool" where
  "drives i (Launching j _) \<longleftrightarrow> j = i"
| "drives i (Reaping j _) \<longleftrightarrow> j = i"
| "drives i (ReapDecide j _) \<longleftrightarrow> j = i"
| "drives i _ \<longleftrightarrow> False"

fun thread_inst :: "thread \<Rightarrow> nat option" where
  "thread_inst (Launching i _) = Some i"
| "thread_inst (Probing i) = Some i"
| "thread_inst (Reaping i _) = Some i"
| "thread_inst (ReapStopped i) = Some i"
| "thread_inst (ReapDecide i _) = Some i"
| "thread_inst (StopWaiting i _ _) = Some i"
| "thread_inst (StopFinish i _) = Some i"
| "thread_inst _ = None"

fun reaped_pid :: "thread \<Rightarrow> int option" where
  "reaped_pid (Reaping _ pid) = Some pid"
| "reaped_pid _ = None"

definition threads_ok :: "nat \<Rightarrow> int list \<Rightarrow> thread list \<Rightarrow> bool" where
  "threads_ok n alive ts \<longleftrightarrow>
     (\<forall>t \<in> set ts. \<forall>i. thread_inst t = Some i \<longrightarrow> i < n) \<and>
     (\<forall>i. length (filter (drives i) ts) \<le> 1) \<and>
     mset alive = mset (List.map_filter reaped_pid ts) \<and> distinct alive"

definition sup_inv :: "Supervisor \<Rightarrow> bool" where
  "sup_inv s \<longleftrightarrow>
     table_ok s \<and> (\<forall>x \<in> set (su_heap s). inst_ok (su_MaxRestarts s) x) \<and>
     threads_ok (length (su_heap s)) (su_alive s) (su_threads s)"

subsection \<open>Updating one instance\<close>

lemma upd_sel [simp]:
  "length (su_heap (upd i f s)) = length (su_heap s)"
  "su_instances (upd i f s) = su_instances s" "su_portBase (upd i f s) = su_portBase s"
  "su_MaxRestarts (upd i f s) = su_MaxRestarts s" "su_threads (upd i f s) = su_threads s"
  "su_alive (upd i f s) = su_alive s" "su_file (upd i f s) = su_file s"
  "su_stateDir (upd i f s) = su_stateDir s" "su_rt (upd i f s) = su_rt s"
  by (simp_all add: upd_def)

lemma spawn_sel [simp]:
  "su_heap (spawn ts s) = su_heap s" "su_instances (spawn ts s) = su_instances s"
  "su_portBase (spawn ts s) = su_portBase s" "su_MaxRestarts (spawn ts s) = su_MaxRestarts s"
  "su_threads (spawn ts s) = su_threads s @ ts" "su_alive (spawn ts s) = su_alive s"
  "su_file (spawn ts s) = su_file s" "su_stateDir (spawn ts s) = su_stateDir s" "su_rt (spawn ts s) = su_rt s"
  by (simp_all add: spawn_def)

lemma drop_thread_sel [simp]:
  "su_heap (drop_thread k s) = su_heap s" "su_instances (drop_thread k s) = su_instances s"
  "su_portBase (drop_thread k s) = su_portBase s" "su_MaxRestarts (drop_thread k s) = su_MaxRestarts s"
  "su_alive (drop_thread k s) = su_alive s" "su_stateDir (drop_thread k s) = su_stateDir s"
  "su_threads (drop_thread k s) = take k (su_threads s) @ drop (Suc k) (su_threads s)"
  by (simp_all add: drop_thread_def)

text \<open>A change of an instance that keeps its specification and port keeps the table.\<close>

definition keeps :: "(Instance \<Rightarrow> Instance) \<Rightarrow> bool" where
  "keeps f \<longleftrightarrow> (\<forall>x. in_Spec (f x) = in_Spec x \<and> in_Port (f x) = in_Port x)"

lemma keeps_nth:
  assumes "keeps f"
  shows "in_Spec (su_heap (upd i f s) ! j) = in_Spec (su_heap s ! j)"
    "in_Port (su_heap (upd i f s) ! j) = in_Port (su_heap s ! j)"
proof -
  have "in_Spec (su_heap (upd i f s) ! j) = in_Spec (su_heap s ! j) \<and>
      in_Port (su_heap (upd i f s) ! j) = in_Port (su_heap s ! j)"
  proof (cases "i < length (su_heap s)")
    case True
    with assms show ?thesis by (cases "i = j") (auto simp: upd_def keeps_def)
  qed (simp add: upd_def list_update_beyond)
  then show "in_Spec (su_heap (upd i f s) ! j) = in_Spec (su_heap s ! j)"
    "in_Port (su_heap (upd i f s) ! j) = in_Port (su_heap s ! j)" by simp_all
qed

lemma table_ok_upd: "keeps f \<Longrightarrow> table_ok (upd i f s) = table_ok s"
  by (simp add: table_ok_def keeps_nth)

lemma heap_ok_upd:
  assumes "\<forall>x \<in> set (su_heap s). inst_ok m x" "\<And>x. inst_ok m x \<Longrightarrow> inst_ok m (f x)"
  shows "\<forall>x \<in> set (su_heap (upd i f s)). inst_ok m x"
proof (cases "i < length (su_heap s)")
  case True
  then show ?thesis
    using assms set_update_subset_insert [of "su_heap s" i "f (su_heap s ! i)"] by (force simp: upd_def)
qed (use assms in \<open>simp add: upd_def list_update_beyond\<close>)

lemma table_ok_frame:
  "su_heap s' = su_heap s \<Longrightarrow> su_instances s' = su_instances s \<Longrightarrow> su_portBase s' = su_portBase s \<Longrightarrow>
   table_ok s' = table_ok s"
  by (simp add: table_ok_def)

lemma inst_ok_setState [simp]: "inst_ok m (setState st e x) = inst_ok m x"
  by (simp add: inst_ok_def setState_def)

lemma keeps_setState [simp]: "keeps (setState st e)"
  by (simp add: keeps_def setState_def)

lemma appendLog_ok: "inst_ok m x \<Longrightarrow> inst_ok m (appendLog l x)"
  by (auto simp: inst_ok_def appendLog_def Let_def)

lemma keeps_appendLog [simp]: "keeps (appendLog l)"
  by (simp add: keeps_def appendLog_def Let_def)

subsection \<open>Ports and the table\<close>

lemma allocatePort_Inr:
  assumes "allocatePort free s = Inr p"
  shows "p \<notin> set (map (\<lambda>(_, i). in_Port (su_heap s ! i)) (su_instances s))" "free p"
    "su_portBase s \<le> p" "p < su_portBase s + 200"
  using assms by (auto simp: allocatePort_def Let_def split: option.splits dest!: find_SomeD)

lemma start_register_cases:
  obtains (error) e where "start_register free now spec s = (Inl e, s)"
    | (registered) port where "allocatePort free s = Inr port" "s_ServedName spec \<noteq> []"
      "start_register free now spec s =
        (Inr (length (su_heap s)),
         s\<lparr>su_heap := su_heap s @ [new_instance spec port now],
           su_instances := AList.update (s_ServedName spec) (length (su_heap s)) (su_instances s)\<rparr>)"
proof (cases "s_ServedName spec = []")
  case True
  then show ?thesis by (intro error) (simp add: start_register_def)
next
  case named: False
  show ?thesis
  proof (cases "running_state s (s_ServedName spec)")
    case None
    with named show ?thesis
      by (cases "allocatePort free s") (auto simp: start_register_def intro: that)
  next
    case (Some st)
    with named show ?thesis by (intro error) (simp add: start_register_def)
  qed
qed

lemma set_update_AList:
  "distinct (keys_of m) \<Longrightarrow> (n, i) \<in> set (AList.update k v m) \<Longrightarrow> (n = k \<and> i = v) \<or> (n \<noteq> k \<and> (n, i) \<in> set m)"
proof -
  assume d: "distinct (keys_of m)" and "(n, i) \<in> set (AList.update k v m)"
  then have "map_of (AList.update k v m) n = Some i"
    by (intro map_of_is_SomeI distinct_keys_update)
  then show ?thesis by (auto split: if_splits dest: map_of_SomeD)
qed

lemma map_update_values:
  assumes "distinct (keys_of m)" "distinct (map g m)" "g (k, v) \<notin> g ` set m"
  shows "distinct (map g (AList.update k v m))"
  using assms
proof (induction m)
  case (Cons kv m)
  show ?case
  proof (cases "fst kv = k")
    case True
    with Cons.prems show ?thesis by (cases kv) auto
  next
    case False
    have "g kv \<notin> g ` set (AList.update k v m)"
    proof
      assume "g kv \<in> g ` set (AList.update k v m)"
      then obtain n i where ni: "(n, i) \<in> set (AList.update k v m)" "g kv = g (n, i)" by auto
      then consider "n = k" "i = v" | "(n, i) \<in> set m"
        using set_update_AList [of m n i k v] Cons.prems by auto
      then show False using ni Cons.prems by cases (force, auto)
    qed
    with False Cons show ?thesis by (cases kv) auto
  qed
qed simp

lemma table_ok_register:
  assumes "table_ok s" "allocatePort free s = Inr port" "s_ServedName spec \<noteq> []"
  shows "table_ok (s\<lparr>su_heap := su_heap s @ [new_instance spec port now],
           su_instances := AList.update (s_ServedName spec) (length (su_heap s)) (su_instances s)\<rparr>)"
proof -
  let ?h = "su_heap s @ [new_instance spec port now]"
  let ?m = "AList.update (s_ServedName spec) (length (su_heap s)) (su_instances s)"
  note port = allocatePort_Inr [OF assms(2)]
  have d: "distinct (keys_of (su_instances s))" and
    old: "\<And>n i. (n, i) \<in> set (su_instances s) \<Longrightarrow> i < length (su_heap s)" and
    ports: "distinct (map (\<lambda>(_, i). in_Port (su_heap s ! i)) (su_instances s))"
    using assms(1) by (auto simp: table_ok_def)
  have same: "map (\<lambda>(_, i). in_Port (?h ! i)) (su_instances s) =
      map (\<lambda>(_, i). in_Port (su_heap s ! i)) (su_instances s)"
    using old by (auto simp: nth_append)
  have "distinct (map (\<lambda>(_, i). in_Port (?h ! i)) ?m)"
  proof (rule map_update_values [OF d])
    show "distinct (map (\<lambda>(_, i). in_Port (?h ! i)) (su_instances s))" using ports unfolding same .
    show "(case (s_ServedName spec, length (su_heap s)) of (_, i) \<Rightarrow> in_Port (?h ! i)) \<notin>
        (\<lambda>(_, i). in_Port (?h ! i)) ` set (su_instances s)"
      using port(1) unfolding same [symmetric] by (simp add: new_instance_def)
  qed
  moreover have "n \<noteq> [] \<and> i < length ?h \<and> s_ServedName (in_Spec (?h ! i)) = n \<and>
      su_portBase s \<le> in_Port (?h ! i) \<and> in_Port (?h ! i) < su_portBase s + 200" if "(n, i) \<in> set ?m" for n i
    using set_update_AList [OF d that] assms(1,3) port(3,4) old
    by (auto simp: table_ok_def nth_append new_instance_def)
  ultimately show ?thesis using d by (auto simp: table_ok_def)
qed

subsection \<open>Threads\<close>

lemma threads_ok_drop:
  assumes "threads_ok n alive ts" "k < length ts"
  shows "\<forall>t \<in> set (take k ts @ drop (Suc k) ts). \<forall>i. thread_inst t = Some i \<longrightarrow> i < n"
    "length (filter (drives i) (take k ts @ drop (Suc k) ts)) + (if drives i (ts ! k) then 1 else 0) \<le> 1"
    "mset alive = mset (List.map_filter reaped_pid (take k ts @ drop (Suc k) ts)) +
       (case reaped_pid (ts ! k) of Some p \<Rightarrow> {#p#} | None \<Rightarrow> {#})"
proof -
  have ts: "ts = take k ts @ ts ! k # drop (Suc k) ts" using assms(2) by (rule id_take_nth_drop)
  show "\<forall>t \<in> set (take k ts @ drop (Suc k) ts). \<forall>i. thread_inst t = Some i \<longrightarrow> i < n"
    using assms(1) by (auto simp: threads_ok_def dest: in_set_takeD in_set_dropD)
  have "length (filter (drives i) ts) \<le> 1" using assms(1) by (simp add: threads_ok_def)
  then show "length (filter (drives i) (take k ts @ drop (Suc k) ts)) + (if drives i (ts ! k) then 1 else 0) \<le> 1"
    by (subst (asm) ts) (auto split: if_splits)
  have "mset alive = mset (List.map_filter reaped_pid ts)" using assms(1) by (simp add: threads_ok_def)
  then show "mset alive = mset (List.map_filter reaped_pid (take k ts @ drop (Suc k) ts)) +
       (case reaped_pid (ts ! k) of Some p \<Rightarrow> {#p#} | None \<Rightarrow> {#})"
    by (subst (asm) ts) (auto simp: List.map_filter_def split: option.splits)
qed

text \<open>
  What a step may put in the place of the thread that takes it: threads of the same instance, at most
  one that drives it and only if the old one did, and the processes it started or saw exit.
\<close>

definition hands_over :: "thread \<Rightarrow> thread list \<Rightarrow> int list \<Rightarrow> int list \<Rightarrow> bool" where
  "hands_over t us alive alive' \<longleftrightarrow>
     (\<forall>u \<in> set us. thread_inst u = None \<or> thread_inst u = thread_inst t) \<and>
     (\<forall>i. length (filter (drives i) us) \<le> (if drives i t then 1 else 0)) \<and>
     mset alive' + (case reaped_pid t of Some p \<Rightarrow> {#p#} | None \<Rightarrow> {#}) =
       mset alive + mset (List.map_filter reaped_pid us) \<and>
     (distinct alive \<longrightarrow> distinct alive')"

lemma threads_ok_replace:
  assumes "threads_ok n alive ts" "k < length ts" "hands_over (ts ! k) us alive alive'"
  shows "threads_ok n alive' (take k ts @ drop (Suc k) ts @ us)"
proof -
  note d = threads_ok_drop [OF assms(1,2)]
  have "ts ! k \<in> set ts" using assms(2) by simp
  then have own: "thread_inst (ts ! k) = Some i \<Longrightarrow> i < n" for i
    using assms(1) by (auto simp: threads_ok_def)
  have "length (filter (drives i) (take k ts @ drop (Suc k) ts @ us)) \<le> 1" for i
  proof -
    have "length (filter (drives i) us) \<le> (if drives i (ts ! k) then 1 else 0)"
      using assms(3) by (simp add: hands_over_def)
    then show ?thesis using d(2) [of i] by (auto split: if_splits)
  qed
  moreover have "mset alive' = mset (List.map_filter reaped_pid (take k ts @ drop (Suc k) ts @ us))"
    using d(3) assms(3) by (auto simp: hands_over_def List.map_filter_def split: option.splits)
  moreover have "i < n" if "t \<in> set (take k ts @ drop (Suc k) ts @ us)" "thread_inst t = Some i" for t i
  proof (cases "t \<in> set us")
    case True
    then have "thread_inst t = thread_inst (ts ! k)"
      using assms(3) that(2) by (auto simp: hands_over_def)
    with own that(2) show ?thesis by simp
  qed (use d(1) that in auto)
  moreover have "distinct alive'" using assms(1,3) by (simp add: threads_ok_def hands_over_def)
  ultimately show ?thesis unfolding threads_ok_def by blast
qed

lemma threads_ok_spawn:
  assumes "threads_ok n alive ts" "n \<le> n'"
    and "\<forall>u \<in> set us. \<forall>i. thread_inst u = Some i \<longrightarrow> i < n'"
    and "\<And>i. length (filter (drives i) us) \<le> (if n \<le> i then 1 else 0)"
    and "List.map_filter reaped_pid us = []"
  shows "threads_ok n' alive (ts @ us)"
proof -
  have none: "filter (drives i) ts = []" if "n \<le> i" for i
  proof -
    have "thread_inst t = Some i" if "drives i t" for t using that by (cases t) auto
    then show ?thesis using assms(1) that by (fastforce simp: threads_ok_def filter_empty_conv)
  qed
  have "length (filter (drives i) (ts @ us)) \<le> 1" for i
    using assms(1) assms(4) [of i] none [of i] by (cases "n \<le> i") (auto simp: threads_ok_def)
  then show ?thesis
    using assms(1,2,3,5) by (auto simp: threads_ok_def List.map_filter_def)
qed

subsection \<open>The invariant is kept\<close>

lemma sup_invI:
  "table_ok s \<Longrightarrow> \<forall>x \<in> set (su_heap s). inst_ok (su_MaxRestarts s) x \<Longrightarrow>
   threads_ok (length (su_heap s)) (su_alive s) (su_threads s) \<Longrightarrow> sup_inv s"
  by (simp add: sup_inv_def)

text \<open>A section of a thread: the parts of the state it may change.\<close>

definition good_section :: "thread \<Rightarrow> Supervisor \<Rightarrow> thread list \<times> Supervisor \<Rightarrow> bool" where
  "good_section t s r \<longleftrightarrow>
     (case r of (us, s') \<Rightarrow>
        table_ok s' \<and> (\<forall>x \<in> set (su_heap s'). inst_ok (su_MaxRestarts s') x) \<and>
        length (su_heap s') = length (su_heap s) \<and>
        (\<exists>ws. su_threads s' = su_threads s @ ws \<and> hands_over t (ws @ us) (su_alive s) (su_alive s')))"

lemma sched_step:
  assumes "sup_inv s" "k < length (su_threads s)"
    and "good_section (su_threads s ! k) (drop_thread k s) (us, s')"
  shows "sup_inv (spawn us s')"
proof (rule sup_invI)
  obtain ws where ws: "su_threads s' = take k (su_threads s) @ drop (Suc k) (su_threads s) @ ws"
      "hands_over (su_threads s ! k) (ws @ us) (su_alive s) (su_alive s')"
    using assms(3) by (auto simp: good_section_def)
  have "threads_ok (length (su_heap s)) (su_alive s')
      (take k (su_threads s) @ drop (Suc k) (su_threads s) @ ws @ us)"
    by (rule threads_ok_replace [OF _ assms(2) ws(2)]) (use assms(1) in \<open>simp add: sup_inv_def\<close>)
  then show "threads_ok (length (su_heap (spawn us s'))) (su_alive (spawn us s')) (su_threads (spawn us s'))"
    using assms(3) ws(1) by (simp add: good_section_def)
  show "table_ok (spawn us s')"
    using assms(3) table_ok_frame [of "spawn us s'" s'] by (simp add: good_section_def)
  show "\<forall>x \<in> set (su_heap (spawn us s')). inst_ok (su_MaxRestarts (spawn us s')) x"
    using assms(3) by (simp add: good_section_def)
qed

text \<open>Sections that change one instance only, and hand over to threads that have no process.\<close>

lemma good_section_upd:
  assumes "table_ok s" "\<forall>x \<in> set (su_heap s). inst_ok (su_MaxRestarts s) x"
    and "keeps f" "\<And>x. inst_ok (su_MaxRestarts s) x \<Longrightarrow> inst_ok (su_MaxRestarts s) (f x)"
    and "hands_over t us (su_alive s) (su_alive s)"
  shows "good_section t s (us, upd i f s)"
  using assms table_ok_upd [OF assms(3)] heap_ok_upd [OF assms(2,4)]
  by (auto simp: good_section_def)

lemma hands_over_quiet:
  assumes "\<forall>u \<in> set us. (thread_inst u = None \<or> thread_inst u = thread_inst t) \<and> reaped_pid u = None"
    and "\<And>i. length (filter (drives i) us) \<le> (if drives i t then 1 else 0)" and "reaped_pid t = None"
  shows "hands_over t us alive alive"
proof -
  have "List.map_filter reaped_pid us = []" using assms(1) by (induction us) (auto simp: List.map_filter_def)
  then show ?thesis using assms by (simp add: hands_over_def)
qed

lemma upd_id: "upd i (\<lambda>x. x) s = s"
  by (simp add: upd_def)

lemma good_section_same:
  assumes "table_ok s" "\<forall>x \<in> set (su_heap s). inst_ok (su_MaxRestarts s) x" "hands_over t us (su_alive s) (su_alive s)"
  shows "good_section t s (us, s)"
  using good_section_upd [of s "\<lambda>x. x" t us] assms by (simp add: upd_id keeps_def)

definition state_ok :: "Supervisor \<Rightarrow> bool" where
  "state_ok s \<longleftrightarrow> table_ok s \<and> (\<forall>x \<in> set (su_heap s). inst_ok (su_MaxRestarts s) x)"

lemma good_section_spawn:
  assumes "good_section t s (ws @ us, s')" "su_threads s' = su_threads s"
  shows "good_section t s (us, spawn ws s')"
  using assms table_ok_frame [of "spawn ws s'" s'] by (auto simp: good_section_def)

lemma good_launch_failed:
  assumes "state_ok s"
  shows "good_section (Launching i who) s ([], after_launch i who (Some e, s))"
proof -
  have up: "good_section (Launching i who) s (us, upd i (setState StateFailed e) s)"
    if "us = [] \<or> us = [Persisting None]" for us
    using assms that
    by (intro good_section_upd hands_over_quiet) (auto simp: state_ok_def)
  show ?thesis
  proof (cases who)
    case FromStart
    with up [of "[]"] show ?thesis by (simp add: after_launch_def)
  next
    case FromReap
    with good_section_spawn [of "Launching i who" s "[Persisting None]" "[]" "upd i (setState StateFailed e) s"]
      up [of "[Persisting None]"] show ?thesis by (simp add: after_launch_def)
  qed
qed

lemma good_launched:
  assumes "state_ok s" "pid \<notin> set (su_alive s)"
  shows "good_section (Launching i who) s ([], after_launch i who (None, launched i pid command s))"
proof -
  let ?f = "\<lambda>x. x\<lparr>in_cmd := Some pid, in_pid := pid, in_command := command, in_stopping := False\<rparr>"
  let ?s = "s\<lparr>su_alive := pid # su_alive s\<rparr>"
  have "table_ok (upd i ?f ?s)"
    using assms(1) table_ok_upd [of ?f i ?s] table_ok_frame [of ?s s] by (simp add: state_ok_def keeps_def)
  moreover have "\<forall>x \<in> set (su_heap (upd i ?f ?s)). inst_ok (su_MaxRestarts s) x"
    using assms(1) by (intro heap_ok_upd) (auto simp: state_ok_def inst_ok_def)
  moreover have "hands_over (Launching i who) [Probing i, Reaping i pid, Persisting None]
      (su_alive s) (pid # su_alive s)"
    using assms(2) by (auto simp: hands_over_def List.map_filter_def)
  ultimately have "good_section (Launching i who) s ([Probing i, Reaping i pid, Persisting None], upd i ?f ?s)"
    by (auto simp: good_section_def)
  then have "good_section (Launching i who) s ([], spawn [Probing i, Reaping i pid, Persisting None] (upd i ?f ?s))"
    using good_section_spawn [of _ s "[Probing i, Reaping i pid, Persisting None]" "[]"] by simp
  then show ?thesis by (simp add: after_launch_def launched_def spawn_def)
qed

lemma launch_cases [case_names failed ok]:
  obtains (failed) e where "launch p nt r i s = (Some e, s)"
    | (ok) pid command where "r = Started pid" "launch p nt r i s = (None, launched i pid command s)"
proof (cases "BuildCommand (in_Spec (su_heap s ! i)) (su_rt s) nt (in_Port (su_heap s ! i))")
  case (Inl e)
  then show ?thesis by (intro failed) (simp add: launch_def)
next
  case (Inr c)
  obtain bin args env where c: "c = (bin, args, env)" by (cases c)
  show ?thesis
  proof (cases "p bin")
    case True
    with Inr c show ?thesis by (cases r) (auto simp: launch_def intro: that)
  next
    case False
    with Inr c show ?thesis by (intro failed) (simp add: launch_def)
  qed
qed

lemma good_launch:
  assumes "state_ok s" "fresh_pid s r"
  shows "good_section (Launching i who) s ([], after_launch i who (launch p nt r i s))"
proof (cases p nt r i s rule: launch_cases)
  case failed
  with good_launch_failed [OF assms(1)] show ?thesis by simp
next
  case ok
  with good_launched [OF assms(1)] assms(2) show ?thesis by (simp add: fresh_pid_def)
qed

lemma good_probe:
  assumes "state_ok s"
  shows "good_section (Probing i) s (probe_round pr i s)"
proof (cases pr)
  case NoAnswer
  with assms show ?thesis
    by (auto simp: probe_round_def state_ok_def Let_def intro!: good_section_same hands_over_quiet)
next
  case (Answers now)
  with assms show ?thesis
    by (auto simp: probe_round_def state_ok_def Let_def keeps_def inst_ok_def
      intro!: good_section_same good_section_upd hands_over_quiet)
next
  case TimesOut
  with assms show ?thesis
    by (auto simp: probe_round_def state_ok_def Let_def intro!: good_section_upd hands_over_quiet)
qed

lemma good_exit:
  assumes "state_ok s" "distinct (su_alive s)" "pid \<in> set (su_alive s)"
  shows "good_section (Reaping i pid) s (reap_exit i pid err s)"
proof -
  let ?f = "\<lambda>x. if in_chan x \<in> set (in_closed x) then x else x\<lparr>in_closed := in_chan x # in_closed x\<rparr>"
  let ?s = "s\<lparr>su_alive := removeAll pid (su_alive s)\<rparr>"
  have "table_ok (upd i ?f ?s)"
    using assms(1) table_ok_upd [of ?f i ?s] table_ok_frame [of ?s s] by (simp add: state_ok_def keeps_def)
  moreover have "\<forall>x \<in> set (su_heap (upd i ?f ?s)). inst_ok (su_MaxRestarts s) x"
    using assms(1) by (intro heap_ok_upd) (auto simp: state_ok_def inst_ok_def)
  moreover have "mset (removeAll pid (su_alive s)) + {#pid#} = mset (su_alive s)"
    using assms(2,3) by (metis distinct_remove1_removeAll insert_DiffM mset_remove1 set_mset_mset
      add_mset_add_single)
  then have "hands_over (Reaping i pid) us (su_alive s) (removeAll pid (su_alive s))"
    if "us = [ReapStopped i] \<or> (\<exists>e. us = [ReapDecide i e])" for us
    using that by (auto simp: hands_over_def List.map_filter_def distinct_removeAll)
  ultimately show ?thesis by (auto simp: good_section_def reap_exit_def)
qed

lemma good_decide:
  assumes "state_ok s" "i < length (su_heap s)"
  shows "good_section (ReapDecide i reason) s (reap_decide ord i reason s)"
proof (cases "in_restarts (su_heap s ! i) \<ge> su_MaxRestarts s")
  case True
  with assms show ?thesis
    by (auto simp: reap_decide_def state_ok_def Let_def intro!: good_section_upd hands_over_quiet)
next
  case False
  let ?f = "\<lambda>x. x\<lparr>in_restarts := in_restarts x + 1, in_state := StateStarting,
              in_errMsg := ''restarting after: '' @ reason, in_chan := Suc (in_chan x)\<rparr>"
  have "inst_ok (su_MaxRestarts s) (?f (su_heap s ! i))"
    using assms False by (force simp: state_ok_def inst_ok_def)
  then have "\<forall>x \<in> set (su_heap (upd i ?f s)). inst_ok (su_MaxRestarts s) x"
    using assms set_update_subset_insert [of "su_heap s" i "?f (su_heap s ! i)"]
    by (force simp: upd_def state_ok_def)
  moreover have "table_ok (upd i ?f s)"
    using assms(1) table_ok_upd [of ?f i s] by (simp add: state_ok_def keeps_def)
  moreover have "hands_over (ReapDecide i reason) [Launching i FromReap] (su_alive s) (su_alive s)"
    by (auto intro!: hands_over_quiet)
  ultimately show ?thesis using False by (auto simp: reap_decide_def good_section_def Let_def)
qed

lemma good_thread_step:
  assumes "state_ok s" "thread_step ord ev t s = Some r"
    and "\<And>i. thread_inst t = Some i \<Longrightarrow> i < length (su_heap s)"
    and "\<And>pid. reaped_pid t = Some pid \<Longrightarrow> pid \<in> set (su_alive s)" "distinct (su_alive s)"
  shows "good_section t s r"
proof (cases t)
  case (Launching i who)
  with assms show ?thesis by (cases ev) (auto intro: good_launch split: if_splits)
next
  case (Probing i)
  with assms show ?thesis by (cases ev) (auto intro: good_probe)
next
  case (Reaping i pid)
  with assms show ?thesis by (cases ev) (auto intro: good_exit)
next
  case (ReapStopped i)
  with assms show ?thesis
    by (cases ev) (auto simp: state_ok_def intro!: good_section_upd hands_over_quiet)
next
  case (ReapDecide i reason)
  with assms show ?thesis by (cases ev) (auto intro: good_decide)
next
  case (StopWaiting i ch remove)
  with assms show ?thesis
    by (cases ev) (auto simp: state_ok_def intro!: good_section_same hands_over_quiet split: if_splits)
next
  case (StopFinish i remove)
  with assms show ?thesis
    by (cases ev) (auto simp: state_ok_def stop_finish_def intro!: good_section_upd hands_over_quiet)
next
  case (RemoveDelete n)
  have "table_ok (s\<lparr>su_instances := AList.delete n (su_instances s)\<rparr>)"
    using assms(1) by (auto simp: state_ok_def table_ok_def AList.delete_eq distinct_map_filter)
  moreover have "hands_over (RemoveDelete n) [Persisting None] (su_alive s) (su_alive s)"
    by (rule hands_over_quiet) auto
  ultimately show ?thesis
    using RemoveDelete assms by (cases ev) (auto simp: good_section_def remove_delete_def state_ok_def)
next
  case (Persisting cont)
  have "table_ok (persist ok s)" for ok
    using assms(1) table_ok_frame [of "persist ok s" s] by (simp add: state_ok_def persist_def)
  moreover have "hands_over (Persisting cont) (case cont of None \<Rightarrow> [] | Some n \<Rightarrow> [RemoveDelete n])
      (su_alive s) (su_alive s)"
    by (rule hands_over_quiet) (auto split: option.splits)
  ultimately show ?thesis
    using Persisting assms by (cases ev) (auto simp: good_section_def persist_def state_ok_def)
qed

lemma sup_inv_stop:
  assumes "sup_inv s" "stop_mark name clear remove s = (e, ts, s')"
  shows "sup_inv (spawn ts s')"
proof (cases "map_of (su_instances s) name")
  case None
  with assms show ?thesis by (simp add: stop_mark_def spawn_def)
next
  case (Some i)
  let ?f = "\<lambda>x. x\<lparr>in_stopping := True, in_desired := (if clear then False else in_desired x)\<rparr>"
  have s': "s' = upd i ?f s" and ts: "ts = [StopWaiting i (in_chan (su_heap s ! i)) remove] \<or> ts = [StopFinish i remove]"
    using assms(2) Some by (auto simp: stop_mark_def split: if_splits)
  have i: "i < length (su_heap s)"
    using assms(1) map_of_SomeD [OF Some] by (auto simp: sup_inv_def table_ok_def)
  have "threads_ok (length (su_heap s)) (su_alive s) (su_threads s @ ts)"
    by (rule threads_ok_spawn [of "length (su_heap s)"])
      (use assms(1) ts i in \<open>auto simp: sup_inv_def List.map_filter_def\<close>)
  moreover have "table_ok (upd i ?f s)"
    using assms(1) table_ok_upd [of ?f i s] by (simp add: sup_inv_def keeps_def)
  moreover have "\<forall>x \<in> set (su_heap (upd i ?f s)). inst_ok (su_MaxRestarts s) x"
    using assms(1) by (intro heap_ok_upd) (auto simp: sup_inv_def inst_ok_def)
  ultimately show ?thesis
    using table_ok_frame [of "spawn ts s'" s'] by (intro sup_invI) (simp_all add: s')
qed

lemma sup_inv_step:
  assumes "sup_inv s" "sup_step ord a s = Some s'"
  shows "sup_inv s'"
proof (cases a)
  case (OpStart free now spec)
  show ?thesis
  proof (cases rule: start_register_cases [of free now spec s])
    case (error e)
    with OpStart assms show ?thesis by simp
  next
    case (registered port)
    let ?s = "s\<lparr>su_heap := su_heap s @ [new_instance spec port now],
        su_instances := AList.update (s_ServedName spec) (length (su_heap s)) (su_instances s)\<rparr>"
    have s': "s' = spawn [Launching (length (su_heap s)) FromStart] ?s"
      using OpStart assms(2) registered(3) by simp
    have "threads_ok (Suc (length (su_heap s))) (su_alive s)
        (su_threads s @ [Launching (length (su_heap s)) FromStart])"
      by (rule threads_ok_spawn [of "length (su_heap s)"])
        (use assms(1) in \<open>auto simp: sup_inv_def List.map_filter_def\<close>)
    moreover have "table_ok s'"
      using table_ok_register [OF _ registered(1,2)] assms(1) table_ok_frame [of s' ?s]
      by (simp add: s' sup_inv_def)
    moreover have "\<forall>x \<in> set (su_heap s'). inst_ok (su_MaxRestarts s') x"
      using assms(1) by (auto simp: s' sup_inv_def inst_ok_def new_instance_def)
    ultimately show ?thesis by (intro sup_invI) (simp_all add: s')
  qed
next
  case (EvLog i line)
  then have s': "s' = upd i (appendLog line) s" using assms(2) by (simp split: if_splits)
  have "\<forall>x \<in> set (su_heap s'). inst_ok (su_MaxRestarts s) x"
    unfolding s' using assms(1) by (intro heap_ok_upd) (auto simp: sup_inv_def appendLog_ok)
  with assms(1) show ?thesis by (simp add: s' sup_inv_def table_ok_upd)
next
  case (Sched k ev)
  then obtain us t where k: "k < length (su_threads s)"
      and r: "thread_step ord ev (su_threads s ! k) (drop_thread k s) = Some (us, t)" and s': "s' = spawn us t"
    using assms(2) by (auto split: if_splits option.splits)
  have mem: "su_threads s ! k \<in> set (su_threads s)" using k by simp
  have "good_section (su_threads s ! k) (drop_thread k s) (us, t)"
  proof (rule good_thread_step [OF _ r])
    show "state_ok (drop_thread k s)"
      using assms(1) table_ok_frame [of "drop_thread k s" s] by (simp add: sup_inv_def state_ok_def)
    show "i < length (su_heap (drop_thread k s))" if "thread_inst (su_threads s ! k) = Some i" for i
      using assms(1) that mem by (auto simp: sup_inv_def threads_ok_def)
    show "pid \<in> set (su_alive (drop_thread k s))" if "reaped_pid (su_threads s ! k) = Some pid" for pid
      using threads_ok_drop(3) [of "length (su_heap s)" "su_alive s" "su_threads s" k] assms(1) k that
      by (auto simp: sup_inv_def dest: arg_cong [where f = set_mset])
    show "distinct (su_alive (drop_thread k s))" using assms(1) by (simp add: sup_inv_def threads_ok_def)
  qed
  from sched_step [OF assms(1) k this] show ?thesis by (simp add: s')
next
  case (OpStop name clear)
  with assms show ?thesis using sup_inv_stop by (auto split: prod.splits)
next
  case (OpRemove name)
  with assms show ?thesis using sup_inv_stop by (auto split: prod.splits)
qed

lemma thread_step_const:
  assumes "thread_step ord ev t s = Some (us, s')"
  shows "su_MaxRestarts s' = su_MaxRestarts s \<and> su_portBase s' = su_portBase s"
proof (cases t)
  case (Launching i who)
  with assms obtain p nt r where s': "s' = after_launch i who (launch p nt r i s)"
    by (cases ev) (auto split: if_splits)
  show ?thesis
    by (cases p nt r i s rule: launch_cases) (auto simp: s' after_launch_def launched_def)
next
  case (Probing i)
  with assms show ?thesis
    by (cases ev) (auto simp: probe_round_def Let_def split: probe.splits if_splits)
next
  case (ReapDecide i reason)
  with assms show ?thesis by (cases ev) (auto simp: reap_decide_def Let_def split: if_splits)
qed (use assms in \<open>cases ev; auto simp: reap_exit_def stop_finish_def remove_delete_def persist_def split: if_splits\<close>)+

lemma sup_step_const:
  assumes "sup_step ord a s = Some s'"
  shows "su_MaxRestarts s' = su_MaxRestarts s \<and> su_portBase s' = su_portBase s"
proof (cases a)
  case (OpStart free now spec)
  then show ?thesis
    using assms by (cases rule: start_register_cases [of free now spec s]) auto
next
  case (Sched k ev)
  then obtain us t where "thread_step ord ev (su_threads s ! k) (drop_thread k s) = Some (us, t)" "s' = spawn us t"
    using assms by (auto split: if_splits option.splits)
  with thread_step_const [of ord ev _ "drop_thread k s" us t] show ?thesis by simp
qed (use assms in \<open>auto simp: stop_mark_def split: if_splits option.splits\<close>)

lemma sup_inv_run:
  "sup_run ord as s = Some s' \<Longrightarrow> sup_inv s \<Longrightarrow>
     sup_inv s' \<and> su_MaxRestarts s' = su_MaxRestarts s \<and> su_portBase s' = su_portBase s"
proof (induction as arbitrary: s)
  case (Cons a as)
  then obtain t where t: "sup_step ord a s = Some t" "sup_run ord as t = Some s'"
    by (auto split: option.splits)
  with Cons.IH [OF t(2) sup_inv_step [OF Cons.prems(2) t(1)]] sup_step_const [OF t(1)] show ?case by simp
qed simp

lemma sup_inv_NewSupervisor: "sup_inv (NewSupervisor rt dir base file)"
  by (simp add: sup_inv_def NewSupervisor_def table_ok_def threads_ok_def List.map_filter_def)

lemma reapers_unique:
  assumes "length (filter (drives i) ts) \<le> 1" "Reaping i p \<in> set ts" "Reaping i q \<in> set ts"
  shows "p = q"
proof (rule ccontr)
  assume "p \<noteq> q"
  have "{Reaping i p, Reaping i q} \<subseteq> set (filter (drives i) ts)" using assms by auto
  then have "card {Reaping i p, Reaping i q} \<le> card (set (filter (drives i) ts))" by (rule card_mono [rotated]) simp
  also have "\<dots> \<le> 1" using card_length [of "filter (drives i) ts"] assms(1) by linarith
  finally show False using \<open>p \<noteq> q\<close> by simp
qed

lemma set_reaped: "set (List.map_filter reaped_pid ts) = {pid. \<exists>i. Reaping i pid \<in> set ts}"
proof -
  have "reaped_pid t = Some pid \<longleftrightarrow> (\<exists>i. t = Reaping i pid)" for t pid by (cases t) auto
  then show ?thesis by (force simp: List.map_filter_def)
qed

text \<open>
  C32: in every execution of the supervisor, whatever the interleaving of operator requests, crashes, probes
  and log output, an instance is restarted at most five times and keeps at most four hundred log
  lines; registered models have distinct names and distinct ports of the node's range; and an
  instance has at most one engine process, which a reaper is waiting for.
\<close>

theorem supervisor_invariant:
  assumes "sup_run ord as (NewSupervisor rt dir base file) = Some s"
  shows "(\<forall>x \<in> set (su_heap s). 0 \<le> in_restarts x \<and> in_restarts x \<le> 5 \<and> length (in_logs x) \<le> 400) \<and>
     distinct (keys_of (su_instances s)) \<and>
     distinct (map (\<lambda>(_, i). in_Port (su_heap s ! i)) (su_instances s)) \<and>
     (\<forall>(n, i) \<in> set (su_instances s). s_ServedName (in_Spec (su_heap s ! i)) = n \<and>
        su_portBase s \<le> in_Port (su_heap s ! i) \<and> in_Port (su_heap s ! i) < su_portBase s + 200) \<and>
     set (su_alive s) = {pid. \<exists>i. Reaping i pid \<in> set (su_threads s)} \<and>
     (\<forall>i p q. Reaping i p \<in> set (su_threads s) \<and> Reaping i q \<in> set (su_threads s) \<longrightarrow> p = q)"
proof -
  have inv: "sup_inv s" and m: "su_MaxRestarts s = 5"
    using sup_inv_run [OF assms sup_inv_NewSupervisor] by (simp_all add: NewSupervisor_def defaultMaxRestarts_def)
  then have heap: "\<forall>x \<in> set (su_heap s). 0 \<le> in_restarts x \<and> in_restarts x \<le> 5 \<and> length (in_logs x) \<le> 400"
    by (auto simp: sup_inv_def inst_ok_def logRingSize_def)
  have table: "distinct (keys_of (su_instances s))"
      "distinct (map (\<lambda>(_, i). in_Port (su_heap s ! i)) (su_instances s))"
      "\<forall>(n, i) \<in> set (su_instances s). s_ServedName (in_Spec (su_heap s ! i)) = n \<and>
        su_portBase s \<le> in_Port (su_heap s ! i) \<and> in_Port (su_heap s ! i) < su_portBase s + 200"
    using inv by (auto simp: sup_inv_def table_ok_def)
  have threads: "set (su_alive s) = {pid. \<exists>i. Reaping i pid \<in> set (su_threads s)}"
      "\<And>i. length (filter (drives i) (su_threads s)) \<le> 1"
    using inv set_reaped [of "su_threads s"] unfolding sup_inv_def threads_ok_def by (metis set_mset_mset, blast)
  from heap table threads(1) reapers_unique [OF threads(2)] show ?thesis by blast
qed

subsection \<open>Coming back after a restart\<close>

text \<open>The specifications to persist, by name.\<close>

lemma desired_names:
  assumes "table_ok s"
  shows "distinct (map s_ServedName (desired_specs s)) \<and> sorted (map s_ServedName (desired_specs s)) \<and>
     (\<forall>x \<in> set (desired_specs s). s_ServedName x \<noteq> []) \<and> length (desired_specs s) \<le> 200"
proof -
  let ?ins = "map (\<lambda>(_, i). su_heap s ! i) (su_instances s)"
  have names: "map (s_ServedName \<circ> in_Spec) ?ins = keys_of (su_instances s)"
    using assms by (auto simp: table_ok_def)
  have "distinct (map (s_ServedName \<circ> in_Spec) (filter in_desired ?ins))"
    using names assms by (metis distinct_map_filter table_ok_def)
  then have d: "distinct (map s_ServedName (map in_Spec (filter in_desired ?ins)))" by simp
  have "length (desired_specs s) \<le> length (su_instances s)"
    using length_filter_le [of in_desired ?ins] by (simp add: desired_specs_def)
  also have "\<dots> = card (set (map (\<lambda>(_, i). in_Port (su_heap s ! i)) (su_instances s)))"
    using assms distinct_card [of "map (\<lambda>(_, i). in_Port (su_heap s ! i)) (su_instances s)"]
    by (simp add: table_ok_def)
  also have "\<dots> \<le> card {su_portBase s..<su_portBase s + 200}"
    using assms by (intro card_mono) (auto simp: table_ok_def)
  finally have "length (desired_specs s) \<le> 200" by simp
  moreover have "\<forall>x \<in> set (desired_specs s). s_ServedName x \<noteq> []"
    using assms by (auto simp: desired_specs_def table_ok_def)
  moreover have "mset (map s_ServedName (desired_specs s)) = mset (map s_ServedName (map in_Spec (filter in_desired ?ins)))"
    unfolding desired_specs_def mset_map by (simp only: mset_sort mset_map)
  then have "distinct (map s_ServedName (desired_specs s))"
    using d mset_eq_imp_distinct_iff by blast
  ultimately show ?thesis by (simp add: desired_specs_def)
qed

definition wanted :: "Supervisor \<Rightarrow> Spec list" where
  "wanted s = map in_Spec (filter in_desired (map (\<lambda>(_, i). su_heap s ! i) (su_instances s)))"

definition entries_ok :: "Supervisor \<Rightarrow> bool" where
  "entries_ok s \<longleftrightarrow> (\<forall>(n, i) \<in> set (su_instances s). i < length (su_heap s))"

lemma wanted_upd:
  assumes "\<And>x. in_Spec (f x) = in_Spec x \<and> in_desired (f x) = in_desired x"
  shows "wanted (upd i f s) = wanted s"
proof -
  have "in_Spec (su_heap (upd i f s) ! j) = in_Spec (su_heap s ! j) \<and>
      in_desired (su_heap (upd i f s) ! j) = in_desired (su_heap s ! j)" for j
  proof (cases "i < length (su_heap s)")
    case True
    with assms show ?thesis by (cases "i = j") (auto simp: upd_def)
  qed (simp add: upd_def list_update_beyond)
  then have "map in_Spec (filter in_desired (map (\<lambda>(_, j). su_heap (upd i f s) ! j) m)) =
      map in_Spec (filter in_desired (map (\<lambda>(_, j). su_heap s ! j) m))" for m
    by (induction m) auto
  from this [of "su_instances s"] show ?thesis by (simp only: wanted_def upd_sel)
qed

lemma AList_update_new: "k \<notin> fst ` set m \<Longrightarrow> AList.update k v m = m @ [(k, v)]"
  by (induction m) auto

lemma allocatePort_available:
  assumes "length (su_instances s) < 200" "free = (\<lambda>_. True)"
  shows "\<exists>p. allocatePort free s = Inr p"
proof -
  let ?used = "map (\<lambda>(_, i). in_Port (su_heap s ! i)) (su_instances s)"
  let ?range = "[su_portBase s..su_portBase s + 199]"
  have "card (set ?used) < card (set ?range)"
    using card_length [of ?used] assms(1) by simp
  then have "\<not> set ?range \<subseteq> set ?used" by (meson card_mono leD finite_set)
  then obtain p where "p \<in> set ?range" "p \<notin> set ?used" by blast
  then have "find (\<lambda>p. p \<notin> set ?used \<and> free p) ?range \<noteq> None"
    using assms(2) by (auto simp: find_None_iff)
  then show ?thesis by (auto simp: allocatePort_def Let_def)
qed

lemma Start_wanted:
  assumes "entries_ok s" "length (su_instances s) < 200" "se_free w = (\<lambda>_. True)"
    and "s_ServedName spec \<noteq> []" "s_ServedName spec \<notin> fst ` set (su_instances s)"
  shows "wanted (snd (Start w spec s)) = wanted s @ [spec] \<and> entries_ok (snd (Start w spec s)) \<and>
     keys_of (su_instances (snd (Start w spec s))) = keys_of (su_instances s) @ [s_ServedName spec]"
proof -
  obtain port where port: "allocatePort (se_free w) s = Inr port"
    using allocatePort_available assms(2,3) by blast
  let ?i = "length (su_heap s)"
  let ?t = "s\<lparr>su_heap := su_heap s @ [new_instance spec port (se_now w)],
      su_instances := su_instances s @ [(s_ServedName spec, ?i)]\<rparr>"
  have "running_state s (s_ServedName spec) = None"
    using assms(5) by (simp add: running_state_def map_of_eq_None_iff [THEN iffD2])
  then have reg: "start_register (se_free w) (se_now w) spec s = (Inr ?i, ?t)"
    using assms(4) port by (simp add: start_register_def AList_update_new [OF assms(5)])
  have old: "map (\<lambda>(_, i). (su_heap s @ [x]) ! i) (su_instances s) = map (\<lambda>(_, i). su_heap s ! i) (su_instances s)"
    for x using assms(1) by (auto simp: entries_ok_def nth_append)
  have t: "wanted ?t = wanted s @ [spec]" "entries_ok ?t"
      "keys_of (su_instances ?t) = keys_of (su_instances s) @ [s_ServedName spec]"
    using assms(1) old
    by (auto simp: wanted_def entries_ok_def) (simp_all only: old, simp_all add: new_instance_def)
  have frame: "wanted u = wanted ?t \<and> entries_ok u \<and> su_instances u = su_instances ?t"
    if "u = upd ?i (setState StateFailed e) ?t \<or> u = persist b (launched ?i pid c ?t)" for u e b pid c
  proof -
    have "wanted (upd ?i (setState StateFailed e) ?t) = wanted ?t"
      by (rule wanted_upd) (simp add: setState_def)
    moreover have "wanted (persist b (launched ?i pid c ?t)) = wanted ?t"
      using wanted_upd [of "\<lambda>x. x\<lparr>in_cmd := Some pid, in_pid := pid, in_command := c, in_stopping := False\<rparr>" ?i
          "?t\<lparr>su_alive := pid # su_alive s\<rparr>"]
      by (simp add: wanted_def persist_def launched_def)
    moreover have "su_instances u = su_instances ?t" "length (su_heap u) = length (su_heap ?t)"
      using that by (auto simp: persist_def launched_def)
    ultimately show ?thesis using that t(2) unfolding entries_ok_def by metis
  qed
  show ?thesis
  proof (cases "se_on_path w" "se_no_transfer w" "se_result w" ?i ?t rule: launch_cases)
    case (failed e)
    then have "snd (Start w spec s) = upd ?i (setState StateFailed e) ?t" by (simp add: Start_def reg)
    with frame t show ?thesis by metis
  next
    case (ok pid command)
    then have "snd (Start w spec s) = persist (se_writable w) (launched ?i pid command ?t)"
      by (simp add: Start_def reg)
    with frame t show ?thesis by metis
  qed
qed

lemma restore_all_wanted:
  assumes "entries_ok s" "length (su_instances s) + length specs \<le> 200" "\<And>n. se_free (w n) = (\<lambda>_. True)"
    and "\<forall>x \<in> set specs. s_ServedName x \<noteq> []"
    and "distinct (keys_of (su_instances s) @ map s_ServedName specs)"
  shows "wanted (restore_all w n specs s) = wanted s @ specs"
  using assms
proof (induction specs arbitrary: n s)
  case (Cons x xs)
  let ?s = "snd (Start (w n) x s)"
  have st: "wanted ?s = wanted s @ [x]" "entries_ok ?s"
      "keys_of (su_instances ?s) = keys_of (su_instances s) @ [s_ServedName x]"
    using Start_wanted [of s "w n" x] Cons.prems by auto
  have "length (su_instances ?s) = Suc (length (su_instances s))"
    using arg_cong [OF st(3), of length] by simp
  with Cons.IH [of ?s "Suc n"] Cons.prems st show ?case by simp
qed simp

text \<open>
  C33: an agent that is restarted brings back exactly the models that were wanted: from any state the
  supervisor can reach, writing the state file, starting a new agent and restoring gives a
  supervisor that wants the same specifications, whether or not their engines launch. A model an
  operator stopped is not among them, one that was only shut down with the agent is.
\<close>

theorem restart_restores:
  assumes "sup_run ord as (NewSupervisor rt dir base file) = Some s" "su_stateDir s \<noteq> []"
    and "\<And>n. se_free (w n) = (\<lambda>_. True)"
  shows "desired_specs (Restore w (NewSupervisor rt' dir' base' (su_file (persist True s)))) = desired_specs s \<and>
     set (desired_specs s) = {in_Spec (su_heap s ! i) |n i. (n, i) \<in> set (su_instances s) \<and> in_desired (su_heap s ! i)}"
proof -
  have inv: "table_ok s"
    using sup_inv_run [OF assms(1) sup_inv_NewSupervisor] by (simp add: sup_inv_def)
  let ?new = "NewSupervisor rt' dir' base' (su_file (persist True s))"
  have on_disk: "su_file ?new = Some (desired_specs s)"
    using assms(2) by (simp add: NewSupervisor_def persist_def)
  have "wanted (restore_all w 0 (desired_specs s) ?new) = wanted ?new @ desired_specs s"
    using desired_names [OF inv] assms(3)
    by (intro restore_all_wanted) (simp_all add: NewSupervisor_def entries_ok_def)
  then have "wanted (Restore w ?new) = desired_specs s"
    by (simp add: Restore_def on_disk) (simp add: wanted_def NewSupervisor_def)
  moreover have "desired_specs t = sort_key s_ServedName (wanted t)" for t
    by (simp add: desired_specs_def wanted_def)
  ultimately have "desired_specs (Restore w ?new) = sort_key s_ServedName (desired_specs s)" by simp
  also have "\<dots> = desired_specs s"
    using desired_names [OF inv] by (simp add: sort_key_id_if_sorted)
  finally show ?thesis by (force simp: desired_specs_def)
qed

subsection \<open>Executions\<close>

definition sample_supervisor :: Supervisor where
  "sample_supervisor = NewSupervisor sample_runtime ''/s'' 0 None"

definition launch_as :: "int \<Rightarrow> event" where
  "launch_as pid = EvLaunch (\<lambda>_. True) False (Started pid)"

text \<open>A model starts, becomes ready and crashes; the supervisor decides to restart it.\<close>

definition crash_run :: "action list" where
  "crash_run = [OpStart (\<lambda>_. True) 1 sample_spec, Sched 0 (launch_as 77), Sched 0 (EvProbe (Answers 5)),
     Sched 0 (EvExit (Some ''exit status 1'')), Sched 2 EvGo]"

definition sample_world :: "nat \<Rightarrow> start_env" where
  "sample_world n = \<lparr>se_free = (\<lambda>_. True), se_now = 0, se_on_path = (\<lambda>_. True), se_no_transfer = False,
     se_result = Started 5, se_writable = True\<rparr>"

lemma crash_run_state:
  "map_option (\<lambda>s. (su_threads s, map in_restarts (su_heap s), map in_desired (su_heap s), su_alive s,
      map (s_ServedName \<circ> in_Spec) (su_heap s), su_instances s, su_stateDir s))
     (sup_run (\<lambda>x. x) crash_run sample_supervisor) =
   Some ([Persisting None, Persisting None, Launching 0 FromReap], [1], [True], [], [''qwen''], [(''qwen'', 0)], ''/s'')"
  by code_simp

theorem supervisor_invariant_witness:
  "case sup_run (\<lambda>x. x) crash_run sample_supervisor of
     Some s \<Rightarrow> su_alive s = [] \<and> map in_restarts (su_heap s) = [1] \<and> (\<forall>x \<in> set (su_heap s). in_restarts x \<le> 5)
   | None \<Rightarrow> False"
proof -
  obtain s where s: "sup_run (\<lambda>x. x) crash_run sample_supervisor = Some s"
      "su_alive s = []" "map in_restarts (su_heap s) = [1]"
    using crash_run_state by (auto simp del: sup_run.simps)
  from supervisor_invariant [OF s(1) [unfolded sample_supervisor_def]] s show ?thesis by simp
qed

theorem restart_restores_witness:
  "case sup_run (\<lambda>x. x) crash_run sample_supervisor of
     Some s \<Rightarrow> map s_ServedName (desired_specs (Restore sample_world
                (NewSupervisor sample_runtime ''/s'' 0 (su_file (persist True s))))) = [''qwen'']
   | None \<Rightarrow> False"
proof -
  obtain s where s: "sup_run (\<lambda>x. x) crash_run sample_supervisor = Some s" "su_stateDir s = ''/s''"
      "map (s_ServedName \<circ> in_Spec) (su_heap s) = [''qwen'']" "su_instances s = [(''qwen'', 0)]"
      "map in_desired (su_heap s) = [True]"
    using crash_run_state by (auto simp del: sup_run.simps)
  obtain x where "su_heap s = [x]" "s_ServedName (in_Spec x) = ''qwen''" "in_desired x"
    using s(3,5) by (cases "su_heap s") auto
  with s have "map s_ServedName (desired_specs s) = [''qwen'']" by (simp add: desired_specs_def)
  moreover have "desired_specs (Restore sample_world
      (NewSupervisor sample_runtime ''/s'' 0 (su_file (persist True s)))) = desired_specs s"
    using restart_restores [OF s(1) [unfolded sample_supervisor_def], of sample_world sample_runtime "''/s''" 0] s(2)
    by (simp add: sample_world_def)
  ultimately show ?thesis using s(1) by simp
qed


text \<open>
  An engine that is not ready in time is given up without being stopped: its instance counts as failed, so
  the same model can be started again, and two processes then serve one name.
\<close>

theorem timeout_leaves_process:
  "\<exists>s. sup_run (\<lambda>x. x) [OpStart (\<lambda>_. True) 1 sample_spec, Sched 0 (launch_as 77), Sched 0 (EvProbe TimesOut),
           OpStart (\<lambda>_. True) 2 sample_spec, Sched 2 (launch_as 78)] sample_supervisor = Some s \<and>
       su_alive s = [78, 77] \<and> keys_of (su_instances s) = [''qwen''] \<and>
       map (s_ServedName \<circ> in_Spec) (su_heap s) = [''qwen'', ''qwen'']"
proof -
  have "map_option (\<lambda>s. (su_alive s, keys_of (su_instances s), map (s_ServedName \<circ> in_Spec) (su_heap s)))
     (sup_run (\<lambda>x. x) [OpStart (\<lambda>_. True) 1 sample_spec, Sched 0 (launch_as 77), Sched 0 (EvProbe TimesOut),
           OpStart (\<lambda>_. True) 2 sample_spec, Sched 2 (launch_as 78)] sample_supervisor) =
     Some ([78, 77], [''qwen''], [''qwen'', ''qwen''])"
    by code_simp
  then show ?thesis by (auto simp del: sup_run.simps)
qed

end
