(* ===== verification/Store_Stats.thy ===== *)
theory Store_Stats
  imports Go_Float Store_Log Store_Accounts
begin

text \<open>
  The statistics of the store (\<^verbatim>\<open>src/internal/store/stats.go\<close>, \<^verbatim>\<open>src/internal/store/usage.go\<close>):
  the rollup of the request log into hourly and daily buckets, the purge of old rows, and the
  queries of the dashboard and of the account pages. A query is the function its SQL denotes on
  the rows of \<^verbatim>\<open>requests\<close> in the order of their ids. What SQLite computes for \<^verbatim>\<open>SUM\<close> and \<^verbatim>\<open>AVG\<close>
  over a \<^verbatim>\<open>REAL\<close> column is the parameter \<open>sql_real\<close>; sums of \<^verbatim>\<open>INTEGER\<close> columns are exact. A
  failing statement is an argument; a failing query, which every reader passes on as its error, is
  not represented.
\<close>

record sql_real =
  sum_real :: "rat list \<Rightarrow> rat"
  avg_real :: "rat list \<Rightarrow> rat"

definition Hour :: int where "Hour = 3600"
definition Day :: int where "Day = 86400"

text \<open>\<^verbatim>\<open>UnixMilli\<close> and \<^verbatim>\<open>Unix\<close> of a time, and the column \<^verbatim>\<open>ts\<close> of a row, which stores the former.\<close>

definition UnixMilli :: "time \<Rightarrow> int" where "UnixMilli t = t div millisecond"
definition Unix :: "time \<Rightarrow> int" where "Unix t = t div second"

abbreviation ts :: "Record \<Rightarrow> int" where "ts r \<equiv> UnixMilli (r_TS r)"

definition bucketOf :: "int \<Rightarrow> int \<Rightarrow> int" where
  "bucketOf bsize t = go_div (go_div t 1000) bsize * bsize"

subsection \<open>Error classes\<close>

definition sqlIsRateLimited :: "Record \<Rightarrow> bool" where
  "sqlIsRateLimited r \<longleftrightarrow> r_Status r = 429"

definition sqlIsUserError :: "Record \<Rightarrow> bool" where
  "sqlIsUserError r \<longleftrightarrow> r_Status r \<in> {400, 403, 413}"

definition sqlIsError :: "Record \<Rightarrow> bool" where
  "sqlIsError r \<longleftrightarrow> r_Status r \<ge> 500 \<or> r_Status r \<in> {401, 402, 404} \<or> (r_Error r \<noteq> [] \<and> r_Status r < 400)"

subsection \<open>Rollups\<close>

record Point =
  pt_Bucket :: int
  pt_Requests :: int
  pt_Errors :: int
  pt_RateLimited :: int
  pt_UserErrors :: int
  pt_PromptTokens :: int
  pt_CompletionTokens :: int
  pt_CachedTokens :: int
  pt_TTFTp50 :: int
  pt_TTFTp95 :: int
  pt_TTFTp99 :: int
  pt_TPSAvg :: rat
  pt_CostUSD :: rat

definition count_rows :: "(Record \<Rightarrow> bool) \<Rightarrow> Record list \<Rightarrow> int" where
  "count_rows P rs = int (length (filter P rs))"

definition sum_rows :: "(Record \<Rightarrow> int) \<Rightarrow> Record list \<Rightarrow> int" where
  "sum_rows f rs = sum_list (map f rs)"

text \<open>\<^verbatim>\<open>AVG(CASE WHEN tps > 0 THEN tps END)\<close> ignores the rows without a rate; over none it is null.\<close>

definition tps_avg :: "sql_real \<Rightarrow> Record list \<Rightarrow> rat" where
  "tps_avg R rs =
     (let vs = filter (\<lambda>v. 0 < v) (map r_TPS rs) in if vs = [] then 0 else avg_real R vs)"

definition cost_sum :: "sql_real \<Rightarrow> Record list \<Rightarrow> rat" where
  "cost_sum R rs = (if rs = [] then 0 else sum_real R (map r_CostUSD rs))"

text \<open>
  The percentile query: the samples ranked in ascending order, and the value of the row whose
  rank is \<^verbatim>\<open>MAX(1, CAST(n*p AS INTEGER))\<close>, or 0 when there is no sample.
\<close>

definition pct_rank :: "rat \<Rightarrow> int \<Rightarrow> int" where
  "pct_rank p n = max 1 (f_trunc (f_mul (f_of_int n) (fl64 p)))"

definition percentile :: "rat \<Rightarrow> int list \<Rightarrow> int" where
  "percentile p xs =
     (let ranked = sort xs; rn = pct_rank p (int (length ranked))
      in if rn \<le> int (length ranked) then ranked ! nat (rn - 1) else 0)"

definition ttft_samples :: "Record list \<Rightarrow> int list" where
  "ttft_samples rs = filter (\<lambda>t. 0 \<le> t) (map r_TTFTMs rs)"

text \<open>One group of the aggregation joined with its percentiles.\<close>

definition agg :: "sql_real \<Rightarrow> int \<Rightarrow> Record list \<Rightarrow> Point" where
  "agg R b rs =
     \<lparr>pt_Bucket = b, pt_Requests = int (length rs), pt_Errors = count_rows sqlIsError rs,
      pt_RateLimited = count_rows sqlIsRateLimited rs, pt_UserErrors = count_rows sqlIsUserError rs,
      pt_PromptTokens = sum_rows r_PromptTokens rs, pt_CompletionTokens = sum_rows r_CompletionTokens rs,
      pt_CachedTokens = sum_rows r_CachedTokens rs,
      pt_TTFTp50 = percentile (50 / 100) (ttft_samples rs),
      pt_TTFTp95 = percentile (95 / 100) (ttft_samples rs),
      pt_TTFTp99 = percentile (99 / 100) (ttft_samples rs),
      pt_TPSAvg = tps_avg R rs, pt_CostUSD = cost_sum R rs\<rparr>"

text \<open>A rollup table has the primary key \<^verbatim>\<open>(bucket, model)\<close>; \<^verbatim>\<open>INSERT OR REPLACE\<close> overwrites the row.\<close>

type_synonym stats_table = "((int \<times> string) \<times> Point) list"

record stats_db =
  sd_requests :: "Record list"
  sd_hourly :: stats_table
  sd_daily :: stats_table

definition group_key :: "int \<Rightarrow> Record \<Rightarrow> int \<times> string" where
  "group_key bsize r = (bucketOf bsize (ts r), r_Model r)"

definition rollup_rows :: "sql_real \<Rightarrow> int \<Rightarrow> time \<Rightarrow> Record list \<Rightarrow> stats_table" where
  "rollup_rows R bsize since rs =
     (let src = filter (\<lambda>r. UnixMilli since \<le> ts r) rs
      in map (\<lambda>k. (k, agg R (fst k) (filter (\<lambda>r. group_key bsize r = k) src)))
           (remdups (map (group_key bsize) src)))"

definition rollupInto ::
  "sql_real \<Rightarrow> int \<Rightarrow> time \<Rightarrow> string option \<Rightarrow> Record list \<Rightarrow> stats_table \<Rightarrow> string option \<times> stats_table" where
  "rollupInto R bsize since fail rs table =
     (case fail of Some e \<Rightarrow> (Some e, table)
      | None \<Rightarrow> (None, fold (\<lambda>(k, p). AList.update k p) (rollup_rows R bsize since rs) table))"

definition Rollup ::
  "sql_real \<Rightarrow> time \<Rightarrow> string option \<Rightarrow> string option \<Rightarrow> stats_db \<Rightarrow> string option \<times> stats_db" where
  "Rollup R since fail_h fail_d s =
     (case rollupInto R Hour since fail_h (sd_requests s) (sd_hourly s) of
        (Some e, _) \<Rightarrow> (Some (''hourly: '' @ e), s)
      | (None, h) \<Rightarrow>
         (case rollupInto R Day since fail_d (sd_requests s) (sd_daily s) of
            (Some e, _) \<Rightarrow> (Some (''daily: '' @ e), s\<lparr>sd_hourly := h\<rparr>)
          | (None, d) \<Rightarrow> (None, s\<lparr>sd_hourly := h, sd_daily := d\<rparr>)))"

definition Purge :: "time \<Rightarrow> string option \<Rightarrow> stats_db \<Rightarrow> (string + int) \<times> stats_db" where
  "Purge olderThan fail s =
     (case fail of Some e \<Rightarrow> (Inl e, s)
      | None \<Rightarrow> (Inr (count_rows (\<lambda>r. ts r < UnixMilli olderThan) (sd_requests s)),
          s\<lparr>sd_requests := filter (\<lambda>r. \<not> ts r < UnixMilli olderThan) (sd_requests s)\<rparr>))"

text \<open>
  The hourly maintenance of the gateway (\<^verbatim>\<open>server.go\<close>, the \<^verbatim>\<open>purge\<close> case of \<^verbatim>\<open>Start\<close>): the
  retention window is rolled up from the cutoff, and only when that succeeds are the older rows
  deleted.
\<close>

definition purge_pass ::
  "sql_real \<Rightarrow> time \<Rightarrow> string option \<Rightarrow> string option \<Rightarrow> string option \<Rightarrow> stats_db \<Rightarrow> stats_db" where
  "purge_pass R cutoff fail_h fail_d fail_p s =
     (case Rollup R cutoff fail_h fail_d s of
        (Some _, s') \<Rightarrow> s'
      | (None, s') \<Rightarrow> snd (Purge cutoff fail_p s'))"

subsection \<open>Time series\<close>

text \<open>\<^verbatim>\<open>SUM(x*requests)/NULLIF(SUM(requests),0)\<close> over integers truncates; null becomes 0.\<close>

definition weighted_int :: "(Point \<Rightarrow> int) \<Rightarrow> Point list \<Rightarrow> int" where
  "weighted_int f ps =
     (let n = sum_list (map pt_Requests ps) in
      if n = 0 then 0 else go_div (sum_list (map (\<lambda>p. f p * pt_Requests p) ps)) n)"

definition weighted_real :: "sql_real \<Rightarrow> (Point \<Rightarrow> rat) \<Rightarrow> Point list \<Rightarrow> rat" where
  "weighted_real R f ps =
     (let n = sum_list (map pt_Requests ps) in
      if n = 0 then 0
      else f_div (sum_real R (map (\<lambda>p. f_mul (f p) (f_of_int (pt_Requests p))) ps)) (f_of_int n))"

definition fold_points :: "sql_real \<Rightarrow> int \<Rightarrow> Point list \<Rightarrow> Point" where
  "fold_points R b ps =
     \<lparr>pt_Bucket = b, pt_Requests = sum_list (map pt_Requests ps), pt_Errors = sum_list (map pt_Errors ps),
      pt_RateLimited = sum_list (map pt_RateLimited ps), pt_UserErrors = sum_list (map pt_UserErrors ps),
      pt_PromptTokens = sum_list (map pt_PromptTokens ps),
      pt_CompletionTokens = sum_list (map pt_CompletionTokens ps),
      pt_CachedTokens = sum_list (map pt_CachedTokens ps),
      pt_TTFTp50 = weighted_int pt_TTFTp50 ps, pt_TTFTp95 = weighted_int pt_TTFTp95 ps,
      pt_TTFTp99 = weighted_int pt_TTFTp99 ps, pt_TPSAvg = weighted_real R pt_TPSAvg ps,
      pt_CostUSD = sum_real R (map pt_CostUSD ps)\<rparr>"

definition Series :: "sql_real \<Rightarrow> stats_table \<Rightarrow> string \<Rightarrow> time \<Rightarrow> time \<Rightarrow> Point list" where
  "Series R table model frm till =
     (let rows = filter (\<lambda>((b, m), _). Unix frm \<le> b \<and> b < Unix till \<and> (model = [] \<or> m = model)) table
      in map (\<lambda>b. fold_points R b (map snd (filter (\<lambda>((b', _), _). b' = b) rows)))
           (sort (remdups (map (fst \<circ> fst) rows))))"

definition SeriesRaw :: "sql_real \<Rightarrow> int \<Rightarrow> string \<Rightarrow> time \<Rightarrow> time \<Rightarrow> Record list \<Rightarrow> Point list" where
  "SeriesRaw R bucketSec model frm till rs =
     (let bsize = (if bucketSec \<le> 0 then Hour else bucketSec);
          src = filter (\<lambda>r. UnixMilli frm \<le> ts r \<and> ts r < UnixMilli till \<and> (model = [] \<or> r_Model r = model)) rs
      in map (\<lambda>b. agg R b (filter (\<lambda>r. bucketOf bsize (ts r) = b) src))
           (sort (remdups (map (\<lambda>r. bucketOf bsize (ts r)) src))))"

text \<open>
  \<^verbatim>\<open>ModelStat\<close> embeds a \<^verbatim>\<open>Point\<close> whose bucket the per-model queries leave at 0. Their \<^verbatim>\<open>ORDER BY\<close>
  does not order groups of equal size; \<open>ord\<close> is the order in which SQLite delivers the groups.
\<close>

record ModelStat =
  ms_Model :: string
  ms_Point :: Point

definition by_requests :: "(ModelStat list \<Rightarrow> ModelStat list) \<Rightarrow> ModelStat list \<Rightarrow> ModelStat list" where
  "by_requests ord ms = sort_key (\<lambda>m. - pt_Requests (ms_Point m)) (ord ms)"

definition ByModel ::
  "sql_real \<Rightarrow> (ModelStat list \<Rightarrow> ModelStat list) \<Rightarrow> stats_table \<Rightarrow> time \<Rightarrow> time \<Rightarrow> ModelStat list" where
  "ByModel R ord table frm till =
     (let rows = filter (\<lambda>((b, _), _). Unix frm \<le> b \<and> b < Unix till) table
      in by_requests ord
           (map (\<lambda>m. \<lparr>ms_Model = m, ms_Point = fold_points R 0 (map snd (filter (\<lambda>((_, m'), _). m' = m) rows))\<rparr>)
              (remdups (map (snd \<circ> fst) rows))))"

definition ByModelRaw ::
  "sql_real \<Rightarrow> (ModelStat list \<Rightarrow> ModelStat list) \<Rightarrow> time \<Rightarrow> time \<Rightarrow> Record list \<Rightarrow> ModelStat list" where
  "ByModelRaw R ord frm till rs =
     (let src = filter (\<lambda>r. UnixMilli frm \<le> ts r \<and> ts r < UnixMilli till) rs;
          stat = (\<lambda>m. let g = filter (\<lambda>r. r_Model r = m) src; vs = ttft_samples g in
            \<lparr>ms_Model = m,
             ms_Point = (agg R 0 g)\<lparr>
               pt_TTFTp50 := (if vs = [] then 0 else f_trunc (avg_real R (map of_int vs))),
               pt_TTFTp95 := 0, pt_TTFTp99 := 0\<rparr>\<rparr>)
      in by_requests ord (map stat (remdups (map r_Model src))))"

subsection \<open>Request log and totals\<close>

record RecentRequest =
  rr_TS :: int
  rr_RequestID :: string
  rr_Model :: string
  rr_Backend :: string
  rr_Status :: int
  rr_Streamed :: bool
  rr_PromptTok :: int
  rr_CompTok :: int
  rr_TTFTMs :: int
  rr_TotalMs :: int
  rr_TPS :: rat
  rr_CostUSD :: rat
  rr_Error :: string

definition recent_row :: "Record \<Rightarrow> RecentRequest" where
  "recent_row r =
     \<lparr>rr_TS = ts r, rr_RequestID = r_RequestID r, rr_Model = r_Model r, rr_Backend = r_Backend r,
      rr_Status = r_Status r, rr_Streamed = r_Streamed r, rr_PromptTok = r_PromptTokens r,
      rr_CompTok = r_CompletionTokens r, rr_TTFTMs = r_TTFTMs r, rr_TotalMs = r_TotalMs r,
      rr_TPS = r_TPS r, rr_CostUSD = r_CostUSD r, rr_Error = r_Error r\<rparr>"

definition row_limit :: "int \<Rightarrow> nat" where
  "row_limit limit = (if limit \<le> 0 \<or> limit > 500 then 100 else nat limit)"

definition Recent :: "int \<Rightarrow> string \<Rightarrow> Record list \<Rightarrow> RecentRequest list" where
  "Recent limit model rs =
     map recent_row (take (row_limit limit) (rev (filter (\<lambda>r. model = [] \<or> r_Model r = model) rs)))"

record Totals =
  to_Requests :: int
  to_Errors :: int
  to_RateLimited :: int
  to_UserErrors :: int
  to_PromptTok :: int
  to_CompTok :: int
  to_CachedTok :: int
  to_TTFTp50 :: int
  to_TTFTp95 :: int
  to_TTFTp99 :: int
  to_TPSAvg :: rat
  to_CostUSD :: rat
  to_Uptime :: rat

definition ttftPercentiles :: "time \<Rightarrow> time \<Rightarrow> Record list \<Rightarrow> int \<times> int \<times> int" where
  "ttftPercentiles frm till rs =
     (let xs = ttft_samples (filter (\<lambda>r. UnixMilli frm \<le> ts r \<and> ts r < UnixMilli till) rs)
      in (percentile (50 / 100) xs, percentile (95 / 100) xs, percentile (99 / 100) xs))"

definition uptime :: "int \<Rightarrow> int \<Rightarrow> int \<Rightarrow> rat" where
  "uptime requests userErrors errors =
     (let denom = requests - userErrors in
      if requests < 100 then -1
      else if denom \<le> 0 then 1
      else f_div (f_of_int (denom - errors)) (f_of_int denom))"

definition store_Totals :: "sql_real \<Rightarrow> time \<Rightarrow> time \<Rightarrow> Record list \<Rightarrow> Totals" where
  "store_Totals R frm till rs =
     (let src = filter (\<lambda>r. UnixMilli frm \<le> ts r \<and> ts r < UnixMilli till) rs;
          (p50, p95, p99) = ttftPercentiles frm till rs;
          errs = count_rows sqlIsError src; ue = count_rows sqlIsUserError src
      in \<lparr>to_Requests = int (length src), to_Errors = errs,
          to_RateLimited = count_rows sqlIsRateLimited src, to_UserErrors = ue,
          to_PromptTok = sum_rows r_PromptTokens src, to_CompTok = sum_rows r_CompletionTokens src,
          to_CachedTok = sum_rows r_CachedTokens src, to_TTFTp50 = p50, to_TTFTp95 = p95, to_TTFTp99 = p99,
          to_TPSAvg = tps_avg R src, to_CostUSD = cost_sum R src,
          to_Uptime = uptime (int (length src)) ue errs\<rparr>)"

subsection \<open>Usage of one account\<close>

record Usage =
  us_Requests :: int
  us_Errors :: int
  us_PromptTok :: int
  us_CompTok :: int
  us_CachedTok :: int
  us_CostUSD :: rat
  us_TPSAvg :: rat

record UsageByModel =
  um_Model :: string
  um_Requests :: int
  um_PromptTok :: int
  um_CompTok :: int
  um_CachedTok :: int
  um_CostUSD :: rat
  um_TPSAvg :: rat
  um_LastUsed :: int

text \<open>\<^verbatim>\<open>requests r JOIN api_keys k ON k.id = r.api_key_id WHERE k.user_id = ?\<close>: one row per matching key.\<close>

definition rows_of_user :: "int \<Rightarrow> key_row list \<Rightarrow> Record list \<Rightarrow> Record list" where
  "rows_of_user uid keys rs =
     concat (map (\<lambda>r. map (\<lambda>_. r) (filter (\<lambda>k. kr_id k = r_APIKeyID r \<and> kr_user_id k = uid) keys)) rs)"

definition usage_rows :: "int \<Rightarrow> time \<Rightarrow> time \<Rightarrow> key_row list \<Rightarrow> Record list \<Rightarrow> Record list" where
  "usage_rows uid frm till keys rs =
     filter (\<lambda>r. UnixMilli frm \<le> ts r \<and> ts r < UnixMilli till) (rows_of_user uid keys rs)"

definition UsageFor :: "sql_real \<Rightarrow> int \<Rightarrow> time \<Rightarrow> time \<Rightarrow> key_row list \<Rightarrow> Record list \<Rightarrow> Usage" where
  "UsageFor R uid frm till keys rs =
     (let src = usage_rows uid frm till keys rs in
      \<lparr>us_Requests = int (length src), us_Errors = count_rows (\<lambda>r. r_Status r \<ge> 400) src,
       us_PromptTok = sum_rows r_PromptTokens src, us_CompTok = sum_rows r_CompletionTokens src,
       us_CachedTok = sum_rows r_CachedTokens src, us_CostUSD = cost_sum R src, us_TPSAvg = tps_avg R src\<rparr>)"

definition UsageByModelFor ::
  "sql_real \<Rightarrow> (UsageByModel list \<Rightarrow> UsageByModel list) \<Rightarrow> int \<Rightarrow> time \<Rightarrow> time \<Rightarrow> key_row list \<Rightarrow> Record list \<Rightarrow> UsageByModel list" where
  "UsageByModelFor R ord uid frm till keys rs =
     (let src = usage_rows uid frm till keys rs;
          stat = (\<lambda>m. let g = filter (\<lambda>r. r_Model r = m) src in
            \<lparr>um_Model = m, um_Requests = int (length g), um_PromptTok = sum_rows r_PromptTokens g,
             um_CompTok = sum_rows r_CompletionTokens g, um_CachedTok = sum_rows r_CachedTokens g,
             um_CostUSD = cost_sum R g, um_TPSAvg = tps_avg R g, um_LastUsed = Max (set (map ts g))\<rparr>)
      in sort_key (\<lambda>u. - um_Requests u) (ord (map stat (remdups (map r_Model src)))))"

text \<open>
  \<^verbatim>\<open>RecentFor\<close> does not select the backend, and orders by time: \<open>ord\<close> is the order in which rows of
  the same millisecond arrive.
\<close>

definition RecentFor ::
  "(Record list \<Rightarrow> Record list) \<Rightarrow> int \<Rightarrow> int \<Rightarrow> key_row list \<Rightarrow> Record list \<Rightarrow> RecentRequest list" where
  "RecentFor ord uid limit keys rs =
     map (\<lambda>r. (recent_row r)\<lparr>rr_Backend := []\<rparr>)
       (take (row_limit limit) (sort_key (\<lambda>r. - ts r) (ord (rows_of_user uid keys rs))))"


subsection \<open>Buckets\<close>

definition bucket_rows :: "int \<Rightarrow> int \<Rightarrow> string \<Rightarrow> Record list \<Rightarrow> Record list" where
  "bucket_rows bsize b m rs = filter (\<lambda>r. group_key bsize r = (b, m)) rs"

lemma bucketOf_nonneg: "0 \<le> t \<Longrightarrow> 0 < bsize \<Longrightarrow> bucketOf bsize t = t div 1000 div bsize * bsize"
  by (simp add: bucketOf_def pos_imp_zdiv_nonneg_iff)

lemma le_floor_iff:
  fixes k x d :: int
  assumes "0 < d"
  shows "k \<le> x div d \<longleftrightarrow> k * d \<le> x"
proof
  assume "k \<le> x div d"
  then have "k * d \<le> x div d * d" using assms by (simp add: mult_right_mono)
  also have "\<dots> \<le> x" using pos_mod_sign [OF assms, of x]
    by (simp add: minus_mod_eq_div_mult [symmetric])
  finally show "k * d \<le> x" .
next
  assume "k * d \<le> x"
  then show "k \<le> x div d" using zdiv_mono1 [of "k * d" x d] assms by simp
qed

lemma multiple_le_floor:
  fixes c x d :: int
  assumes "0 < d" and "d dvd c"
  shows "c \<le> x div d * d \<longleftrightarrow> c \<le> x"
proof -
  obtain k where k: "c = d * k" using assms(2) by (auto simp: dvd_def)
  have "c \<le> x div d * d \<longleftrightarrow> k \<le> x div d" using assms(1) by (simp add: k mult.commute)
  also have "\<dots> \<longleftrightarrow> k * d \<le> x" using assms(1) by (simp add: le_floor_iff)
  finally show ?thesis by (simp add: k mult.commute)
qed

lemma bucketOf_ge_iff:
  assumes "0 \<le> t" and "0 < bsize" and "bsize dvd c"
  shows "c \<le> bucketOf bsize t \<longleftrightarrow> c * 1000 \<le> t"
proof -
  have "c \<le> bucketOf bsize t \<longleftrightarrow> c \<le> t div 1000"
    using multiple_le_floor [OF assms(2,3)] assms by (simp add: bucketOf_nonneg)
  also have "\<dots> \<longleftrightarrow> c * 1000 \<le> t" by (simp add: le_floor_iff)
  finally show ?thesis .
qed

lemma bucketOf_dvd: "bsize dvd bucketOf bsize t"
  by (simp add: bucketOf_def)

lemma sizes_pos [simp]: "0 < Hour" "0 < Day" and Hour_dvd_Day: "Hour dvd Day"
  by (simp_all add: Hour_def Day_def)

subsection \<open>Rollups\<close>

lemma map_of_upserts:
  "map_of (fold (\<lambda>(k, p). AList.update k p) rows t) k =
     (case map_of (rev rows) k of Some p \<Rightarrow> Some p | None \<Rightarrow> map_of t k)"
  by (induction rows arbitrary: t) (auto simp: map_add_def split: option.splits)

lemma map_of_rev_graph:
  assumes "distinct ks"
  shows "map_of (rev (map (\<lambda>k. (k, f k)) ks)) k = (if k \<in> set ks then Some (f k) else None)"
  by (simp add: rev_map map_of_map_restrict)

lemma map_of_rollup:
  "map_of (snd (rollupInto R bsize since None rs table)) (b, m) =
     (let g = filter (\<lambda>r. UnixMilli since \<le> ts r) (bucket_rows bsize b m rs)
      in if g = [] then map_of table (b, m) else Some (agg R b g))"
proof -
  let ?src = "filter (\<lambda>r. UnixMilli since \<le> ts r) rs"
  let ?g = "filter (\<lambda>r. UnixMilli since \<le> ts r) (bucket_rows bsize b m rs)"
  have g: "filter (\<lambda>r. group_key bsize r = (b, m)) ?src = ?g"
    by (simp add: bucket_rows_def conj_commute)
  have "(b, m) \<in> set (remdups (map (group_key bsize) ?src)) \<longleftrightarrow> ?g \<noteq> []"
    by (auto simp: g [symmetric] filter_empty_conv image_iff)
  then show ?thesis
    by (simp add: rollupInto_def rollup_rows_def Let_def map_of_upserts map_of_rev_graph
      g [simplified filter_filter])
qed

lemma map_of_rollup_aligned:
  assumes "\<forall>r \<in> set rs. 0 \<le> ts r" and "0 < bsize" and "bsize dvd c" and "UnixMilli since = c * 1000"
  shows "map_of (snd (rollupInto R bsize since None rs table)) (b, m) =
     (if c \<le> b \<and> bucket_rows bsize b m rs \<noteq> [] then Some (agg R b (bucket_rows bsize b m rs))
      else map_of table (b, m))"
proof -
  have "UnixMilli since \<le> ts r \<longleftrightarrow> c \<le> b" if "r \<in> set (bucket_rows bsize b m rs)" for r
  proof -
    from that have "r \<in> set rs" and b: "b = bucketOf bsize (ts r)"
      by (auto simp: bucket_rows_def group_key_def)
    with assms show ?thesis using bucketOf_ge_iff [of "ts r" bsize c] by simp
  qed
  then have "filter (\<lambda>r. UnixMilli since \<le> ts r) (bucket_rows bsize b m rs) =
      (if c \<le> b then bucket_rows bsize b m rs else [])"
    by (auto simp: filter_id_conv filter_empty_conv)
  then show ?thesis by (simp add: map_of_rollup Let_def)
qed

lemma Rollup_ok:
  "Rollup R since None None s =
     (None, s\<lparr>sd_hourly := snd (rollupInto R Hour since None (sd_requests s) (sd_hourly s)),
              sd_daily := snd (rollupInto R Day since None (sd_requests s) (sd_daily s))\<rparr>)"
  by (simp add: Rollup_def rollupInto_def)

text \<open>
  C35: A rollup that starts at the beginning of a day makes both tables exact: every bucket from
  there on that has requests holds the aggregate of all of its requests, every other row is what it
  was, and running the rollup again changes nothing.
\<close>

theorem Rollup_exact:
  assumes "\<forall>r \<in> set (sd_requests s). 0 \<le> ts r"
    and "UnixMilli since = c * 1000" and "Day dvd c"
    and "Rollup R since None None s = (e, s')"
  shows "e = None \<and> sd_requests s' = sd_requests s
    \<and> map_of (sd_hourly s') (b, m) =
        (if c \<le> b \<and> bucket_rows Hour b m (sd_requests s) \<noteq> []
         then Some (agg R b (bucket_rows Hour b m (sd_requests s))) else map_of (sd_hourly s) (b, m))
    \<and> map_of (sd_daily s') (b, m) =
        (if c \<le> b \<and> bucket_rows Day b m (sd_requests s) \<noteq> []
         then Some (agg R b (bucket_rows Day b m (sd_requests s))) else map_of (sd_daily s) (b, m))
    \<and> map_of (sd_hourly (snd (Rollup R since None None s'))) = map_of (sd_hourly s')
    \<and> map_of (sd_daily (snd (Rollup R since None None s'))) = map_of (sd_daily s')"
proof -
  have h: "Hour dvd c" using Hour_dvd_Day assms(3) by (rule dvd_trans)
  from assms(4) have s': "e = None" "s' = snd (Rollup R since None None s)" by (auto simp: Rollup_ok)
  note hourly = map_of_rollup_aligned [OF assms(1) sizes_pos(1) h assms(2)]
  note daily = map_of_rollup_aligned [OF assms(1) sizes_pos(2) assms(3,2)]
  show ?thesis by (simp add: s' Rollup_ok hourly daily fun_eq_iff)
qed

text \<open>
  C36: A purge rolls up from its cutoff and not from the beginning of the bucket the cutoff falls
  into, so it replaces that bucket's aggregate by one over the surviving rows alone, and then
  deletes the others: whenever the bucket has requests on both sides of the cutoff, its count is
  lower than the number of requests the table held, and the missing ones are gone from the log.
\<close>

theorem purge_pass_undercounts:
  assumes "old \<in> set (sd_requests s)" and "ts old < UnixMilli cutoff"
    and "kept \<in> set (sd_requests s)" and "UnixMilli cutoff \<le> ts kept"
    and "group_key Hour old = (b, m)" and "group_key Hour kept = (b, m)"
  shows "\<exists>p. map_of (sd_hourly (purge_pass R cutoff None None None s)) (b, m) = Some p
    \<and> pt_Requests p < int (length (bucket_rows Hour b m (sd_requests s)))
    \<and> old \<notin> set (sd_requests (purge_pass R cutoff None None None s))"
proof -
  let ?rows = "bucket_rows Hour b m (sd_requests s)"
  let ?g = "filter (\<lambda>r. UnixMilli cutoff \<le> ts r) ?rows"
  have "kept \<in> set ?g" and old: "old \<in> set ?rows" using assms by (auto simp: bucket_rows_def)
  then have "?g \<noteq> []" by (metis empty_iff empty_set)
  moreover have "length ?g < length ?rows"
    using old assms(2) by (intro length_filter_less) auto
  ultimately show ?thesis
    using assms(2)
    by (simp add: purge_pass_def Rollup_ok Purge_def map_of_rollup Let_def agg_def)
qed


subsection \<open>Time series\<close>

lemma go_div_mult: "0 < n \<Longrightarrow> go_div (a * n) n = a"
proof (cases "0 \<le> a")
  case False
  moreover assume "0 < n"
  ultimately have "a * n < 0" by (simp add: mult_neg_pos)
  then have "go_div (a * n) n = - ((- a) * n div n)" using \<open>0 < n\<close> by (simp add: go_div_def)
  then show ?thesis using \<open>0 < n\<close> nonzero_mult_div_cancel_right [of n "- a"] by simp
qed simp

lemma sum_list_groups:
  fixes f :: "'a \<Rightarrow> int"
  assumes "distinct ks" and "set (map key xs) \<subseteq> set ks"
  shows "(\<Sum>k\<leftarrow>ks. sum_list (map f (filter (\<lambda>x. key x = k) xs))) = sum_list (map f xs)"
  using assms(2)
proof (induction xs)
  case (Cons x xs)
  have "(\<Sum>k\<leftarrow>ks. sum_list (map f (filter (\<lambda>y. key y = k) (x # xs)))) =
      (\<Sum>k\<leftarrow>ks. (if key x = k then f x else 0) + sum_list (map f (filter (\<lambda>y. key y = k) xs)))"
    by (intro arg_cong [where f = sum_list] map_cong) auto
  also have "\<dots> = (\<Sum>k\<leftarrow>ks. if key x = k then f x else 0) + sum_list (map f xs)"
    using Cons by (simp add: sum_list_addf)
  also have "(\<Sum>k\<leftarrow>ks. if key x = k then f x else 0) = f x"
    using Cons.prems assms(1) by (simp add: sum_list_distinct_conv_sum_set sum.delta')
  finally show ?case by simp
qed simp

lemma count_rows_sum: "count_rows P rs = sum_list (map (\<lambda>r. if P r then 1 else 0) rs)"
  by (induction rs) (auto simp: count_rows_def)

lemma length_sum: "int (length rs) = sum_list (map (\<lambda>_. 1) rs)"
  by (induction rs) auto

lemmas agg_counts = agg_def count_rows_sum length_sum sum_rows_def

text \<open>The counts of a point, whose sums over a series are the totals of the window.\<close>

definition point_counts :: "(Point \<Rightarrow> int) list" where
  "point_counts = [pt_Requests, pt_Errors, pt_RateLimited, pt_UserErrors, pt_PromptTokens,
     pt_CompletionTokens, pt_CachedTokens]"

definition totals_counts :: "(Totals \<Rightarrow> int) list" where
  "totals_counts = [to_Requests, to_Errors, to_RateLimited, to_UserErrors, to_PromptTok, to_CompTok,
     to_CachedTok]"

lemma series_group:
  fixes f :: "Point \<Rightarrow> int"
  assumes "\<And>b rs. f (agg R b rs) = sum_list (map g rs)"
  shows "sum_list (map f (SeriesRaw R n [] frm till rs)) =
    sum_list (map g (filter (\<lambda>r. UnixMilli frm \<le> ts r \<and> ts r < UnixMilli till) rs))"
proof -
  define bsize where "bsize = (if n \<le> 0 then Hour else n)"
  define src where "src = filter (\<lambda>r. UnixMilli frm \<le> ts r \<and> ts r < UnixMilli till) rs"
  have "SeriesRaw R n [] frm till rs = map (\<lambda>b. agg R b (filter (\<lambda>r. bucketOf bsize (ts r) = b) src))
      (sort (remdups (map (\<lambda>r. bucketOf bsize (ts r)) src)))"
    by (simp add: SeriesRaw_def Let_def bsize_def src_def)
  then show ?thesis
    using sum_list_groups [of "sort (remdups (map (\<lambda>r. bucketOf bsize (ts r)) src))"
      "\<lambda>r. bucketOf bsize (ts r)" src g]
    by (simp add: assms comp_def src_def [symmetric])
qed

text \<open>
  The points of a series partition the requests of the window: summed over the series, every
  count equals the corresponding figure of the window's totals, for every bucket size.
\<close>

theorem SeriesRaw_Totals:
  "map (\<lambda>f. sum_list (map f (SeriesRaw R n [] frm till rs))) point_counts =
   map (\<lambda>f. f (store_Totals R frm till rs)) totals_counts"
proof -
  note sums = series_group [where R = R and n = n and frm = frm and till = till and rs = rs]
  show ?thesis
    unfolding point_counts_def totals_counts_def
    by (simp add: sums [where g = "\<lambda>_. 1"] sums [where g = "\<lambda>r. if sqlIsError r then 1 else 0"]
      sums [where g = "\<lambda>r. if sqlIsRateLimited r then 1 else 0"]
      sums [where g = "\<lambda>r. if sqlIsUserError r then 1 else 0"]
      sums [where g = r_PromptTokens] sums [where g = r_CompletionTokens] sums [where g = r_CachedTokens]
      agg_counts store_Totals_def Let_def split: prod.splits)
qed


lemma filter_key_lookup:
  assumes "distinct (map fst t)"
  shows "filter (\<lambda>((b', m'), _). b' = b \<and> m' = m) t =
    (case map_of t (b, m) of None \<Rightarrow> [] | Some p \<Rightarrow> [((b, m), p)])"
  using assms
proof (induction t)
  case (Cons e t)
  obtain b' m' p where e: "e = ((b', m'), p)" by (metis surj_pair)
  show ?case
  proof (cases "(b', m') = (b, m)")
    case True
    with Cons.prems have "map_of t (b, m) = None" by (auto simp: e map_of_eq_None_iff)
    with True Cons show ?thesis by (simp add: e)
  next
    case False
    then have "\<not> (b' = b \<and> m' = m)" by simp
    with Cons show ?thesis by (auto simp: e)
  qed
qed simp

lemma distinct_upserts:
  "distinct (map fst t) \<Longrightarrow> distinct (map fst (fold (\<lambda>(k, p). AList.update k p) rows t))"
  by (induction rows arbitrary: t) auto

definition point_ints :: "Point \<Rightarrow> Point" where
  "point_ints p = p\<lparr>pt_TPSAvg := 0, pt_CostUSD := 0\<rparr>"

lemma fold_points_single:
  assumes "rs \<noteq> []"
  shows "point_ints (fold_points R b [agg R b rs]) = point_ints (agg R b rs)"
proof -
  have "0 < int (length rs)" using assms by simp
  then show ?thesis
    using go_div_mult [OF \<open>0 < int (length rs)\<close>] assms
    by (simp add: point_ints_def fold_points_def weighted_int_def Let_def agg_def)
qed

lemma window_bucket:
  assumes "\<forall>r \<in> set rs. 0 \<le> ts r" and "Hour dvd f" and "Hour dvd g"
  shows "filter (\<lambda>r. bucketOf Hour (ts r) = b)
      (filter (\<lambda>r. f * 1000 \<le> ts r \<and> ts r < g * 1000 \<and> r_Model r = m) rs) =
    (if f \<le> b \<and> b < g then bucket_rows Hour b m rs else [])"
proof -
  have "f * 1000 \<le> ts r \<and> ts r < g * 1000 \<longleftrightarrow> f \<le> bucketOf Hour (ts r) \<and> bucketOf Hour (ts r) < g"
    if "r \<in> set rs" for r
    using that assms(1) bucketOf_ge_iff [OF _ sizes_pos(1) assms(2), of "ts r"]
      bucketOf_ge_iff [OF _ sizes_pos(1) assms(3), of "ts r"]
    by (metis not_le)
  then show ?thesis
    by (auto simp: bucket_rows_def group_key_def filter_empty_conv intro!: filter_cong)
qed

text \<open>A table that is exact from the second \<open>c\<close> on.\<close>

definition rolled :: "sql_real \<Rightarrow> int \<Rightarrow> Record list \<Rightarrow> stats_table \<Rightarrow> bool" where
  "rolled R c rs h \<longleftrightarrow> distinct (map fst h) \<and>
     (\<forall>b m. c \<le> b \<longrightarrow> map_of h (b, m) =
        (if bucket_rows Hour b m rs \<noteq> [] then Some (agg R b (bucket_rows Hour b m rs)) else None))"

lemma Rollup_rolled:
  assumes "\<forall>r \<in> set (sd_requests s). 0 \<le> ts r"
    and "UnixMilli since = c * 1000" and "Day dvd c"
    and "distinct (map fst (sd_hourly s))"
    and "\<forall>(b, m) \<in> fst ` set (sd_hourly s). c \<le> b \<longrightarrow> bucket_rows Hour b m (sd_requests s) \<noteq> []"
  shows "rolled R c (sd_requests s) (sd_hourly (snd (Rollup R since None None s)))"
proof -
  let ?rs = "sd_requests s"
  let ?h = "snd (rollupInto R Hour since None ?rs (sd_hourly s))"
  have h: "Hour dvd c" using Hour_dvd_Day assms(3) by (rule dvd_trans)
  have "map_of ?h (b, m) = (if bucket_rows Hour b m ?rs \<noteq> [] then Some (agg R b (bucket_rows Hour b m ?rs)) else None)"
    if "c \<le> b" for b m
  proof -
    have "map_of (sd_hourly s) (b, m) = None" if "bucket_rows Hour b m ?rs = []"
      using assms(5) that \<open>c \<le> b\<close> by (force simp: map_of_eq_None_iff)
    then show ?thesis
      using \<open>c \<le> b\<close> by (auto simp: map_of_rollup_aligned [OF assms(1) sizes_pos(1) h assms(2)])
  qed
  moreover have "distinct (map fst ?h)" using assms(4) by (simp add: rollupInto_def distinct_upserts)
  ultimately show ?thesis by (simp add: rolled_def Rollup_ok)
qed

lemma rolled_bucket:
  assumes "rolled R c rs h" and "c \<le> f"
  shows "filter (\<lambda>((b', _), _). b' = b) (filter (\<lambda>((b, m), _). f \<le> b \<and> b < g \<and> m = model) h) =
    (if f \<le> b \<and> b < g \<and> bucket_rows Hour b model rs \<noteq> []
     then [((b, model), agg R b (bucket_rows Hour b model rs))] else [])"
proof -
  have "filter (\<lambda>((b', _), _). b' = b) (filter (\<lambda>((b, m), _). f \<le> b \<and> b < g \<and> m = model) h) =
      (if f \<le> b \<and> b < g then filter (\<lambda>((b', m'), _). b' = b \<and> m' = model) h else [])"
    unfolding filter_filter by (auto simp: filter_empty_conv intro!: filter_cong)
  then show ?thesis
    using assms by (simp add: rolled_def filter_key_lookup)
qed

lemma sort_remdups_cong:
  assumes "\<And>b. b \<in> set xs \<longleftrightarrow> b \<in> set ys"
  shows "sort (remdups xs) = sort (remdups ys)"
proof -
  have "set xs = set ys" using assms by blast
  then show ?thesis by (metis sorted_list_of_set_sort_remdups)
qed


subsection \<open>Totals\<close>

lemma errors_disjoint: "count_rows sqlIsError rs + count_rows sqlIsUserError rs \<le> int (length rs)"
  by (induction rs) (auto simp: count_rows_def sqlIsError_def sqlIsUserError_def)

lemma count_rows_nonneg: "0 \<le> count_rows P rs"
  by (simp add: count_rows_def)

lemma ratio_fl64:
  assumes "0 \<le> k" and "k \<le> d" and "0 < d" and "d \<le> 2 ^ 53"
  shows "0 \<le> f_div (f_of_int k) (f_of_int d) \<and> f_div (f_of_int k) (f_of_int d) \<le> 1
    \<and> (f_div (f_of_int k) (f_of_int d) = 1 \<longleftrightarrow> k = d)"
proof -
  have e: "f_div (f_of_int k) (f_of_int d) = fl64 (of_int k / of_int d)"
    using assms by (simp add: f_div_def f_of_int_def fl64_of_int)
  have one: "fl64 1 = 1" using fl64_of_int [of 1] by simp
  have "of_int k / of_int d \<le> (1 :: rat)" using assms by simp
  then have le: "fl64 (of_int k / of_int d) \<le> 1" using fl64_mono [of _ 1] one by metis
  have ge: "0 \<le> fl64 (of_int k / of_int d)" using assms fl64_mono [of 0 "of_int k / of_int d"] by (simp add: fl64_0)
  have "fl64 (of_int k / of_int d) < 1" if "k < d"
  proof -
    let ?u = "of_int (2 ^ 53 - 1) * pow2 (-53)"
    have u: "?u = 1 - 1 / 2 ^ 53" by (simp add: pow2_def field_simps)
    have "of_int k / of_int d \<le> (of_int (d - 1) / of_int d :: rat)"
      using that assms by (intro divide_right_mono) auto
    also have "\<dots> = 1 - 1 / of_int d" using assms by (simp add: field_simps)
    also have "\<dots> \<le> 1 - 1 / 2 ^ 53"
    proof -
      have "(of_int d :: rat) \<le> of_int (2 ^ 53)" using assms(4) by (simp only: of_int_le_iff)
      then have "1 / 2 ^ 53 \<le> (1 / of_int d :: rat)" using assms(3) by (intro divide_left_mono) auto
      then show ?thesis by simp
    qed
    finally have "fl64 (of_int k / of_int d) \<le> fl64 ?u" unfolding u by (rule fl64_mono)
    also have "\<dots> = ?u" by (rule fl64_exact) auto
    also have "\<dots> < 1" unfolding u by simp
    finally show ?thesis .
  qed
  then show ?thesis unfolding e using assms le ge one by (cases "k = d") auto
qed

text \<open>
  The uptime of a window is $-1$ exactly below a hundred requests; otherwise it is a number
  between 0 and 1, and it is 1 exactly when no request of the window failed with an error that counts
  against the service (user errors and rate limiting never do).
\<close>

theorem Totals_uptime:
  assumes "length rs \<le> 2 ^ 53" and "t = store_Totals R frm till rs"
  shows "(to_Uptime t = -1 \<longleftrightarrow> to_Requests t < 100)
    \<and> (100 \<le> to_Requests t \<longrightarrow> 0 \<le> to_Uptime t \<and> to_Uptime t \<le> 1
        \<and> (to_Uptime t = 1 \<longleftrightarrow> (\<forall>r \<in> set rs. UnixMilli frm \<le> ts r \<and> ts r < UnixMilli till \<longrightarrow> \<not> sqlIsError r)))"
proof -
  define src where "src = filter (\<lambda>r. UnixMilli frm \<le> ts r \<and> ts r < UnixMilli till) rs"
  let ?e = "count_rows sqlIsError src" and ?u = "count_rows sqlIsUserError src" and ?n = "int (length src)"
  have up: "to_Uptime t = uptime ?n ?u ?e" "to_Requests t = ?n"
    by (simp_all add: assms(2) store_Totals_def Let_def src_def split: prod.splits)
  have bound: "?n \<le> 2 ^ 53"
  proof -
    have "length src \<le> 2 ^ 53" unfolding src_def by (rule order_trans [OF length_filter_le assms(1)])
    then show ?thesis by (metis of_nat_le_iff of_nat_numeral of_nat_power)
  qed
  have no_err: "?e = 0 \<longleftrightarrow> (\<forall>r \<in> set rs. UnixMilli frm \<le> ts r \<and> ts r < UnixMilli till \<longrightarrow> \<not> sqlIsError r)"
    by (auto simp: count_rows_def src_def filter_empty_conv)
  note facts = errors_disjoint [of src] count_rows_nonneg [of sqlIsError src] count_rows_nonneg [of sqlIsUserError src]
  show ?thesis
  proof (cases "?n < 100")
    case True
    then show ?thesis by (simp add: up uptime_def)
  next
    case False
    have "0 \<le> uptime ?n ?u ?e \<and> uptime ?n ?u ?e \<le> 1 \<and> (uptime ?n ?u ?e = 1 \<longleftrightarrow> ?e = 0)"
    proof (cases "?n - ?u \<le> 0")
      case True
      then show ?thesis using False facts by (auto simp: uptime_def Let_def)
    next
      case pos: False
      have "0 \<le> ?n - ?u - ?e" "?n - ?u - ?e \<le> ?n - ?u" "?n - ?u \<le> 2 ^ 53" using facts bound by linarith+
      then show ?thesis
        using ratio_fl64 [of "?n - ?u - ?e" "?n - ?u"] False pos by (auto simp: uptime_def Let_def)
    qed
    then show ?thesis using False no_err by (auto simp: up)
  qed
qed


lemma percentile_nth:
  assumes "xs \<noteq> []" and "int (length xs) \<le> 2 ^ 53" and "0 \<le> p" and "p \<le> 1"
  shows "1 \<le> pct_rank p (int (length xs)) \<and> pct_rank p (int (length xs)) \<le> int (length xs)
    \<and> percentile p xs = sort xs ! nat (pct_rank p (int (length xs)) - 1)"
proof -
  let ?n = "int (length xs)"
  have n: "f_of_int ?n = of_int ?n" using assms(2) by (simp add: f_of_int_def fl64_of_int del: of_int_of_nat_eq)
  have "fl64 p \<le> 1" "0 \<le> fl64 p"
    using assms(3,4) fl64_mono [of p 1] fl64_mono [of 0 p] fl64_of_int [of 1] by (simp_all add: fl64_0)
  then have "of_int ?n * fl64 p \<le> of_int ?n" by (simp add: mult_left_le)
  then have "f_mul (f_of_int ?n) (fl64 p) \<le> of_int ?n"
    using fl64_mono [of "of_int ?n * fl64 p" "of_int ?n"] fl64_of_int [of ?n] assms(2) by (simp add: f_mul_def n)
  then have "f_trunc (f_mul (f_of_int ?n) (fl64 p)) \<le> ?n"
    using f_trunc_mono [of _ "of_int ?n"] by (metis f_trunc_of_int)
  moreover have "1 \<le> ?n" using assms(1) by (simp add: Suc_le_eq)
  ultimately have "1 \<le> pct_rank p ?n" "pct_rank p ?n \<le> ?n" by (simp_all add: pct_rank_def)
  then show ?thesis by (simp add: percentile_def Let_def)
qed

lemma length_ttft_samples: "length (ttft_samples rs) \<le> length rs"
  unfolding ttft_samples_def by (rule order_trans [OF length_filter_le]) simp

lemma pct_rank_mono:
  assumes "0 \<le> n" and "p \<le> q"
  shows "pct_rank p n \<le> pct_rank q n"
proof -
  have "0 \<le> f_of_int n" using assms(1) fl64_mono [of 0 "of_int n"] by (simp add: f_of_int_def fl64_0)
  then have "f_mul (f_of_int n) (fl64 p) \<le> f_mul (f_of_int n) (fl64 q)"
    unfolding f_mul_def using assms(2) by (intro fl64_mono mult_left_mono) auto
  then show ?thesis using f_trunc_mono by (auto simp: pct_rank_def max_def dest: order_trans)
qed

text \<open>
  The latency percentiles of a window are latencies that were measured in it, in ascending order:
  each is the time to first token of some request, and p50 is at most p95, which is at most p99.
\<close>

theorem Totals_percentiles:
  assumes "int (length rs) \<le> 2 ^ 53" and "t = store_Totals R frm till rs"
    and "xs = ttft_samples (filter (\<lambda>r. UnixMilli frm \<le> ts r \<and> ts r < UnixMilli till) rs)"
    and "xs \<noteq> []"
  shows "to_TTFTp50 t \<le> to_TTFTp95 t \<and> to_TTFTp95 t \<le> to_TTFTp99 t
    \<and> {to_TTFTp50 t, to_TTFTp95 t, to_TTFTp99 t} \<subseteq> set xs"
proof -
  have eqs: "to_TTFTp50 t = percentile (50 / 100) xs" "to_TTFTp95 t = percentile (95 / 100) xs"
      "to_TTFTp99 t = percentile (99 / 100) xs"
    by (simp_all add: assms(2,3) store_Totals_def ttftPercentiles_def Let_def)
  have len: "int (length xs) \<le> 2 ^ 53"
  proof -
    have "length xs \<le> length (filter (\<lambda>r. UnixMilli frm \<le> ts r \<and> ts r < UnixMilli till) rs)"
      unfolding assms(3) by (rule length_ttft_samples)
    also have "\<dots> \<le> length rs" by (rule length_filter_le)
    finally show ?thesis using assms(1) by linarith
  qed
  have mem: "percentile p xs \<in> set xs" if "0 \<le> p" "p \<le> 1" for p
  proof -
    note r = percentile_nth [OF assms(4) len that]
    then have "nat (pct_rank p (int (length xs)) - 1) < length (sort xs)" by auto
    then have "sort xs ! nat (pct_rank p (int (length xs)) - 1) \<in> set (sort xs)" by (rule nth_mem)
    with r show ?thesis by simp
  qed
  have mono: "percentile p xs \<le> percentile q xs" if "0 \<le> p" "p \<le> q" "q \<le> 1" for p q
  proof -
    note p = percentile_nth [OF assms(4) len, of p] and q = percentile_nth [OF assms(4) len, of q]
    have "pct_rank p (int (length xs)) \<le> pct_rank q (int (length xs))" using that by (simp add: pct_rank_mono)
    then show ?thesis using p q that sorted_nth_mono [OF sorted_sort, of "nat (pct_rank p (int (length xs)) - 1)"
      "nat (pct_rank q (int (length xs)) - 1)" xs] by auto
  qed
  show ?thesis unfolding eqs using mem mono by simp
qed

subsection \<open>Usage\<close>

definition owned :: "int \<Rightarrow> key_row list \<Rightarrow> Record \<Rightarrow> bool" where
  "owned uid keys r \<longleftrightarrow> (\<exists>k \<in> set keys. kr_id k = r_APIKeyID r \<and> kr_user_id k = uid)"

lemma rows_of_user_filter:
  assumes "distinct (map kr_id keys)"
  shows "rows_of_user uid keys rs = filter (owned uid keys) rs"
proof -
  have "map (\<lambda>_. r) (filter (\<lambda>k. kr_id k = r_APIKeyID r \<and> kr_user_id k = uid) keys) =
      (if owned uid keys r then [r] else [])" for r
    using assms by (induction keys) (auto simp: owned_def image_iff filter_empty_conv)
  then show ?thesis by (induction rs) (simp_all add: rows_of_user_def)
qed

text \<open>
  C14: What an account sees of the request log is determined by the requests of its own keys: two logs
  with the same such requests give it the same usage, the same breakdown by model and the same
  request list, every listed request was made with one of its keys, and no request belongs to two accounts.
\<close>

theorem usage_isolated:
  assumes "distinct (map kr_id keys)"
    and "filter (owned uid keys) rs = filter (owned uid keys) rs'"
    and "range_order ord'"
  shows "UsageFor R uid frm till keys rs = UsageFor R uid frm till keys rs'
    \<and> UsageByModelFor R ord uid frm till keys rs = UsageByModelFor R ord uid frm till keys rs'
    \<and> RecentFor ord' uid limit keys rs = RecentFor ord' uid limit keys rs'
    \<and> (\<forall>q \<in> set (RecentFor ord' uid limit keys rs). \<exists>r \<in> set rs. owned uid keys r \<and> rr_RequestID q = r_RequestID r)
    \<and> (\<forall>r uid'. owned uid keys r \<and> owned uid' keys r \<longrightarrow> uid' = uid)"
proof -
  note eq = rows_of_user_filter [OF assms(1)]
  have same: "rows_of_user uid keys rs = rows_of_user uid keys rs'" by (simp add: eq assms(2))
  have "\<exists>r \<in> set rs. owned uid keys r \<and> rr_RequestID q = r_RequestID r"
    if "q \<in> set (RecentFor ord' uid limit keys rs)" for q
    using that range_order_set [OF assms(3)]
    by (auto simp: RecentFor_def eq recent_row_def dest!: in_set_takeD)
  moreover have "uid' = uid" if "owned uid keys r" "owned uid' keys r" for r uid'
    using that assms(1) unfolding owned_def distinct_map by (metis inj_on_def)
  ultimately show ?thesis
    by (auto simp: UsageFor_def UsageByModelFor_def RecentFor_def usage_rows_def same)
qed


subsection \<open>Witnesses\<close>

definition exact_real :: sql_real where
  "exact_real = \<lparr>sum_real = sum_list, avg_real = (\<lambda>vs. sum_list vs / of_nat (length vs))\<rparr>"

definition sample_row :: "int \<Rightarrow> int \<Rightarrow> int \<Rightarrow> int \<Rightarrow> Record" where
  "sample_row t key status ttft =
     \<lparr>r_TS = t * millisecond, r_RequestID = Itoa t, r_Model = ''m'', r_Backend = ''b'', r_APIKeyID = key,
      r_Status = status, r_Streamed = True, r_PromptTokens = 10, r_CompletionTokens = 5,
      r_ReasoningTokens = 0, r_CachedTokens = 0, r_TTFTMs = ttft, r_TotalMs = 900, r_GenMs = 800,
      r_TPS = 6, r_CostUSD = 1, r_Error = []\<rparr>"

definition sample_rows :: "Record list" where
  "sample_rows = [sample_row 86400000 1 200 120, sample_row 86401000 2 500 (-1), sample_row 90000500 1 200 80]"

definition sample_stats :: stats_db where
  "sample_stats = \<lparr>sd_requests = sample_rows, sd_hourly = [], sd_daily = []\<rparr>"

lemma sample_rows_ok: "\<forall>r \<in> set sample_rows. 0 \<le> ts r"
  by code_simp

lemma sample_since: "UnixMilli (86400 * second) = 86400 * 1000"
  by (simp add: UnixMilli_def second_def millisecond_def)

lemma sample_bucket: "bucket_rows Hour 86400 ''m'' sample_rows = [sample_row 86400000 1 200 120, sample_row 86401000 2 500 (-1)]"
  by code_simp

theorem Rollup_exact_witness:
  "map_of (sd_hourly (snd (Rollup exact_real (86400 * second) None None sample_stats))) (86400, ''m'') =
     Some (agg exact_real 86400 [sample_row 86400000 1 200 120, sample_row 86401000 2 500 (-1)])"
  using Rollup_exact [of sample_stats "86400 * second" 86400 exact_real None
      "snd (Rollup exact_real (86400 * second) None None sample_stats)" 86400 "''m''"]
    sample_rows_ok sample_since sample_bucket
  by (simp add: sample_stats_def Day_def Rollup_ok)

theorem purge_pass_undercounts_witness:
  "\<exists>p. map_of (sd_hourly (purge_pass exact_real (86400 * second + 500 * millisecond) None None None sample_stats)) (86400, ''m'') = Some p
     \<and> pt_Requests p < 2"
proof -
  have "sample_row 86400000 1 200 120 \<in> set (sd_requests sample_stats)"
    "sample_row 86401000 2 500 (-1) \<in> set (sd_requests sample_stats)"
    by (simp_all add: sample_stats_def sample_rows_def)
  moreover have "ts (sample_row 86400000 1 200 120) < UnixMilli (86400 * second + 500 * millisecond)"
    "UnixMilli (86400 * second + 500 * millisecond) \<le> ts (sample_row 86401000 2 500 (-1))"
    "group_key Hour (sample_row 86400000 1 200 120) = (86400, ''m'')"
    "group_key Hour (sample_row 86401000 2 500 (-1)) = (86400, ''m'')"
    by code_simp+
  ultimately show ?thesis
    using purge_pass_undercounts [of "sample_row 86400000 1 200 120" sample_stats "86400 * second + 500 * millisecond"
        "sample_row 86401000 2 500 (-1)" 86400 "''m''" exact_real] sample_bucket
    by (auto simp: sample_stats_def)
qed


theorem Totals_percentiles_witness:
  "to_TTFTp99 (store_Totals exact_real 0 (172800 * second) sample_rows) \<in> {120, 80}"
proof -
  have xs: "ttft_samples (filter (\<lambda>r. UnixMilli 0 \<le> ts r \<and> ts r < UnixMilli (172800 * second)) sample_rows) = [120, 80]"
    by code_simp
  have "int (length sample_rows) \<le> 2 ^ 53" by (simp add: sample_rows_def)
  from Totals_percentiles [OF this refl, of "[120, 80]" 0 "172800 * second" exact_real] xs
  show ?thesis by simp
qed

definition sample_keys :: "key_row list" where
  "sample_keys = [\<lparr>kr_id = 1, kr_name = ''a'', kr_hash = ''h1'', kr_prefix = ''p'', kr_created_at = 0,
       kr_disabled = False, kr_rpm_limit = 0, kr_user_id = 7\<rparr>,
     \<lparr>kr_id = 2, kr_name = ''b'', kr_hash = ''h2'', kr_prefix = ''p'', kr_created_at = 0,
       kr_disabled = False, kr_rpm_limit = 0, kr_user_id = 8\<rparr>]"

theorem usage_isolated_witness:
  "UsageFor exact_real 7 0 (172800 * second) sample_keys sample_rows =
   UsageFor exact_real 7 0 (172800 * second) sample_keys [sample_row 86400000 1 200 120, sample_row 90000500 1 200 80]"
proof -
  have "distinct (map kr_id sample_keys)" by (simp add: sample_keys_def)
  moreover have "filter (owned 7 sample_keys) sample_rows =
      filter (owned 7 sample_keys) [sample_row 86400000 1 200 120, sample_row 90000500 1 200 80]" by code_simp
  ultimately show ?thesis using usage_isolated [OF _ _ range_order_id] by blast
qed

end
