(* ===== verification/Access_Guard.thy ===== *)
theory Access_Guard
  imports LLM_Prelude
begin

text \<open>
  The interface of a guard: a wrapper around handlers that identifies who sends a request and runs the handler for them,
  and that answers a request of nobody itself, without touching the state. The agent's token check and the gateway's two
  session checks provide it; the properties of the routing tables are its clients.
\<close>

locale access_guard =
  fixes wrap :: "('who \<Rightarrow> 'req \<Rightarrow> 'state \<Rightarrow> 'resp \<times> 'state) \<Rightarrow> 'req \<Rightarrow> 'state \<Rightarrow> 'resp \<times> 'state"
    and identify :: "'req \<Rightarrow> 'state \<Rightarrow> 'who option"
    and refusal :: "'resp \<Rightarrow> bool"
  assumes grants: "identify r s = Some u \<Longrightarrow> wrap h r s = h u r s"
    and refuses: "identify r s = None \<Longrightarrow> \<exists>resp. wrap h r s = (resp, s) \<and> refusal resp"
begin

lemma refused_state: "identify r s = None \<Longrightarrow> snd (wrap h r s) = s"
  using refuses [of r s h] by auto

text \<open>Whatever strangers send, and in whatever order, the state stays.\<close>

lemma strangers_change_nothing:
  "\<forall>(h, r) \<in> set reqs. identify r s = None \<Longrightarrow> fold (\<lambda>(h, r) s. snd (wrap h r s)) reqs s = s"
  by (induction reqs) (auto simp: refused_state)

text \<open>What a handler preserves of the state, its guarded form preserves.\<close>

lemma preserves:
  assumes "\<And>u r s. P s \<Longrightarrow> P (snd (h u r s))" and "P s"
  shows "P (snd (wrap h r s))"
  using assms by (cases "identify r s") (simp_all add: grants refused_state)

end

end
