(* ===== verification/Agent_Server.thy ===== *)
theory Agent_Server
  imports Agent_Cache Agent_Lifecycle Model_Hardware Access_Guard
begin

text \<open>
  The control API of a node's agent (\<^verbatim>\<open>src/internal/agent/server.go\<close>): routing, the token check and
  every handler, over the supervisor and the weight cache. A request carries its body as each handler
  decodes it; what the handlers ask of the machine (free disk, the GPUs, the path, the clock) is the
  record \<open>machine\<close>. A handler that stops an engine performs the supervisor's step; its answer is sent
  when the stopping thread has finished.
\<close>

subsection \<open>Data\<close>

record agent =
  ag_Node :: Model_Hardware.Node
  ag_Sup :: Supervisor
  ag_Runtime :: Runtime
  ag_Token :: string
  ag_Version :: string
  ag_started :: time
  ag_hub :: hub

record Info =
  if_Node :: Model_Hardware.Node
  if_Instances :: "View list"
  if_EnginesAvailable :: "string list"
  if_SupportedArchs :: "string list"
  if_RuntimeMode :: string
  if_Version :: string
  if_UptimeSeconds :: rat

datatype agent_body =
    AError string
  | AInfo Info
  | AInstalled inst_state int string string
  | AOk
  | ALogs string inst_state string "string list"
  | AHealth int rat
  | ACache "CacheEntry list" int string
  | ADeleted string int

record agent_reply =
  ar_Status :: int
  ar_Body :: agent_body

record machine =
  mc_now :: time
  mc_disk :: "string \<Rightarrow> int"
  mc_torch :: string
  mc_gpus :: "GPU list"
  mc_archs :: "string list"
  mc_on_path :: "string \<Rightarrow> bool"
  mc_start :: start_env
  mc_readDir :: "string \<Rightarrow> readdir"
  mc_ord :: "CacheEntry list \<Rightarrow> CacheEntry list"
  mc_stat_fails :: "string option"
  mc_remove_fails :: "string option"

record agent_request =
  aq_Method :: string
  aq_Path :: string
  aq_Authorization :: string
  aq_Spec :: "string + Spec"
  aq_ServedName :: "string option"
  aq_Repo :: "string option"
  aq_Query :: "string \<Rightarrow> string"

definition writeErr :: "int \<Rightarrow> string \<Rightarrow> agent_reply" where
  "writeErr status msg = \<lparr>ar_Status = status, ar_Body = AError msg\<rparr>"

definition agent_json :: "int \<Rightarrow> agent_body \<Rightarrow> agent_reply" where
  "agent_json status b = \<lparr>ar_Status = status, ar_Body = b\<rparr>"

subsection \<open>Authentication\<close>

definition bearer :: "string \<Rightarrow> string" where
  "bearer h =
     (if length h > 7 \<and> (take 7 h = ''Bearer '' \<or> take 7 h = ''bearer '') then drop 7 h else [])"

definition auth ::
  "(agent_request \<Rightarrow> agent \<Rightarrow> agent_reply \<times> agent) \<Rightarrow> agent_request \<Rightarrow> agent \<Rightarrow> agent_reply \<times> agent" where
  "auth h r a =
     (if ag_Token a = [] \<or> bearer (aq_Authorization r) \<noteq> ag_Token a
      then (writeErr 401 ''invalid agent token'', a) else h r a)"

subsection \<open>Handlers\<close>

definition seconds_between :: "time \<Rightarrow> time \<Rightarrow> rat" where
  "seconds_between t u =
     (let sec = go_div (u - t) second; nsec = u - t - sec * second
      in f_add (f_of_int sec) (f_div (f_of_int nsec) 1000000000))"

definition dataDirOf :: "Supervisor \<Rightarrow> string" where
  "dataDirOf s = (if su_stateDir s = [] then ''.'' else su_stateDir s)"

definition handleInfo :: "machine \<Rightarrow> agent_request \<Rightarrow> agent \<Rightarrow> agent_reply \<times> agent" where
  "handleInfo mc r a =
     (let node = (ag_Node a)\<lparr>n_DiskFreeBytes := mc_disk mc (dataDirOf (ag_Sup a))\<rparr>;
          node = (if mc_torch mc \<noteq> [] then node\<lparr>n_TorchCUDA := mc_torch mc\<rparr> else node);
          node = (if mc_gpus mc \<noteq> [] then node\<lparr>n_GPUs := mc_gpus mc\<rparr> else node);
          engines = filter (\<lambda>e. EngineAvailable (mc_on_path mc) e (ag_Runtime a)) [''vllm'', ''llamacpp'']
      in (agent_json 200 (AInfo
            \<lparr>if_Node = node, if_Instances = List_views (ag_Sup a), if_EnginesAvailable = engines,
             if_SupportedArchs = mc_archs mc, if_RuntimeMode = rt_Mode (ag_Runtime a),
             if_Version = ag_Version a, if_UptimeSeconds = seconds_between (ag_started a) (mc_now mc)\<rparr>), a))"

text \<open>After a successful \<^verbatim>\<open>Start\<close> the new instance is the one the table holds under its name.\<close>

definition handleInstall :: "machine \<Rightarrow> agent_request \<Rightarrow> agent \<Rightarrow> agent_reply \<times> agent" where
  "handleInstall mc r a =
     (case aq_Spec r of
        Inl e \<Rightarrow> (writeErr 400 (''invalid request body: '' @ e), a)
      | Inr spec \<Rightarrow>
          let spec = (if s_ServedName spec = [] then spec\<lparr>s_ServedName := s_HFID spec\<rparr> else spec)
          in if \<not> EngineAvailable (mc_on_path mc) (s_Engine spec) (ag_Runtime a) then
               (writeErr 412 (''engine '' @ s_Engine spec @ '' is not installed on this node''), a)
             else case Start (mc_start mc) spec (ag_Sup a) of
               (Some e, sv) \<Rightarrow> (writeErr 409 e, a\<lparr>ag_Sup := sv\<rparr>)
             | (None, sv) \<Rightarrow>
                 (case Get sv (s_ServedName spec) of
                    None \<Rightarrow> (writeErr 500 [], a\<lparr>ag_Sup := sv\<rparr>)
                  | Some i \<Rightarrow>
                      (let snap = Snapshot i in
                       (agent_json 202 (AInstalled (v_State snap) (v_Port snap) (v_Command snap) (s_ServedName (v_Spec snap))),
                        a\<lparr>ag_Sup := sv\<rparr>))))"

definition nameFromBody :: "agent_request \<Rightarrow> agent_reply + string" where
  "nameFromBody r =
     (case aq_ServedName r of
        None \<Rightarrow> Inl (writeErr 400 ''served_name is required'')
      | Some n \<Rightarrow> if n = [] then Inl (writeErr 400 ''served_name is required'') else Inr n)"

definition stop_with :: "(string \<Rightarrow> string option) \<Rightarrow> agent_request \<Rightarrow> agent \<Rightarrow> agent_reply \<times> agent" where
  "stop_with remove r a =
     (case nameFromBody r of
        Inl e \<Rightarrow> (e, a)
      | Inr name \<Rightarrow>
          (case stop_mark name True (remove name) (ag_Sup a) of
             (Some e, _, _) \<Rightarrow> (writeErr 404 e, a)
           | (None, threads, sv) \<Rightarrow> (agent_json 200 AOk, a\<lparr>ag_Sup := spawn threads sv\<rparr>)))"

definition handleStop :: "machine \<Rightarrow> agent_request \<Rightarrow> agent \<Rightarrow> agent_reply \<times> agent" where
  "handleStop mc = stop_with (\<lambda>_. None)"

definition handleRemove :: "machine \<Rightarrow> agent_request \<Rightarrow> agent \<Rightarrow> agent_reply \<times> agent" where
  "handleRemove mc = stop_with Some"

definition log_count :: "string \<Rightarrow> int" where
  "log_count q = (let n = fst (Atoi q) in if n \<le> 0 then 100 else n)"

definition handleLogs :: "machine \<Rightarrow> agent_request \<Rightarrow> agent \<Rightarrow> agent_reply \<times> agent" where
  "handleLogs mc r a =
     (let name = aq_Query r ''served_name''
      in case Get (ag_Sup a) name of
           None \<Rightarrow> (writeErr 404 (''no model '' @ name @ '' on this node''), a)
         | Some i \<Rightarrow>
             (agent_json 200 (ALogs name (in_state i) (in_errMsg i) (Logs (log_count (aq_Query r ''n'')) i)), a))"

definition agent_handleHealth :: "machine \<Rightarrow> agent_request \<Rightarrow> agent \<Rightarrow> agent_reply \<times> agent" where
  "agent_handleHealth mc r a =
     (agent_json 200 (AHealth (int (length (filter (\<lambda>v. v_State v = StateReady) (List_views (ag_Sup a)))))
        (seconds_between (ag_started a) (mc_now mc))), a)"

text \<open>The repositories the listed instances were installed from, whatever state they are in.\<close>

definition inUseRepos :: "agent \<Rightarrow> string \<Rightarrow> bool" where
  "inUseRepos a repo =
     list_ex (\<lambda>v. (s_HFID (v_Spec v) \<noteq> [] \<and> s_HFID (v_Spec v) = repo) \<or>
                  (s_GGUFRepo (v_Spec v) \<noteq> [] \<and> s_GGUFRepo (v_Spec v) = repo)) (List_views (ag_Sup a))"

definition handleCacheList :: "machine \<Rightarrow> agent_request \<Rightarrow> agent \<Rightarrow> agent_reply \<times> agent" where
  "handleCacheList mc r a =
     (case ListCache (mc_ord mc) (rt_HFCacheDir (ag_Runtime a)) (inUseRepos a) (mc_readDir mc) (ag_hub a) of
        Inl e \<Rightarrow> (writeErr 500 e, a)
      | Inr es \<Rightarrow> (agent_json 200 (ACache es (sum_list (map ce_Bytes es)) (rt_HFCacheDir (ag_Runtime a))), a))"

definition handleCacheDelete :: "machine \<Rightarrow> agent_request \<Rightarrow> agent \<Rightarrow> agent_reply \<times> agent" where
  "handleCacheDelete mc r a =
     (case aq_Repo r of
        None \<Rightarrow> (writeErr 400 ''invalid request body'', a)
      | Some repo \<Rightarrow>
          (case DeleteCache (rt_HFCacheDir (ag_Runtime a)) (inUseRepos a) (mc_stat_fails mc) (mc_remove_fails mc) repo (ag_hub a) of
             (Inl e, hub) \<Rightarrow> (writeErr 400 e, a\<lparr>ag_hub := hub\<rparr>)
           | (Inr freed, hub) \<Rightarrow> (agent_json 200 (ADeleted repo freed), a\<lparr>ag_hub := hub\<rparr>)))"

subsection \<open>Routing\<close>

definition agent_routes :: "machine \<Rightarrow> (string \<times> string \<times> (agent_request \<Rightarrow> agent \<Rightarrow> agent_reply \<times> agent)) list" where
  "agent_routes mc =
     [(''/v1/node/info'', ''GET'', auth (handleInfo mc)),
      (''/v1/node/install'', ''POST'', auth (handleInstall mc)),
      (''/v1/node/stop'', ''POST'', auth (handleStop mc)),
      (''/v1/node/remove'', ''POST'', auth (handleRemove mc)),
      (''/v1/node/logs'', ''GET'', auth (handleLogs mc)),
      (''/v1/node/cache'', ''GET'', auth (handleCacheList mc)),
      (''/v1/node/cache/delete'', ''POST'', auth (handleCacheDelete mc)),
      (''/health'', ''GET'', agent_handleHealth mc)]"

text \<open>The multiplexer: a \<^verbatim>\<open>GET\<close> pattern also serves \<^verbatim>\<open>HEAD\<close>; a known path with another method is 405.\<close>

definition method_matches :: "string \<Rightarrow> string \<Rightarrow> bool" where
  "method_matches pat m = (m = pat \<or> (pat = ''GET'' \<and> m = ''HEAD''))"

definition agent_Handler :: "machine \<Rightarrow> agent_request \<Rightarrow> agent \<Rightarrow> agent_reply \<times> agent" where
  "agent_Handler mc r a =
     (case map_of (agent_routes mc) (aq_Path r) of
        None \<Rightarrow> (writeErr 404 [], a)
      | Some (pat, h) \<Rightarrow> if method_matches pat (aq_Method r) then h r a else (writeErr 405 [], a))"


subsection \<open>What the token protects\<close>

definition authorised :: "agent_request \<Rightarrow> agent \<Rightarrow> bool" where
  "authorised r a \<longleftrightarrow> ag_Token a \<noteq> [] \<and> bearer (aq_Authorization r) = ag_Token a"

interpretation agent_auth: access_guard "\<lambda>h. auth (h ())" "\<lambda>r a. if authorised r a then Some () else None"
  "\<lambda>rep. rep = writeErr 401 ''invalid agent token''"
  by unfold_locales (auto simp: auth_def authorised_def split: if_splits)

lemma auth_refuses: "\<not> authorised r a \<Longrightarrow> auth h r a = (writeErr 401 ''invalid agent token'', a)"
  using agent_auth.refuses [of r a "\<lambda>_. h"] by auto

lemma auth_grants: "authorised r a \<Longrightarrow> auth h r a = h r a"
  using agent_auth.grants [of r a "()" "\<lambda>_. h"] by simp

lemma agent_route_cases:
  assumes "map_of (agent_routes mc) path = Some (pat, h)"
  shows "path = ''/health'' \<and> h = agent_handleHealth mc \<or> path \<noteq> ''/health'' \<and> (\<exists>h'. h = auth h')"
  using map_of_SomeD [OF assms] unfolding agent_routes_def by auto

text \<open>
  C21: Without the agent's token, and with no request at all on an agent that has none configured,
  nothing can be read or changed but the liveness answer: every other request is refused with 401
  (or does not exist: 404, 405) and the supervisor, the weight cache and the settings are what they were.
\<close>

theorem agent_guarded:
  assumes "\<not> authorised r a"
  shows "snd (agent_Handler mc r a) = a
    \<and> (aq_Path r \<noteq> ''/health'' \<longrightarrow>
        ar_Status (fst (agent_Handler mc r a)) \<in> {401, 404, 405} \<and>
        (\<exists>msg. ar_Body (fst (agent_Handler mc r a)) = AError msg))"
proof (cases "map_of (agent_routes mc) (aq_Path r)")
  case None
  then show ?thesis by (simp add: agent_Handler_def writeErr_def)
next
  case (Some e)
  obtain pat h where e: "e = (pat, h)" by (cases e)
  from agent_route_cases [OF Some [unfolded e]] Some show ?thesis
    by (auto simp: e agent_Handler_def agent_handleHealth_def auth_refuses [OF assms] writeErr_def)
qed

subsection \<open>Installation\<close>

lemma Start_registers:
  assumes "Start w spec s = (None, s')"
  obtains i x where "map_of (su_instances s') (s_ServedName spec) = Some i" and "su_heap s' ! i = x"
    and "in_Spec x = spec" and "in_state x = StateStarting" and "in_desired x"
    and "allocatePort (se_free w) s = Inr (in_Port x)"
proof (cases rule: start_register_cases [of "se_free w" "se_now w" spec s])
  case (error e)
  with assms show ?thesis by (simp add: Start_def)
next
  case (registered port)
  let ?i = "length (su_heap s)"
  let ?t = "s\<lparr>su_heap := su_heap s @ [new_instance spec port (se_now w)],
      su_instances := AList.update (s_ServedName spec) ?i (su_instances s)\<rparr>"
  show ?thesis
  proof (cases rule: launch_cases [of "se_on_path w" "se_no_transfer w" "se_result w" ?i ?t])
    case (failed e)
    with assms registered show ?thesis by (simp add: Start_def)
  next
    case (ok pid command)
    then have s': "s' = persist (se_writable w) (launched ?i pid command ?t)"
      using assms registered by (simp add: Start_def)
    have sel: "su_instances s' = AList.update (s_ServedName spec) ?i (su_instances s)"
      "su_heap s' = su_heap (launched ?i pid command ?t)"
      by (simp_all add: s' persist_def launched_def)
    show ?thesis
      by (rule that [of ?i "su_heap s' ! ?i"])
        (simp_all add: sel registered(1) launched_def upd_def new_instance_def)
  qed
qed

lemma Start_running:
  assumes "map_of (su_instances s) (s_ServedName spec) = Some i" and "s_ServedName spec \<noteq> []"
    and "in_state (su_heap s ! i) \<in> {StateStarting, StateReady}"
  shows "\<exists>e. Start w spec s = (Some e, s)"
  using assms by (auto simp: Start_def start_register_def running_state_def Let_def)

lemma view_listed:
  "map_of (su_instances s) name = Some i \<Longrightarrow> Snapshot (su_heap s ! i) \<in> set (List_views s)"
  by (force simp: List_views_def dest: map_of_SomeD)

text \<open>
  An installation the agent accepts is visible at once: the answer names the model, the next status
  report lists it as starting on the port of the answer, asking again is refused with 409 without
  changing anything, and its weights cannot be deleted from the cache while it is listed.
\<close>

theorem install_visible:
  assumes "aq_Spec r = Inr spec" and "s_ServedName spec \<noteq> []" and "s_HFID spec \<noteq> []"
    and "handleInstall mc r a = (reply, a')" and "ar_Status reply = 202"
  shows "\<exists>port command. ar_Body reply = AInstalled StateStarting port command (s_ServedName spec)
    \<and> (\<exists>v \<in> set (List_views (ag_Sup a')). v_Spec v = spec \<and> v_State v = StateStarting \<and> v_Port v = port)
    \<and> snd (handleInstall mc' r a') = a'
    \<and> ar_Status (fst (handleInstall mc' r a')) \<in> {409, 412}
    \<and> snd (handleCacheDelete mc' (q\<lparr>aq_Repo := Some (s_HFID spec)\<rparr>) a') = a'"
proof -
  have eng: "EngineAvailable (mc_on_path mc) (s_Engine spec) (ag_Runtime a)"
    using assms by (auto simp: handleInstall_def writeErr_def split: if_splits)
  obtain s' where start: "Start (mc_start mc) spec (ag_Sup a) = (None, s')"
    using assms eng by (cases "Start (mc_start mc) spec (ag_Sup a)"; cases "fst (Start (mc_start mc) spec (ag_Sup a))")
      (auto simp: handleInstall_def writeErr_def)
  from Start_registers [OF this] obtain i where
    i: "map_of (su_instances s') (s_ServedName spec) = Some i" "in_Spec (su_heap s' ! i) = spec"
      "in_state (su_heap s' ! i) = StateStarting" by metis
  have a': "a' = a\<lparr>ag_Sup := s'\<rparr>"
    and reply: "ar_Body reply = AInstalled StateStarting (in_Port (su_heap s' ! i)) (in_command (su_heap s' ! i)) (s_ServedName spec)"
    using assms eng start i by (auto simp: handleInstall_def Get_def agent_json_def Snapshot_def Let_def)
  let ?v = "Snapshot (su_heap s' ! i)"
  have v: "?v \<in> set (List_views s')" "v_Spec ?v = spec" "v_State ?v = StateStarting" "v_Port ?v = in_Port (su_heap s' ! i)"
    using view_listed [OF i(1)] i by (simp_all add: Snapshot_def)
  obtain e where again: "Start (mc_start mc') spec s' = (Some e, s')"
    using Start_running [OF i(1) assms(2)] i(3) by auto
  have "inUseRepos a' (s_HFID spec)"
    using v assms(3) by (auto simp: inUseRepos_def list_ex_iff a')
  then have "snd (handleCacheDelete mc' (q\<lparr>aq_Repo := Some (s_HFID spec)\<rparr>) a') = a'"
    using assms(3) by (simp add: handleCacheDelete_def DeleteCache_def)
  moreover have "snd (handleInstall mc' r a') = a' \<and> ar_Status (fst (handleInstall mc' r a')) \<in> {409, 412}"
    using assms(1,2) again by (simp add: handleInstall_def a' writeErr_def)
  ultimately show ?thesis using reply v by (auto simp: a')
qed


subsection \<open>Witnesses\<close>

definition sample_node :: Model_Hardware.Node where
  "sample_node = \<lparr>n_Name = ''gpu'', n_GPUs = [], n_CPUCores = 8, n_CPUModel = ''cpu'', n_RAMBytes = 100,
     n_DiskFreeBytes = 50, n_MemBandwidthGBs = 0, n_HasNVMe = False, n_GPUFraction = 0,
     n_DriverCUDA = [], n_TorchCUDA = []\<rparr>"

definition sample_agent :: agent where
  "sample_agent = \<lparr>ag_Node = sample_node, ag_Sup = sample_supervisor, ag_Runtime = sample_runtime,
     ag_Token = ''secret'', ag_Version = ''1'', ag_started = 0, ag_hub = []\<rparr>"

definition sample_machine :: machine where
  "sample_machine = \<lparr>mc_now = 0, mc_disk = (\<lambda>_. 7), mc_torch = [], mc_gpus = [], mc_archs = [],
     mc_on_path = (\<lambda>_. True), mc_start = sample_world 0, mc_readDir = (\<lambda>_. NotExist), mc_ord = (\<lambda>es. es),
     mc_stat_fails = None, mc_remove_fails = None\<rparr>"

definition agent_post :: "string \<Rightarrow> string \<Rightarrow> agent_request" where
  "agent_post path authorization = \<lparr>aq_Method = ''POST'', aq_Path = path, aq_Authorization = authorization,
     aq_Spec = Inr sample_spec, aq_ServedName = Some ''qwen'', aq_Repo = Some [], aq_Query = (\<lambda>_. [])\<rparr>"

theorem agent_guarded_witness:
  "snd (agent_Handler sample_machine (agent_post ''/v1/node/remove'' ''Bearer guess'') sample_agent) = sample_agent"
proof -
  have "\<not> authorised (agent_post ''/v1/node/remove'' ''Bearer guess'') sample_agent" by code_simp
  from agent_guarded [OF this, of sample_machine] show ?thesis by blast
qed

theorem install_visible_witness:
  "ar_Status (fst (handleInstall sample_machine (agent_post ''/v1/node/install'' ''Bearer secret'')
     (snd (handleInstall sample_machine (agent_post ''/v1/node/install'' ''Bearer secret'') sample_agent)))) \<in> {409, 412}"
proof -
  let ?r = "agent_post ''/v1/node/install'' ''Bearer secret''"
  obtain reply a' where h: "handleInstall sample_machine ?r sample_agent = (reply, a')" by fastforce
  moreover have "ar_Status (fst (handleInstall sample_machine ?r sample_agent)) = 202" by code_simp
  moreover have "aq_Spec ?r = Inr sample_spec" "s_ServedName sample_spec \<noteq> []" "s_HFID sample_spec \<noteq> []" by code_simp+
  ultimately show ?thesis using install_visible [of ?r sample_spec sample_machine sample_agent reply a' sample_machine] by auto
qed

end
