(* ===== verification/Gateway_Nodes.thy ===== *)
theory Gateway_Nodes
  imports Upstream_Pool Agent_Server
begin

text \<open>
  The node monitor of the gateway (\<^verbatim>\<open>src/internal/gateway/nodes.go\<close>): the calls to the agents and the
  polls that mirror a node's ready engines into the routing pool. The HTTP exchange with an agent and
  the URL parser are arguments; an answer carries its body as the caller decodes it. A poll reads one
  answer, updates the node's status under the manager's lock and then the pool under the pool's lock;
  the polls of one round run concurrently, in any order, and a round ends before the next begins.
\<close>

subsection \<open>Data\<close>

definition nodeUnreachableGrace :: duration where "nodeUnreachableGrace = 90 * second"

text \<open>A zero \<^verbatim>\<open>LastSeen\<close> is \<open>None\<close>.\<close>

record NodeStatus =
  ns_Name :: string
  ns_URL :: string
  ns_Reachable :: bool
  ns_LastSeen :: "time option"
  ns_LastError :: string
  ns_Info :: "Info option"

record NodeManager =
  nm_nodes :: "(string \<times> Gateway_Config.Node) list"
  nm_status :: "(string \<times> NodeStatus) list"

definition NewNodeManager :: "Gateway_Config.Node list \<Rightarrow> NodeManager" where
  "NewNodeManager ns =
     \<lparr>nm_nodes = fold (\<lambda>n. AList.update (Gateway_Config.n_Name n) n) ns [],
      nm_status = fold (\<lambda>n. AList.update (Gateway_Config.n_Name n)
        \<lparr>ns_Name = Gateway_Config.n_Name n, ns_URL = n_URL n, ns_Reachable = False, ns_LastSeen = None,
         ns_LastError = [], ns_Info = None\<rparr>) ns []\<rparr>"

subsection \<open>Calls\<close>

text \<open>
  What a call meets: a URL no request can be built for, a failed exchange, or an answer with its status
  code and text, the message of an error document (empty when there is none) and the decoded body.
\<close>

datatype 'a exchange =
    BadRequest string
  | Unreachable_node string
  | Answer int string string "string + 'a"

record call_out =
  co_Method :: string
  co_URL :: string
  co_Authorization :: "string option"
  co_Body :: bool

definition call ::
  "(call_out \<Rightarrow> 'a exchange) \<Rightarrow> NodeManager \<Rightarrow> string \<Rightarrow> string \<Rightarrow> string \<Rightarrow> bool \<Rightarrow> string + 'a" where
  "call send m name meth path has_body =
     (case map_of (nm_nodes m) name of
        None \<Rightarrow> Inl (''unknown node '' @ quote_q name)
      | Some n \<Rightarrow>
          (case send \<lparr>co_Method = meth, co_URL = n_URL n @ path,
                      co_Authorization = (if n_Token n \<noteq> [] then Some (''Bearer '' @ n_Token n) else None),
                      co_Body = has_body\<rparr> of
             BadRequest e \<Rightarrow> Inl e
           | Unreachable_node e \<Rightarrow> Inl (''node '' @ name @ '' unreachable: '' @ e)
           | Answer code status msg body \<Rightarrow>
               if code \<ge> 400 then
                 (if msg \<noteq> [] then Inl (''node '' @ name @ '': '' @ msg)
                  else Inl (''node '' @ name @ '' returned '' @ status))
               else body))"

definition node_Info :: "(call_out \<Rightarrow> Info exchange) \<Rightarrow> NodeManager \<Rightarrow> string \<Rightarrow> string + Info" where
  "node_Info send m name = call send m name ''GET'' ''/v1/node/info'' False"

definition node_Install :: "(Spec \<Rightarrow> call_out \<Rightarrow> 'a exchange) \<Rightarrow> NodeManager \<Rightarrow> string \<Rightarrow> Spec \<Rightarrow> string + 'a" where
  "node_Install send m name spec = call (send spec) m name ''POST'' ''/v1/node/install'' True"

text \<open>Where no result is decoded, an answer below 400 is success whatever its body says.\<close>

definition call_none :: "(call_out \<Rightarrow> unit exchange) \<Rightarrow> NodeManager \<Rightarrow> string \<Rightarrow> string \<Rightarrow> string \<Rightarrow> string option" where
  "call_none send m name meth path =
     (case call (\<lambda>c. case send c of Answer code status msg _ \<Rightarrow> Answer code status msg (Inr ()) | x \<Rightarrow> x) m name meth path True of
        Inl e \<Rightarrow> Some e | Inr _ \<Rightarrow> None)"

definition StopModel :: "(string \<Rightarrow> call_out \<Rightarrow> unit exchange) \<Rightarrow> NodeManager \<Rightarrow> string \<Rightarrow> string \<Rightarrow> string option" where
  "StopModel send m name served = call_none (send served) m name ''POST'' ''/v1/node/stop''"

definition node_RemoveModel :: "(string \<Rightarrow> call_out \<Rightarrow> unit exchange) \<Rightarrow> NodeManager \<Rightarrow> string \<Rightarrow> string \<Rightarrow> string option" where
  "node_RemoveModel send m name served = call_none (send served) m name ''POST'' ''/v1/node/remove''"

definition node_Logs ::
  "(string \<Rightarrow> string) \<Rightarrow> (call_out \<Rightarrow> 'a exchange) \<Rightarrow> NodeManager \<Rightarrow> string \<Rightarrow> string \<Rightarrow> int \<Rightarrow> string + 'a" where
  "node_Logs escape send m name served n =
     call send m name ''GET'' (''/v1/node/logs?served_name='' @ escape served @ ''&n='' @ Itoa n) False"

definition node_Cache :: "(call_out \<Rightarrow> 'a exchange) \<Rightarrow> NodeManager \<Rightarrow> string \<Rightarrow> string + 'a" where
  "node_Cache send m name = call send m name ''GET'' ''/v1/node/cache'' False"

definition node_DeleteCache :: "(string \<Rightarrow> call_out \<Rightarrow> 'a exchange) \<Rightarrow> NodeManager \<Rightarrow> string \<Rightarrow> string \<Rightarrow> string + 'a" where
  "node_DeleteCache send m name repo = call (send repo) m name ''POST'' ''/v1/node/cache/delete'' True"

subsection \<open>Polling\<close>

definition minPositive :: "int \<Rightarrow> int \<Rightarrow> int" where
  "minPositive a b = (if a \<le> 0 then b else if b \<le> 0 then a else if a < b then a else b)"

definition hostOf :: "(string \<Rightarrow> string + string) \<Rightarrow> string \<Rightarrow> string + string" where
  "hostOf hostname raw =
     (case hostname raw of Inl e \<Rightarrow> Inl e
      | Inr h \<Rightarrow> if h = [] then Inl (''no host in '' @ quote_q raw) else Inr h)"

definition ready_entries :: "Gateway_Config.Node \<Rightarrow> string \<Rightarrow> Info \<Rightarrow> DynamicBackend list" where
  "ready_entries n host info =
     map (\<lambda>v. \<lparr>d_Node = Gateway_Config.n_Name n, d_ModelID = s_ServedName (v_Spec v),
               d_BaseURL = ''http://'' @ host @ '':'' @ Itoa (v_Port v) @ ''/v1'',
               d_MaxConcurrency = minPositive (n_MaxConcurrency n) (s_MaxNumSeqs (v_Spec v)),
               d_Weight = n_Weight n\<rparr>)
       (filter (\<lambda>v. v_State v = StateReady) (if_Instances info))"

text \<open>The two outcomes of a poll on the status, and what each does to the pool.\<close>

definition poll_failed :: "time \<Rightarrow> string \<Rightarrow> NodeStatus \<Rightarrow> NodeStatus" where
  "poll_failed now e st = st\<lparr>ns_Reachable := False, ns_LastError := e\<rparr>"

definition gives_up :: "time \<Rightarrow> NodeStatus \<Rightarrow> bool" where
  "gives_up now st =
     (case ns_LastSeen st of None \<Rightarrow> True | Some t \<Rightarrow> now - t > nodeUnreachableGrace)"

definition poll_answered :: "time \<Rightarrow> Info \<Rightarrow> NodeStatus \<Rightarrow> NodeStatus" where
  "poll_answered now info st =
     st\<lparr>ns_Reachable := True, ns_LastError := [], ns_LastSeen := Some now, ns_Info := Some info\<rparr>"

definition poll ::
  "orders \<Rightarrow> (string \<Rightarrow> string + string) \<Rightarrow> time \<Rightarrow> string + Info \<Rightarrow> Gateway_Config.Node \<Rightarrow>
   NodeManager \<times> Pool \<Rightarrow> NodeManager \<times> Pool" where
  "poll ord hostname now result n mp =
     (case mp of (m, p) \<Rightarrow>
       (case map_of (nm_status m) (Gateway_Config.n_Name n) of
          None \<Rightarrow> (m, p)
        | Some st \<Rightarrow>
            let name = Gateway_Config.n_Name n in
            (case result of
               Inl e \<Rightarrow>
                 (m\<lparr>nm_status := AList.update name (poll_failed now e st) (nm_status m)\<rparr>,
                  if gives_up now st then DropNode (snd ord) name p else p)
             | Inr info \<Rightarrow>
                 (m\<lparr>nm_status := AList.update name (poll_answered now info st) (nm_status m)\<rparr>,
                  case hostOf hostname (n_URL n) of
                    Inl _ \<Rightarrow> p
                  | Inr host \<Rightarrow> SyncNode (fst ord) (snd ord) name (ready_entries n host info) p))))"

text \<open>
  A round polls every node once; \<open>rounds\<close> gives for each node, in the order in which the polls of this
  round finish, its time, the answer and the iteration orders of the maps.
\<close>

record poll_event =
  pe_node :: Gateway_Config.Node
  pe_now :: time
  pe_result :: "string + Info"
  pe_orders :: orders

definition poll_step :: "(string \<Rightarrow> string + string) \<Rightarrow> poll_event \<Rightarrow> NodeManager \<times> Pool \<Rightarrow> NodeManager \<times> Pool" where
  "poll_step hostname e = poll (pe_orders e) hostname (pe_now e) (pe_result e) (pe_node e)"

definition pollAll :: "(string \<Rightarrow> string + string) \<Rightarrow> poll_event list \<Rightarrow> NodeManager \<times> Pool \<Rightarrow> NodeManager \<times> Pool" where
  "pollAll hostname polls = fold (poll_step hostname) polls"

definition round_ok :: "NodeManager \<Rightarrow> poll_event list \<Rightarrow> bool" where
  "round_ok m polls \<longleftrightarrow> mset (map pe_node polls) = mset (map snd (nm_nodes m))"

definition Start_polling :: "(string \<Rightarrow> string + string) \<Rightarrow> poll_event list list \<Rightarrow> NodeManager \<times> Pool \<Rightarrow> NodeManager \<times> Pool" where
  "Start_polling hostname rounds mp =
     (if nm_nodes (fst mp) = [] then mp else fold (pollAll hostname) rounds mp)"

subsection \<open>Queries\<close>

definition Statuses :: "(NodeStatus list \<Rightarrow> NodeStatus list) \<Rightarrow> NodeManager \<Rightarrow> NodeStatus list" where
  "Statuses ord m = ord (map snd (nm_status m))"

definition Has :: "NodeManager \<Rightarrow> string \<Rightarrow> bool" where
  "Has m name = has_key (nm_nodes m) name"

definition Count :: "NodeManager \<Rightarrow> int" where
  "Count m = int (length (nm_nodes m))"


subsection \<open>What the router knows of a node\<close>

text \<open>
  The specification: of every node the time it was last heard and the models it offers. An answer
  replaces both; silence takes the models away once the node has been silent for longer than the grace
  period, and at once when it was never heard.
\<close>

definition ready_models :: "Info \<Rightarrow> string set" where
  "ready_models info = {s_ServedName (v_Spec v) | v. v \<in> set (if_Instances info) \<and> v_State v = StateReady}"

definition hear :: "string \<Rightarrow> poll_event \<Rightarrow> time option \<times> string set \<Rightarrow> time option \<times> string set" where
  "hear name e k =
     (if Gateway_Config.n_Name (pe_node e) \<noteq> name then k
      else case pe_result e of
        Inr info \<Rightarrow> (Some (pe_now e), ready_models info)
      | Inl _ \<Rightarrow> (case fst k of
            None \<Rightarrow> (None, {})
          | Some t \<Rightarrow> (Some t, if pe_now e - t > nodeUnreachableGrace then {} else snd k)))"

definition mirrors :: "NodeManager \<times> Pool \<Rightarrow> (string \<Rightarrow> time option \<times> string set) \<Rightarrow> string \<Rightarrow> bool" where
  "mirrors mp know name \<longleftrightarrow>
     (\<exists>st. map_of (nm_status (fst mp)) name = Some st \<and> ns_LastSeen st = fst (know name)) \<and>
     (\<forall>m. (name, m) \<in> routes (snd mp) \<longleftrightarrow> m \<in> snd (know name))"

definition event_ok :: "(string \<Rightarrow> string + string) \<Rightarrow> poll_event \<Rightarrow> bool" where
  "event_ok hostname e \<longleftrightarrow> slash_free (Gateway_Config.n_Name (pe_node e)) \<and> orders_ok (pe_orders e) \<and>
     (\<exists>h. hostOf hostname (n_URL (pe_node e)) = Inr h)"

lemma ready_entries_models: "d_ModelID ` set (ready_entries n host info) = ready_models info"
  by (auto simp: ready_entries_def ready_models_def image_image)

lemmas table_laws =
  rt.inv_sync [unfolded pool_sync_def] rt.inv_remove [unfolded pool_drop_def]
  rt.table_sync [unfolded pool_sync_def] rt.table_remove [unfolded pool_drop_def]

lemma poll_step_mirrors:
  assumes "event_ok hostname e" and "dyn_inv (snd mp)"
    and "map_of (nm_status (fst mp)) (Gateway_Config.n_Name (pe_node e)) \<noteq> None"
  shows "dyn_inv (snd (poll_step hostname e mp))"
    and "mirrors mp know name \<Longrightarrow> mirrors (poll_step hostname e mp) (\<lambda>n. hear n e (know n)) name"
    and "nm_nodes (fst (poll_step hostname e mp)) = nm_nodes (fst mp)"
    and "map_of (nm_status (fst mp)) k \<noteq> None \<Longrightarrow> map_of (nm_status (fst (poll_step hostname e mp))) k \<noteq> None"
proof -
  let ?n = "Gateway_Config.n_Name (pe_node e)"
  obtain m p where mp: "mp = (m, p)" by (cases mp)
  obtain st where st: "map_of (nm_status m) ?n = Some st" using assms(3) by (auto simp: mp)
  obtain host where host: "hostOf hostname (n_URL (pe_node e)) = Inr host" using assms(1) by (auto simp: event_ok_def)
  have ok: "slash_free ?n" "orders_ok (pe_orders e)" "dyn_inv p" using assms by (auto simp: event_ok_def mp)
  note step = poll_step_def poll_def mp st host
  show "dyn_inv (snd (poll_step hostname e mp))"
    using ok by (auto simp: step Let_def table_laws split: sum.split)
  show "nm_nodes (fst (poll_step hostname e mp)) = nm_nodes (fst mp)"
    by (auto simp: step Let_def split: sum.split)
  show "map_of (nm_status (fst (poll_step hostname e mp))) k \<noteq> None" if "map_of (nm_status (fst mp)) k \<noteq> None"
    using that by (auto simp: step Let_def split: sum.split)
  show "mirrors (poll_step hostname e mp) (\<lambda>n. hear n e (know n)) name" if "mirrors mp know name"
  proof (cases "pe_result e")
    case (Inl err)
    with that ok st show ?thesis
      by (cases "name = ?n"; cases "fst (know name)")
        (auto simp: mirrors_def step Let_def hear_def table_laws gives_up_def poll_failed_def)
  next
    case (Inr info)
    with that ok st show ?thesis
      by (cases "name = ?n") (auto simp: mirrors_def step Let_def hear_def table_laws poll_answered_def
          ready_entries_models)
  qed
qed

lemma polls_mirror:
  assumes "\<forall>e \<in> set evs. event_ok hostname e \<and> map_of (nm_status (fst mp)) (Gateway_Config.n_Name (pe_node e)) \<noteq> None"
    and "dyn_inv (snd mp)" and "mirrors mp know name"
  shows "dyn_inv (snd (fold (poll_step hostname) evs mp))
    \<and> mirrors (fold (poll_step hostname) evs mp) (\<lambda>n. fold (hear n) evs (know n)) name"
  using assms
proof (induction evs arbitrary: mp know)
  case (Cons e evs)
  have e: "event_ok hostname e" "map_of (nm_status (fst mp)) (Gateway_Config.n_Name (pe_node e)) \<noteq> None"
    using Cons.prems(1) by auto
  note step = poll_step_mirrors [OF e(1) Cons.prems(2) e(2)]
  have "\<forall>f \<in> set evs. event_ok hostname f \<and>
      map_of (nm_status (fst (poll_step hostname e mp))) (Gateway_Config.n_Name (pe_node f)) \<noteq> None"
    using Cons.prems(1) step(4) by auto
  from Cons.IH [OF this step(1) step(2) [OF Cons.prems(3)]] show ?case by simp
qed simp


lemma fold_update_distinct:
  "distinct (map key xs) \<Longrightarrow> set (map key xs) \<inter> fst ` set acc = {} \<Longrightarrow>
   fold (\<lambda>x. AList.update (key x) (f x)) xs acc = acc @ map (\<lambda>x. (key x, f x)) xs"
  by (induction xs arbitrary: acc) (auto simp: AList_update_new)

lemma NewNodeManager_nodes:
  assumes "distinct (map Gateway_Config.n_Name ns)"
  shows "map snd (nm_nodes (NewNodeManager ns)) = ns"
    and "n \<in> set ns \<Longrightarrow> \<exists>st. map_of (nm_status (NewNodeManager ns)) (Gateway_Config.n_Name n) = Some st \<and> ns_LastSeen st = None"
proof -
  let ?st = "\<lambda>n. \<lparr>ns_Name = Gateway_Config.n_Name n, ns_URL = n_URL n, ns_Reachable = False, ns_LastSeen = None,
      ns_LastError = [], ns_Info = None\<rparr>"
  note eq = fold_update_distinct [OF assms, of "[]", simplified]
  show "map snd (nm_nodes (NewNodeManager ns)) = ns"
    using eq [of "\<lambda>n. n"] by (simp add: NewNodeManager_def comp_def)
  show "\<exists>st. map_of (nm_status (NewNodeManager ns)) (Gateway_Config.n_Name n) = Some st \<and> ns_LastSeen st = None"
    if "n \<in> set ns"
  proof -
    have s: "nm_status (NewNodeManager ns) = map (\<lambda>n. (Gateway_Config.n_Name n, ?st n)) ns"
      using eq [of ?st] by (simp add: NewNodeManager_def)
    have "map_of (nm_status (NewNodeManager ns)) (Gateway_Config.n_Name n) = Some (?st n)"
      unfolding s by (rule map_of_is_SomeI) (use assms that in \<open>auto simp: comp_def\<close>)
    then show ?thesis by simp
  qed
qed

lemma fold_pollAll: "fold (pollAll hostname) rounds mp = fold (poll_step hostname) (concat rounds) mp"
  by (induction rounds arbitrary: mp) (simp_all add: pollAll_def)

definition polling_ok :: "(string \<Rightarrow> string + string) \<Rightarrow> Gateway_Config.Node list \<Rightarrow> Pool \<Rightarrow> poll_event list list \<Rightarrow> bool" where
  "polling_ok hostname ns p rounds \<longleftrightarrow>
     distinct (map Gateway_Config.n_Name ns) \<and>
     (\<forall>n \<in> set ns. slash_free (Gateway_Config.n_Name n) \<and> (\<exists>h. hostOf hostname (n_URL n) = Inr h)) \<and>
     dyn_inv p \<and> routes p = {} \<and>
     (\<forall>evs \<in> set rounds. round_ok (NewNodeManager ns) evs \<and> (\<forall>e \<in> set evs. orders_ok (pe_orders e)))"

lemma Start_polling_mirrors:
  assumes "polling_ok hostname ns p rounds" and "n \<in> set ns"
  shows "mirrors (Start_polling hostname rounds (NewNodeManager ns, p))
    (\<lambda>n. fold (hear n) (concat rounds) (None, {})) (Gateway_Config.n_Name n)"
proof -
  let ?m = "NewNodeManager ns"
  have d: "distinct (map Gateway_Config.n_Name ns)" using assms(1) by (simp add: polling_ok_def)
  have "nm_nodes ?m \<noteq> []" using NewNodeManager_nodes(1) [OF d] assms(2) by auto
  moreover have "pe_node e \<in> set ns" if "e \<in> set evs" "evs \<in> set rounds" for e evs
  proof -
    have "mset (map pe_node evs) = mset ns"
      using assms(1) that NewNodeManager_nodes(1) [OF d] by (simp add: polling_ok_def round_ok_def)
    then have "set (map pe_node evs) = set ns" by (metis set_mset_mset)
    with that(1) show ?thesis by auto
  qed
  then have "\<forall>e \<in> set (concat rounds). event_ok hostname e \<and>
      map_of (nm_status (fst (?m, p))) (Gateway_Config.n_Name (pe_node e)) \<noteq> None"
    using assms(1) NewNodeManager_nodes(2) [OF d] by (fastforce simp: polling_ok_def event_ok_def)
  moreover have "mirrors (?m, p) (\<lambda>_. (None, {})) (Gateway_Config.n_Name n)"
    using NewNodeManager_nodes(2) [OF d assms(2)] assms(1) by (simp add: mirrors_def polling_ok_def)
  ultimately show ?thesis
    using polls_mirror [of "concat rounds" hostname "(?m, p)"] assms(1)
    by (simp add: Start_polling_def fold_pollAll polling_ok_def)
qed

text \<open>
  C18: The routing pool implements the specification \<open>hear\<close> of what is known of a node: after any number of
  polling rounds, whatever the order in which the polls of a round finish, the pool routes a model to
  a node exactly when the specification says the node offers it.
\<close>

theorem node_routing:
  assumes "polling_ok hostname ns p rounds" and "n \<in> set ns"
  shows "(Gateway_Config.n_Name n, m) \<in> routes (snd (Start_polling hostname rounds (NewNodeManager ns, p))) \<longleftrightarrow>
    m \<in> snd (fold (hear (Gateway_Config.n_Name n)) (concat rounds) (None, {}))"
  using Start_polling_mirrors [OF assms] by (simp add: mirrors_def)

definition silent :: "string \<Rightarrow> poll_event \<Rightarrow> bool" where
  "silent name e \<longleftrightarrow> (Gateway_Config.n_Name (pe_node e) = name \<longrightarrow> (\<exists>err. pe_result e = Inl err))"

lemma hear_silent:
  assumes "\<forall>f \<in> set evs. silent name f"
  shows "fold (hear name) evs (Some t, ms) =
    (Some t, if \<exists>f \<in> set evs. Gateway_Config.n_Name (pe_node f) = name \<and> nodeUnreachableGrace < pe_now f - t
             then {} else ms)"
  using assms
proof (induction evs arbitrary: ms)
  case (Cons f evs)
  then have "silent name f" "\<forall>f \<in> set evs. silent name f" by auto
  then show ?case using Cons.IH by (auto simp: hear_def silent_def)
qed simp

text \<open>
  C19: A node that stops answering keeps its models for the grace period and then loses them: after its
  last answer at time \<open>t\<close>, its ready models stay routed as long as no failed poll comes later than ninety
  seconds after \<open>t\<close>, and none of them is routed any more once one has.
\<close>

theorem node_grace:
  assumes "polling_ok hostname ns p rounds" and "pe_node e \<in> set ns"
    and "concat rounds = before @ e # after" and "pe_result e = Inr info"
    and "name = Gateway_Config.n_Name (pe_node e)" and "\<forall>f \<in> set after. silent name f"
  shows "(name, m) \<in> routes (snd (Start_polling hostname rounds (NewNodeManager ns, p))) \<longleftrightarrow>
    m \<in> ready_models info \<and>
    (\<forall>f \<in> set after. Gateway_Config.n_Name (pe_node f) = name \<longrightarrow> pe_now f - pe_now e \<le> 90 * second)"
proof -
  have "hear name e k = (Some (pe_now e), ready_models info)" for k
    using assms(4,5) by (simp add: hear_def)
  then have "snd (fold (hear name) (concat rounds) (None, {})) =
      (if \<exists>f \<in> set after. Gateway_Config.n_Name (pe_node f) = name \<and> nodeUnreachableGrace < pe_now f - pe_now e
       then {} else ready_models info)"
    using hear_silent [OF assms(6), of "pe_now e" "ready_models info"] by (simp add: assms(3))
  then show ?thesis
    using Start_polling_mirrors [OF assms(1,2)] unfolding assms(5) [symmetric]
    by (auto simp: mirrors_def nodeUnreachableGrace_def not_less)
qed

subsection \<open>The monitor and the agent\<close>

text \<open>An agent at the other end: the request it is sent, and its answer as the monitor decodes it.\<close>

definition agent_send :: "(int \<Rightarrow> string) \<Rightarrow> machine \<Rightarrow> agent \<Rightarrow> string \<Rightarrow> call_out \<Rightarrow> Info exchange" where
  "agent_send status_text mc a base c =
     (let reply = fst (agent_Handler mc
            \<lparr>aq_Method = co_Method c, aq_Path = drop (length base) (co_URL c),
             aq_Authorization = (case co_Authorization c of Some h \<Rightarrow> h | None \<Rightarrow> []),
             aq_Spec = Inl [], aq_ServedName = None, aq_Repo = None, aq_Query = (\<lambda>_. [])\<rparr> a)
      in Answer (ar_Status reply) (status_text (ar_Status reply))
           (case ar_Body reply of AError msg \<Rightarrow> msg | _ \<Rightarrow> [])
           (case ar_Body reply of AInfo i \<Rightarrow> Inr i | _ \<Rightarrow> Inl ''unexpected answer''))"

lemma bearer_token: "t \<noteq> [] \<Longrightarrow> bearer (''Bearer '' @ t) = t"
  by (simp add: bearer_def)

text \<open>
  C20: Polling an agent: with the agent's token the answer is its status, and the poll leaves exactly
  the models routed to the node whose engines the supervisor reports ready; with any other token the call
  fails with the agent's message.
\<close>

theorem poll_of_agent:
  assumes "map_of (nm_nodes mgr) (Gateway_Config.n_Name n) = Some n" and "ag_Token a \<noteq> []"
    and "res = node_Info (agent_send status_text mc a (n_URL n)) mgr (Gateway_Config.n_Name n)"
    and "event_ok hostname \<lparr>pe_node = n, pe_now = now, pe_result = res, pe_orders = ord\<rparr>" and "dyn_inv p"
    and "map_of (nm_status mgr) (Gateway_Config.n_Name n) \<noteq> None"
  shows "(n_Token n = ag_Token a \<longrightarrow>
      {m. (Gateway_Config.n_Name n, m) \<in> routes (snd (poll ord hostname now res n (mgr, p)))} =
      {s_ServedName (v_Spec v) | v. v \<in> set (List_views (ag_Sup a)) \<and> v_State v = StateReady})
    \<and> (n_Token n \<noteq> ag_Token a \<longrightarrow> res = Inl (''node '' @ Gateway_Config.n_Name n @ '': invalid agent token''))"
proof -
  obtain st where st: "map_of (nm_status mgr) (Gateway_Config.n_Name n) = Some st" using assms(6) by auto
  obtain host where ok: "slash_free (Gateway_Config.n_Name n)" "orders_ok ord" "hostOf hostname (n_URL n) = Inr host"
    using assms(4) by (auto simp: event_ok_def)
  let ?req = "\<lparr>aq_Method = ''GET'', aq_Path = ''/v1/node/info'',
      aq_Authorization = (if n_Token n \<noteq> [] then ''Bearer '' @ n_Token n else []),
      aq_Spec = Inl [], aq_ServedName = None, aq_Repo = None, aq_Query = (\<lambda>_. [])\<rparr>"
  have bearer: "bearer (aq_Authorization ?req) = n_Token n" by (simp add: bearer_token) (simp add: bearer_def)
  have handler: "agent_Handler mc ?req a = auth (handleInfo mc) ?req a"
    by (simp add: agent_Handler_def agent_routes_def method_matches_def)
  have res: "res = call (agent_send status_text mc a (n_URL n)) mgr (Gateway_Config.n_Name n) ''GET'' ''/v1/node/info'' False"
    by (simp add: assms(3) node_Info_def)
  show ?thesis
  proof (cases "n_Token n = ag_Token a")
    case True
    then have "authorised ?req a" using bearer assms(2) by (simp add: authorised_def)
    then have reply: "agent_Handler mc ?req a = handleInfo mc ?req a" by (simp add: handler auth_grants)
    obtain info where info: "res = Inr info" "if_Instances info = List_views (ag_Sup a)"
      using True assms(1,2) reply
      by (auto simp: res call_def agent_send_def handleInfo_def agent_json_def Let_def)
    show ?thesis
      using True ok assms(5) info st
      by (auto simp: poll_def Let_def table_laws ready_entries_models ready_models_def)
  next
    case False
    then have "\<not> authorised ?req a" using bearer by (simp add: authorised_def)
    then have "agent_Handler mc ?req a = (writeErr 401 ''invalid agent token'', a)"
      by (simp add: handler auth_refuses)
    then show ?thesis using False assms(1)
      by (auto simp: res call_def agent_send_def writeErr_def Let_def split: if_splits)
  qed
qed


subsection \<open>Witnesses\<close>

definition gpu_node :: Gateway_Config.Node where
  "gpu_node = Gateway_Config.Node.make ''gpu'' ''http://h:1'' ''secret'' 4 1"

lemmas gpu_node_eq = gpu_node_def Gateway_Config.Node.defs

definition sample_host :: "string \<Rightarrow> string + string" where
  "sample_host u = Inr ''h''"

definition ready_view :: View where
  "ready_view = \<lparr>v_Spec = sample_spec, v_Port = 18001, v_State = StateReady, v_PID = 1, v_StartedAt = 0,
     v_ReadyAt = 0, v_Error = [], v_Restarts = 0, v_Command = []\<rparr>"

definition sample_info :: Info where
  "sample_info = \<lparr>if_Node = sample_node, if_Instances = [ready_view], if_EnginesAvailable = [''vllm''],
     if_SupportedArchs = [], if_RuntimeMode = ''native'', if_Version = ''1'', if_UptimeSeconds = 0\<rparr>"

definition gpu_poll :: "time \<Rightarrow> string + Info \<Rightarrow> poll_event" where
  "gpu_poll t res = \<lparr>pe_node = gpu_node, pe_now = t, pe_result = res, pe_orders = (\<lambda>x. x, \<lambda>x. x)\<rparr>"

definition sample_rounds :: "poll_event list list" where
  "sample_rounds = [[gpu_poll 0 (Inr sample_info)], [gpu_poll (20 * second) (Inl ''down'')]]"

lemma empty_pool_routes: "dyn_inv empty_pool" "routes empty_pool = {}"
  by (auto simp: dyn_inv_def empty_pool_def keys_ok_def heap_ok_def routes_def)

lemma sample_polling: "polling_ok sample_host [gpu_node] empty_pool sample_rounds"
  by (simp add: polling_ok_def empty_pool_routes sample_rounds_def round_ok_def gpu_poll_def orders_ok_def
      NewNodeManager_def gpu_node_eq slash_free_def hostOf_def sample_host_def)

lemma sample_ready: "ready_models sample_info = {''qwen''}"
  by (auto simp: ready_models_def sample_info_def ready_view_def sample_spec_def)

theorem node_routing_witness:
  "(''gpu'', ''qwen'') \<in> routes (snd (Start_polling sample_host sample_rounds (NewNodeManager [gpu_node], empty_pool)))"
  using node_routing [OF sample_polling, of gpu_node "''qwen''"]
  by (simp add: gpu_node_eq sample_rounds_def hear_def gpu_poll_def sample_ready nodeUnreachableGrace_def second_def)

theorem node_grace_witness:
  "(''gpu'', ''qwen'') \<in> routes (snd (Start_polling sample_host sample_rounds (NewNodeManager [gpu_node], empty_pool)))"
proof -
  let ?e = "gpu_poll 0 (Inr sample_info)" and ?f = "gpu_poll (20 * second) (Inl ''down'')"
  have "pe_node ?e \<in> set [gpu_node]" "concat sample_rounds = [] @ ?e # [?f]" "pe_result ?e = Inr sample_info"
    by (simp_all add: gpu_poll_def sample_rounds_def)
  moreover have "''gpu'' = Gateway_Config.n_Name (pe_node ?e)" "\<forall>f \<in> set [?f]. silent ''gpu'' f"
    by (simp_all add: gpu_poll_def gpu_node_eq silent_def)
  moreover have "\<forall>f \<in> set [?f]. Gateway_Config.n_Name (pe_node f) = ''gpu'' \<longrightarrow> pe_now f - pe_now ?e \<le> 90 * second"
    by (simp add: gpu_poll_def second_def)
  moreover have "''qwen'' \<in> ready_models sample_info" by (simp add: sample_ready)
  ultimately show ?thesis using node_grace [OF sample_polling] by blast
qed

theorem poll_of_agent_witness:
  "{m. (''gpu'', m) \<in> routes (snd (poll (\<lambda>x. x, \<lambda>x. x) sample_host 0
       (node_Info (agent_send (\<lambda>_. []) sample_machine sample_agent ''http://h:1'') (NewNodeManager [gpu_node]) ''gpu'')
       gpu_node (NewNodeManager [gpu_node], empty_pool)))} = {}"
proof -
  let ?res = "node_Info (agent_send (\<lambda>_. []) sample_machine sample_agent (n_URL gpu_node)) (NewNodeManager [gpu_node]) (Gateway_Config.n_Name gpu_node)"
  have "List_views (ag_Sup sample_agent) = []"
    by (simp add: sample_agent_def sample_supervisor_def NewSupervisor_def List_views_def)
  with poll_of_agent [of "NewNodeManager [gpu_node]" gpu_node sample_agent ?res "\<lambda>_. []" sample_machine
      sample_host 0 "(\<lambda>x. x, \<lambda>x. x)" empty_pool] empty_pool_routes
  show ?thesis
    by (simp add: NewNodeManager_def gpu_node_eq sample_agent_def event_ok_def slash_free_def orders_ok_def
        hostOf_def sample_host_def)
qed

end
