(* ===== verification/Model_Doc.thy ===== *)
theory Model_Doc
  imports Gateway_Catalog
begin

text \<open>
  The provider document (\<^verbatim>\<open>src/internal/modeldoc/modeldoc.go\<close>): what the gateway publishes of every
  configured model, in the shape of the provider schema. Go maps are association lists; \<^verbatim>\<open>time.Parse\<close>
  with the two layouts is an argument. Fields that the code never sets (the qualifiers of a price, the
  pass-through parameters, the deployment region) are left out.
\<close>

subsection \<open>Data\<close>

definition SchemaVersion :: string where "SchemaVersion = ''2.4''"

record Measure =
  me_Value :: int
  me_Unit :: string

record Price =
  px_Type :: string
  px_Unit :: string
  px_CostUSD :: string

record doc_Capacity =
  dx_Type :: string
  dx_Unit :: string
  dx_Per :: string
  dx_Value :: int

record Descriptor =
  de_Type :: string
  de_Min :: "rat option"
  de_Max :: "rat option"
  de_Unit :: string
  de_Values :: "string list"
  de_MaxItems :: "int option"

datatype supported = SMeasure Measure | SDescriptor Descriptor

record InputModality =
  im_Type :: string
  im_SupportedInputs :: "(string \<times> supported) list"
  im_Pricing :: "Price list"
  im_Capacity :: "doc_Capacity list"

record OutputModality =
  om_Type :: string
  om_MaxLength :: "Measure option"
  om_Streaming :: bool
  om_SupportedParameters :: "(string \<times> Descriptor) list"
  om_Pricing :: "Price list"
  om_Capacity :: "doc_Capacity list"

record Document =
  do_SchemaVersion :: string
  do_ID :: string
  do_Name :: string
  do_HuggingFaceID :: string
  do_Created :: int
  do_Quantization :: "string option"
  do_Tokenizer :: string
  do_Description :: string
  do_InputModalities :: "InputModality list"
  do_OutputModalities :: "OutputModality list"
  do_Capacity :: "doc_Capacity list"
  do_DeprecationDate :: string
  do_IsReady :: "bool option"
  do_IsFree :: bool
  do_DiscountToUser :: rat
  do_OpenRouter :: "string option"
  do_Datacenters :: "Datacenter list"
  do_Compliance :: "Compliance option"

subsection \<open>Rendering\<close>

definition rangeDesc :: "rat \<Rightarrow> rat \<Rightarrow> Descriptor" where
  "rangeDesc lo hi = \<lparr>de_Type = ''range'', de_Min = Some (fl64 lo), de_Max = Some (fl64 hi), de_Unit = [],
     de_Values = [], de_MaxItems = None\<rparr>"

definition intDesc :: "int \<Rightarrow> int \<Rightarrow> string \<Rightarrow> Descriptor" where
  "intDesc lo hi unit = \<lparr>de_Type = ''integer'', de_Min = Some (f_of_int lo), de_Max = Some (f_of_int hi),
     de_Unit = unit, de_Values = [], de_MaxItems = None\<rparr>"

definition plainDesc :: "string \<Rightarrow> Descriptor" where
  "plainDesc t = \<lparr>de_Type = t, de_Min = None, de_Max = None, de_Unit = [], de_Values = [], de_MaxItems = None\<rparr>"

definition boolDesc :: Descriptor where "boolDesc = plainDesc ''boolean''"

definition enumDesc :: "string list \<Rightarrow> Descriptor" where
  "enumDesc vs = (plainDesc ''enum'')\<lparr>de_Values := vs\<rparr>"

definition appendPrice :: "Price list \<Rightarrow> string \<Rightarrow> string \<Rightarrow> string \<Rightarrow> Price list" where
  "appendPrice dst typ unit cost =
     (if cost = [] then dst else dst @ [\<lparr>px_Type = typ, px_Unit = unit, px_CostUSD = cost\<rparr>])"

definition limit :: "string \<Rightarrow> string \<Rightarrow> string \<Rightarrow> int \<Rightarrow> doc_Capacity list" where
  "limit typ unit per v =
     (if v > 0 then [\<lparr>dx_Type = typ, dx_Unit = unit, dx_Per = per, dx_Value = v\<rparr>] else [])"

definition text_input :: "Model \<Rightarrow> InputModality" where
  "text_input m =
     (let pr = m_Pricing m; ca = m_Capacity m
      in \<lparr>im_Type = ''text'',
          im_SupportedInputs = [(''max_context_length'', SMeasure \<lparr>me_Value = m_ContextLength m, me_Unit = ''token''\<rparr>)],
          im_Pricing =
            (if m_IsFree m then []
             else appendPrice (appendPrice (appendPrice [] ''prompt'' ''token'' (pr_Prompt pr))
                    ''cached_prompt'' ''token'' (pr_CachedPrompt pr)) ''cache_write'' ''token'' (pr_CacheWrite pr)),
          im_Capacity =
            limit ''prompt'' ''token'' ''minute'' (cap_PromptTPM ca) @
            limit ''cached_prompt'' ''token'' ''minute'' (cap_CachedPromptTPM ca)\<rparr>)"

definition image_input :: "Model \<Rightarrow> Vision \<Rightarrow> InputModality" where
  "image_input m v =
     (let formats = (if v_Formats v = [] then [''image/png'', ''image/jpeg'', ''image/webp''] else v_Formats v)
      in \<lparr>im_Type = ''image'',
          im_SupportedInputs =
            [(''sources'', SDescriptor (enumDesc [''url'', ''base64''])),
             (''formats'', SDescriptor (enumDesc formats))] @
            (if v_MaxImageBytes v > 0
             then [(''max_content_size_bytes'', SMeasure \<lparr>me_Value = v_MaxImageBytes v, me_Unit = ''byte''\<rparr>)] else []),
          im_Pricing =
            (if m_IsFree m then [] else appendPrice [] ''prompt'' ''image'' (pr_ImagePrompt (m_Pricing m))),
          im_Capacity = []\<rparr>)"

definition buildInputs :: "Model \<Rightarrow> InputModality list" where
  "buildInputs m = text_input m # (case m_Vision m of None \<Rightarrow> [] | Some v \<Rightarrow> [image_input m v])"

definition text_parameters :: "Model \<Rightarrow> (string \<times> Descriptor) list" where
  "text_parameters m =
     (let fs = m_Features m in
      [(''temperature'', rangeDesc 0 2), (''top_p'', rangeDesc 0 1), (''top_k'', intDesc 0 1000 []),
       (''min_p'', rangeDesc 0 1), (''frequency_penalty'', rangeDesc (-2) 2),
       (''presence_penalty'', rangeDesc (-2) 2), (''repetition_penalty'', rangeDesc (fl64 (1 / 10)) 2),
       (''max_tokens'', intDesc 1 (m_MaxOutputTokens m) ''token''),
       (''stop'', (plainDesc ''array'')\<lparr>de_MaxItems := Some 4\<rparr>)] @
      (if f_Tools fs
       then [(''tools'', boolDesc), (''tool_choice'', enumDesc [''none'', ''auto'', ''required''])] else []) @
      (if f_StructuredOutputs fs then [(''structured_outputs'', boolDesc)] else []) @
      (if f_ResponseFormat fs then [(''response_format'', plainDesc ''object'')] else []) @
      (if f_Reasoning fs then [(''reasoning'', boolDesc)] else []) @
      (if f_Seed fs then [(''seed'', intDesc 0 2147483647 [])] else []) @
      (if f_Logprobs fs then [(''logprobs'', boolDesc), (''top_logprobs'', intDesc 0 20 [])] else []))"

definition buildTextOutput :: "Model \<Rightarrow> OutputModality" where
  "buildTextOutput m =
     \<lparr>om_Type = ''text'',
      om_MaxLength = Some \<lparr>me_Value = m_MaxOutputTokens m, me_Unit = ''token''\<rparr>,
      om_Streaming = True, om_SupportedParameters = text_parameters m,
      om_Pricing =
        (if m_IsFree m then []
         else appendPrice (appendPrice [] ''completion'' ''token'' (pr_Completion (m_Pricing m)))
                ''internal_reasoning'' ''token'' (pr_InternalReasoning (m_Pricing m))),
      om_Capacity =
        limit ''completion'' ''token'' ''minute'' (cap_CompletionTPM (m_Capacity m)) @
        limit ''concurrency'' ''request'' [] (cap_Concurrency (m_Capacity m))\<rparr>"

definition parseCreated :: "(string \<Rightarrow> string \<Rightarrow> int option) \<Rightarrow> string \<Rightarrow> int" where
  "parseCreated time_parse s =
     (if s = [] then 0
      else case time_parse ''2006-01-02T15:04:05Z07:00'' s of
        Some t \<Rightarrow> t
      | None \<Rightarrow> (case time_parse ''2006-01-02'' s of Some t \<Rightarrow> t | None \<Rightarrow> 0))"

definition BuildOne :: "(string \<Rightarrow> string \<Rightarrow> int option) \<Rightarrow> Model \<Rightarrow> Document" where
  "BuildOne time_parse m =
     \<lparr>do_SchemaVersion = SchemaVersion, do_ID = m_ID m, do_Name = m_Name m, do_HuggingFaceID = m_HuggingFaceID m,
      do_Created = parseCreated time_parse (m_Created m),
      do_Quantization = (if m_Quantization m \<noteq> [] then Some (m_Quantization m) else None),
      do_Tokenizer = m_Tokenizer m, do_Description = m_Description m,
      do_InputModalities = buildInputs m, do_OutputModalities = [buildTextOutput m],
      do_Capacity = limit ''request'' ''request'' ''minute'' (cap_RequestsPerMin (m_Capacity m)),
      do_DeprecationDate = m_DeprecationDate m, do_IsReady = m_IsReady m, do_IsFree = m_IsFree m,
      do_DiscountToUser = m_DiscountToUser m,
      do_OpenRouter = (if m_OpenRouterSlug m \<noteq> [] then Some (m_OpenRouterSlug m) else None),
      do_Datacenters = m_Datacenters m, do_Compliance = Some (m_Compliance m)\<rparr>"

definition Build :: "(string \<Rightarrow> string \<Rightarrow> int option) \<Rightarrow> Config \<Rightarrow> Document list" where
  "Build time_parse cfg = map (BuildOne time_parse) (c_Models cfg)"

subsection \<open>Published and charged\<close>

text \<open>The price the document publishes for a unit of a kind; a kind that is not listed is not billed.\<close>

definition doc_prices :: "Document \<Rightarrow> Price list" where
  "doc_prices d = concat (map im_Pricing (do_InputModalities d)) @ concat (map om_Pricing (do_OutputModalities d))"

definition published :: "Document \<Rightarrow> string \<Rightarrow> rat" where
  "published d typ =
     (case find (\<lambda>p. px_Type p = typ \<and> px_Unit p = ''token'') (doc_prices d) of
        None \<Rightarrow> 0 | Some p \<Rightarrow> parsePrice (px_CostUSD p))"

lemma find_appendPrice:
  "find P (appendPrice ps typ unit cost) =
     (case find P ps of
        Some p \<Rightarrow> Some p
      | None \<Rightarrow> if cost \<noteq> [] \<and> P \<lparr>px_Type = typ, px_Unit = unit, px_CostUSD = cost\<rparr>
               then Some \<lparr>px_Type = typ, px_Unit = unit, px_CostUSD = cost\<rparr> else None)"
  by (auto simp: appendPrice_def find_append split: option.split)

lemma parsePrice_Nil [simp]: "parsePrice [] = 0"
  by (simp add: parsePrice_def)

lemma modality_prices:
  "im_Pricing (text_input m) = (if m_IsFree m then []
     else appendPrice (appendPrice (appendPrice [] ''prompt'' ''token'' (pr_Prompt (m_Pricing m)))
       ''cached_prompt'' ''token'' (pr_CachedPrompt (m_Pricing m))) ''cache_write'' ''token'' (pr_CacheWrite (m_Pricing m)))"
  "im_Pricing (image_input m v) = (if m_IsFree m then []
     else appendPrice [] ''prompt'' ''image'' (pr_ImagePrompt (m_Pricing m)))"
  "om_Pricing (buildTextOutput m) = (if m_IsFree m then []
     else appendPrice (appendPrice [] ''completion'' ''token'' (pr_Completion (m_Pricing m)))
       ''internal_reasoning'' ''token'' (pr_InternalReasoning (m_Pricing m)))"
  by (simp_all add: text_input_def image_input_def buildTextOutput_def Let_def)

lemma doc_prices_BuildOne:
  "doc_prices (BuildOne tp m) = im_Pricing (text_input m) @
     (case m_Vision m of None \<Rightarrow> [] | Some v \<Rightarrow> im_Pricing (image_input m v)) @ om_Pricing (buildTextOutput m)"
  by (cases "m_Vision m") (simp_all add: doc_prices_def BuildOne_def buildInputs_def)

lemma published_free: "m_IsFree m \<Longrightarrow> doc_prices (BuildOne tp m) = []"
  by (simp add: doc_prices_BuildOne modality_prices split: option.split)

lemma published_price:
  assumes "\<not> m_IsFree m"
  shows "published (BuildOne tp m) ''prompt'' = parsePrice (pr_Prompt (m_Pricing m))"
    and "published (BuildOne tp m) ''cached_prompt'' = parsePrice (pr_CachedPrompt (m_Pricing m))"
    and "published (BuildOne tp m) ''completion'' = parsePrice (pr_Completion (m_Pricing m))"
    and "published (BuildOne tp m) ''internal_reasoning'' = parsePrice (pr_InternalReasoning (m_Pricing m))"
  using assms
  by (simp_all add: published_def doc_prices_BuildOne modality_prices find_append find_appendPrice split: option.split)

text \<open>
  C29: The gateway charges what it publishes. For every document of a configuration whose models have
  distinct ids, the catalog has an entry of that id: it is free exactly when the document says so, and
  then the document lists no price; otherwise its four rates are the published ones, and a kind of token
  that is not listed is not charged.
\<close>

theorem published_prices_charged:
  assumes "distinct (map m_ID (c_Models cfg))" and "d \<in> set (Build tp cfg)"
  shows "\<exists>e. Catalog_Get (NewCatalog cfg) (do_ID d) = Some e
    \<and> e_IsFree e = do_IsFree d \<and> e_DiscountToUser e = do_DiscountToUser d
    \<and> (do_IsFree d \<longrightarrow> doc_prices d = [] \<and> (\<forall>p c k r. Cost e p c k r = 0))
    \<and> (\<not> do_IsFree d \<longrightarrow>
        e_PromptUSD e = published d ''prompt'' \<and> e_CachedPromptUSD e = published d ''cached_prompt'' \<and>
        e_CompletionUSD e = published d ''completion'' \<and> e_ReasoningUSD e = published d ''internal_reasoning'')"
proof -
  obtain m where m: "m \<in> set (c_Models cfg)" "d = BuildOne tp m" using assms(2) by (auto simp: Build_def)
  have id: "do_ID d = m_ID m" "do_IsFree d = m_IsFree m" "do_DiscountToUser d = m_DiscountToUser m"
    by (simp_all add: m(2) BuildOne_def)
  have "find_model cfg (m_ID m) = Some m"
  proof -
    have "find_model cfg (m_ID m) \<noteq> None" using m(1) by (auto simp: find_model_def find_None_iff)
    then obtain m' where "find_model cfg (m_ID m) = Some m'" by auto
    moreover from this have "m' \<in> set (c_Models cfg)" "m_ID m' = m_ID m" by (auto simp: find_model_def dest: find_SomeD)
    ultimately show ?thesis using m(1) assms(1) by (metis distinct_map inj_onD)
  qed
  then have "Catalog_Get (NewCatalog cfg) (do_ID d) = Some (mk_entry m)"
    by (simp add: id Catalog_Get_NewCatalog [OF assms(1)])
  moreover have "e_IsFree (mk_entry m) = m_IsFree m" "e_DiscountToUser (mk_entry m) = m_DiscountToUser m"
      "e_PromptUSD (mk_entry m) = parsePrice (pr_Prompt (m_Pricing m))"
      "e_CachedPromptUSD (mk_entry m) = parsePrice (pr_CachedPrompt (m_Pricing m))"
      "e_CompletionUSD (mk_entry m) = parsePrice (pr_Completion (m_Pricing m))"
      "e_ReasoningUSD (mk_entry m) = parsePrice (pr_InternalReasoning (m_Pricing m))"
    by (simp_all add: mk_entry_def Let_def)
  moreover have "m_IsFree m \<Longrightarrow> Cost (mk_entry m) p c k r = 0" for p c k r
    by (simp add: Cost_def calculation)
  ultimately show ?thesis
    using published_price [of m tp, folded m(2)] published_free [of m tp, folded m(2)] by (simp add: id)
qed

theorem published_prices_charged_witness:
  "\<exists>e. Catalog_Get (NewCatalog sample_config) (do_ID (BuildOne (\<lambda>_ _. None) (hd (c_Models sample_config)))) = Some e"
proof -
  have "distinct (map m_ID (c_Models sample_config))" by (simp add: sample_config_def)
  moreover have "BuildOne (\<lambda>_ _. None) (hd (c_Models sample_config)) \<in> set (Build (\<lambda>_ _. None) sample_config)"
    by (simp add: Build_def sample_config_def)
  ultimately show ?thesis using published_prices_charged by blast
qed

end
