(* ===== verification/Gateway_Server.thy ===== *)
theory Gateway_Server
  imports Gateway_Nodes Model_Doc Gateway_Auth
begin

text \<open>
  The gateway as a whole (\<^verbatim>\<open>src/internal/gateway/server.go\<close>): the state a running gateway holds, how it is
  built from a configuration, how the configuration is read again from disk, and the public pages that
  need no key. \<open>files\<close> is what surrounds the process: the environment, the configuration file, the YAML
  library and the failures of the operating system; the model directory itself is part of the state,
  because the gateway writes it.
\<close>

record files =
  fw_env :: "string \<Rightarrow> string"
  fw_absolute_url :: "string \<Rightarrow> bool"
  fw_readFile :: "string \<Rightarrow> bytes option"
  fw_decodeConfig :: "bytes \<Rightarrow> string + Config"
  fw_decode :: "bytes \<Rightarrow> string + Model"
  fw_encode :: "Model \<Rightarrow> string + bytes"
  fw_readDir :: "string \<Rightarrow> dir_state"
  fw_mkdir_ok :: bool
  fw_write_ok :: bool
  fw_rename_ok :: bool
  fw_time_parse :: "string \<Rightarrow> string \<Rightarrow> int option"

record site =
  si_cfg :: Config
  si_catalog :: Catalog
  si_models :: "Document list"
  si_gateway :: gateway
  si_nodes :: NodeManager
  si_pool :: Pool
  si_configPath :: string
  si_modelDir :: string
  si_dir :: dir_state
  si_startedAt :: time

definition rebuildModels :: "files \<Rightarrow> site \<Rightarrow> site" where
  "rebuildModels w s = s\<lparr>si_models := Build (fw_time_parse w) (si_cfg s)\<rparr>"

definition New :: "files \<Rightarrow> Config \<Rightarrow> gateway \<Rightarrow> Pool \<Rightarrow> dir_state \<Rightarrow> time \<Rightarrow> site" where
  "New w cfg g pool d now =
     rebuildModels w
       \<lparr>si_cfg = cfg, si_catalog = NewCatalog cfg, si_models = [], si_gateway = g,
        si_nodes = NewNodeManager (c_Nodes cfg), si_pool = pool, si_configPath = [], si_modelDir = [],
        si_dir = d, si_startedAt = now\<rparr>"

definition SetConfigPath :: "string \<Rightarrow> site \<Rightarrow> site" where
  "SetConfigPath path s = s\<lparr>si_configPath := path, si_modelDir := ModelDirPath (si_cfg s) path\<rparr>"

text \<open>\<^verbatim>\<open>Reload\<close> replaces the configuration and the catalog and empties the key cache; the pool and the nodes stay.\<close>

definition Reload :: "files \<Rightarrow> Config \<Rightarrow> site \<Rightarrow> site" where
  "Reload w cfg s =
     (let s = s\<lparr>si_cfg := cfg, si_catalog := Replace cfg\<rparr>;
          s = rebuildModels w s
      in s\<lparr>si_gateway := cache_purge (si_gateway s)\<rparr>)"

datatype reload_error = PathUnknown | LoadFailed config_error

definition site_readDir :: "files \<Rightarrow> site \<Rightarrow> string \<Rightarrow> dir_state" where
  "site_readDir w s d = (if d = si_modelDir s then si_dir s else fw_readDir w d)"

definition ReloadFromDisk :: "files \<Rightarrow> site \<Rightarrow> reload_error option \<times> site" where
  "ReloadFromDisk w s =
     (if si_configPath s = [] then (Some PathUnknown, s)
      else case Load (fw_env w) (fw_absolute_url w) (fw_readFile w) (fw_decodeConfig w) (fw_decode w)
                  (site_readDir w s) (si_configPath s) of
        Inl e \<Rightarrow> (Some (LoadFailed e), s)
      | Inr cfg \<Rightarrow> (None, Reload w cfg s))"

subsection \<open>Public pages\<close>

definition handleModels :: "site \<Rightarrow> Document list" where
  "handleModels s = si_models s"

record backendHealth =
  bh_Name :: string
  bh_Healthy :: bool
  bh_Inflight :: int
  bh_MaxConc :: int
  bh_LastErr :: string

record healthPage =
  hp_Status :: string
  hp_Uptime :: rat
  hp_Models :: int
  hp_Backends :: "backendHealth list"

definition backend_health :: "Backend \<Rightarrow> backendHealth" where
  "backend_health b = \<lparr>bh_Name = b_Name b, bh_Healthy = Healthy b, bh_Inflight = Inflight b,
     bh_MaxConc = MaxConc b, bh_LastErr = LastErr b\<rparr>"

definition handleHealth :: "(bref list \<Rightarrow> bref list) \<Rightarrow> time \<Rightarrow> site \<Rightarrow> int \<times> healthPage" where
  "handleHealth ord now s =
     (let bs = map (\<lambda>b. p_heap (si_pool s) ! b) (Backends ord (si_pool s));
          anyUp = list_ex Healthy bs
      in (if anyUp then 200 else 503,
          \<lparr>hp_Status = (if anyUp then ''ok'' else ''degraded''),
           hp_Uptime = seconds_between (si_startedAt s) now,
           hp_Models = int (length (Catalog_IDs (\<lambda>xs. xs) (si_catalog s))),
           hp_Backends = map backend_health bs\<rparr>))"

datatype root_page = NotFoundPage | RootPage string string

definition handleRoot :: "string \<Rightarrow> site \<Rightarrow> int \<times> root_page" where
  "handleRoot path s =
     (if path \<noteq> ''/'' then (404, NotFoundPage)
      else (200, RootPage (p_DisplayName (c_Provider (si_cfg s))) (p_Slug (c_Provider (si_cfg s)))))"

text \<open>\<^verbatim>\<open>withRecovery\<close>: a handler that panics leaves the process running and the answer as far as it was written.\<close>

datatype 'a outcome = Finished 'a | Panicked 'a

definition withRecovery :: "('s \<Rightarrow> ('s outcome)) \<Rightarrow> 's \<Rightarrow> 's" where
  "withRecovery h s = (case h s of Finished t \<Rightarrow> t | Panicked t \<Rightarrow> t)"

subsection \<open>The state a gateway is in\<close>

text \<open>The catalog and the published document always describe the configuration that is live.\<close>

definition site_ok :: "files \<Rightarrow> site \<Rightarrow> bool" where
  "site_ok w s \<longleftrightarrow> si_catalog s = NewCatalog (si_cfg s) \<and> si_models s = Build (fw_time_parse w) (si_cfg s)"

lemma site_ok_New: "site_ok w (New w cfg g pool d now)"
  by (simp add: site_ok_def New_def rebuildModels_def)

lemma site_ok_Reload: "site_ok w (Reload w cfg s)"
  by (simp add: site_ok_def Reload_def rebuildModels_def NewCatalog_def Let_def)

lemma Reload_sel [simp]:
  "si_cfg (Reload w cfg s) = cfg" "si_nodes (Reload w cfg s) = si_nodes s" "si_pool (Reload w cfg s) = si_pool s"
  "si_configPath (Reload w cfg s) = si_configPath s" "si_modelDir (Reload w cfg s) = si_modelDir s"
  "si_dir (Reload w cfg s) = si_dir s" "si_catalog (Reload w cfg s) = NewCatalog cfg"
  "si_models (Reload w cfg s) = Build (fw_time_parse w) cfg"
  by (simp_all add: Reload_def rebuildModels_def NewCatalog_def Let_def)

lemma ReloadFromDisk_cases:
  obtains (kept) e where "ReloadFromDisk w s = (Some e, s)"
    | (loaded) cfg where "ReloadFromDisk w s = (None, Reload w cfg s)" "si_configPath s \<noteq> []"
        "Load (fw_env w) (fw_absolute_url w) (fw_readFile w) (fw_decodeConfig w) (fw_decode w)
           (site_readDir w s) (si_configPath s) = Inr cfg"
  unfolding ReloadFromDisk_def
  by (cases "si_configPath s = []";
      cases "Load (fw_env w) (fw_absolute_url w) (fw_readFile w) (fw_decodeConfig w) (fw_decode w)
           (site_readDir w s) (si_configPath s)") auto

lemma Load_config_ok:
  assumes "Load env au readFile decodeConfig decode readDir path = Inr c"
  shows "config_ok au c"
proof -
  from assms have "Validate au c = None"
    by (auto simp: Load_def Let_def split: option.splits sum.splits)
  then show ?thesis by (simp add: Validate_None)
qed

text \<open>
  C23: Reloading is all or nothing. A configuration that cannot be read, decoded or validated leaves the
  running gateway exactly as it was; one that loads is validated, its models are the whole catalog and
  the whole published document, and no cached key decision survives; the pool with its slots is untouched.
\<close>

theorem reload_atomic:
  assumes "ReloadFromDisk w s = (err, s')"
  shows "(err \<noteq> None \<longrightarrow> s' = s)
    \<and> (err = None \<longrightarrow> config_ok (fw_absolute_url w) (si_cfg s') \<and> site_ok w s'
        \<and> (\<forall>mid. Catalog_Get (si_catalog s') mid \<noteq> None \<longleftrightarrow> mid \<in> m_ID ` set (c_Models (si_cfg s')))
        \<and> map do_ID (handleModels s') = map m_ID (c_Models (si_cfg s'))
        \<and> g_keys (si_gateway s') = [] \<and> si_pool s' = si_pool s)"
proof (cases rule: ReloadFromDisk_cases [of w s])
  case (kept e)
  with assms show ?thesis by auto
next
  case (loaded cfg)
  have ok: "config_ok (fw_absolute_url w) cfg" by (rule Load_config_ok [OF loaded(3)])
  then have d: "distinct (map m_ID (c_Models cfg))" by (simp add: config_ok_def)
  have e: "err = None" "s' = Reload w cfg s" using assms loaded(1) by simp_all
  have cat: "Catalog_Get (NewCatalog cfg) mid \<noteq> None \<longleftrightarrow> mid \<in> m_ID ` set (c_Models cfg)" for mid
    by (auto simp: Catalog_Get_NewCatalog [OF d] find_model_def find_None_iff)
  have "g_keys (si_gateway (Reload w cfg s)) = []"
    by (simp add: Reload_def rebuildModels_def cache_purge_def Let_def)
  then show ?thesis
    using ok site_ok_Reload [of w cfg s]
    by (simp add: e cat handleModels_def Build_def BuildOne_def comp_def del: not_None_eq)
qed

definition sample_files :: files where
  "sample_files = \<lparr>fw_env = (\<lambda>_. ''secret''), fw_absolute_url = (\<lambda>u. HasPrefix u ''http://''),
     fw_readFile = (\<lambda>_. Some []), fw_decodeConfig = (\<lambda>_. Inr sample_config),
     fw_decode = one_doc_decode ''a/b'', fw_encode = one_doc_encode ''a/b'', fw_readDir = (\<lambda>_. Missing),
     fw_mkdir_ok = True, fw_write_ok = True, fw_rename_ok = True, fw_time_parse = (\<lambda>_ _. None)\<rparr>"

definition sample_gateway :: gateway where
  "sample_gateway = \<lparr>g_db = empty_db, g_keys = [], g_windows = [], g_logins = [], g_log = log_init,
     g_AdminToken = ''t''\<rparr>"

definition sample_site :: site where
  "sample_site = SetConfigPath ''config.yaml'' (New sample_files sample_config sample_gateway empty_pool (Listing []) 0)"

theorem reload_atomic_witness:
  "config_ok (fw_absolute_url sample_files) (si_cfg (snd (ReloadFromDisk sample_files sample_site)))"
proof -
  have "fst (ReloadFromDisk sample_files sample_site) = None" by code_simp
  with reload_atomic [OF prod.collapse [symmetric], of sample_files sample_site] show ?thesis by blast
qed

end
