(* ===== verification/Gateway_Provision.thy ===== *)
theory Gateway_Provision
  imports Gateway_Server Model_Plan Model_Search
begin

text \<open>
  Installing models from the admin pages (\<^verbatim>\<open>src/internal/gateway/provision.go\<close>): inspecting a model
  against every node, installing it on one, publishing and uninstalling it, and the requests passed on to
  a node. A handler takes the decoded body and what the outside answers (the model registry, the node's
  agent) and returns the answer with the new state; \<open>adminInstall\<close> also returns the specification it
  sent to the node, if it came that far.
\<close>

subsection \<open>Names\<close>

definition orDefault :: "string \<Rightarrow> string \<Rightarrow> string" where
  "orDefault v def = (if TrimSpace v = [] then def else v)"

definition contains :: "string list \<Rightarrow> string \<Rightarrow> bool" where
  "contains haystack needle = list_ex (\<lambda>s. s = needle) haystack"

definition SuggestModelID :: "string \<Rightarrow> string" where
  "SuggestModelID hfID =
     (let i = TrimSpace hfID
      in if IsLocalPath i then ''local/'' @ ToLower (path_base (TrimRight i ''/'')) else ToLower i)"

definition SuggestDisplayName :: "string \<Rightarrow> string" where
  "SuggestDisplayName hfID =
     (if IsLocalPath hfID then path_base (TrimRight hfID ''/'')
      else case Cut hfID ''/'' of (owner, name, ok) \<Rightarrow>
        if \<not> ok then hfID else owner @ '': '' @ ReplaceAll name ''-'' '' '')"

definition normalizeQuant :: "string \<Rightarrow> string" where
  "normalizeQuant q0 =
     (let q = ToLower q0
      in if q = ''fp8'' then ''fp8''
         else if q \<in> {''awq'', ''gptq'', ''int4'', ''q4_k_m'', ''q4_0'', ''iq4_xs''} then ''int4''
         else if q \<in> {''q8_0'', ''int8''} then ''int8''
         else if q \<in> {''nvfp4'', ''fp4'', ''mxfp4''} then ''fp4''
         else if q \<in> {''bf16'', ''fp16'', ''float16'', ''bfloat16''} then ''bf16''
         else if q \<in> {''fp32'', ''float32''} then ''fp32''
         else if q = ''compressed-tensors'' then ''unknown''
         else [])"

subsection \<open>The registry as the handlers use it\<close>

record hf_world =
  hf_client :: Client
  hf_reg :: registry
  hf_disk :: disk
  hf_ord :: "(string \<times> (int \<times> string) option) list \<Rightarrow> (string \<times> (int \<times> string) option) list"
  hf_ord2 :: "(string \<times> int) list \<Rightarrow> (string \<times> int) list"

definition hf_Fetch :: "hf_world \<Rightarrow> string \<Rightarrow> string + Model_Spec.Info" where
  "hf_Fetch h = Fetch (hf_ord h) (hf_ord2 h) (hf_client h) (hf_reg h) (hf_disk h)"

datatype message = Msg string | ConfigMsg string config_error | ReloadMsg reload_error

datatype admin_reply = Refused int string message | Granted int

subsection \<open>Inspecting\<close>

record NodePlan =
  np_Node :: string
  np_Reachable :: bool
  np_Reason :: string
  np_Hardware :: "Model_Hardware.Node option"
  np_Engines :: "string list"
  np_Plan :: "Plan option"

record InspectResult =
  ir_Info :: Model_Spec.Info
  ir_SuggestedID :: string
  ir_SuggestedName :: string
  ir_Pricing :: "string \<times> string \<times> string"
  ir_Plans :: "NodePlan list"
  ir_GGUFCandidates :: "GGUFCandidate list"
  ir_GGUFError :: string
  ir_QuantCandidates :: "QuantCandidate list"
  ir_QuantError :: string
  ir_AlreadyInstalled :: bool

definition refuse_plan :: "string \<Rightarrow> Plan \<Rightarrow> Plan" where
  "refuse_plan why p = p\<lparr>p_Fits := False, p_Viable := False, p_Blockers := p_Blockers p @ [why]\<rparr>"

definition arch_blocker :: "string \<Rightarrow> string" where
  "arch_blocker arch =
     ''the vLLM installed on this node does not implement '' @ arch @ ''. That is a version '' @
     ''question, not a hardware one: upgrade vLLM to a release that supports it, '' @
     ''keeping torch within what this host'' @ [CHR 0x27] @ ''s driver can run''"

definition node_plan :: "Model_Spec.Info \<Rightarrow> int \<Rightarrow> NodeStatus \<Rightarrow> NodePlan" where
  "node_plan info want st =
     (case (ns_Reachable st, ns_Info st) of
        (True, Some ai) \<Rightarrow>
          (let plan = PlanFor info (if_Node ai) want;
               plan = (if \<not> contains (if_EnginesAvailable ai) (p_Engine plan)
                       then refuse_plan (p_Engine plan @ '' is not installed on this node'') plan else plan);
               plan = (if p_Engine plan = ''vllm'' \<and> if_SupportedArchs ai \<noteq> [] \<and> i_Architecture info \<noteq> [] \<and>
                          \<not> contains (if_SupportedArchs ai) (i_Architecture info)
                       then refuse_plan (arch_blocker (i_Architecture info)) plan else plan)
           in \<lparr>np_Node = ns_Name st, np_Reachable = True, np_Reason = [], np_Hardware = Some (if_Node ai),
               np_Engines = if_EnginesAvailable ai, np_Plan = Some plan\<rparr>)
      | _ \<Rightarrow>
          \<lparr>np_Node = ns_Name st, np_Reachable = ns_Reachable st,
           np_Reason = (if ns_LastError st = [] then ''not yet contacted'' else ns_LastError st),
           np_Hardware = None, np_Engines = [], np_Plan = None\<rparr>)"

text \<open>The plan before the node's engines are considered decides which other publications are looked for.\<close>

definition raw_plans :: "Model_Spec.Info \<Rightarrow> int \<Rightarrow> NodeStatus list \<Rightarrow> Plan list" where
  "raw_plans info want sts =
     List.map_filter (\<lambda>st. if ns_Reachable st then map_option (\<lambda>ai. PlanFor info (if_Node ai) want) (ns_Info st) else None) sts"

definition needGGUF :: "Model_Spec.Info \<Rightarrow> Plan list \<Rightarrow> bool" where
  "needGGUF info ps = list_ex (\<lambda>p. p_Engine p = ''llamacpp'' \<and> \<not> i_Local info) ps"

definition runnable_quants :: "Plan list \<Rightarrow> string list" where
  "runnable_quants ps = concat (map p_RunnableQuants (filter p_NeedsQuantized ps))"

definition adminInspect ::
  "hf_world \<Rightarrow> (NodeStatus list \<Rightarrow> NodeStatus list) \<Rightarrow> string \<Rightarrow> int \<Rightarrow> site \<Rightarrow> admin_reply + InspectResult" where
  "adminInspect h ord hfid0 want s =
     (let hfid = TrimSpace hfid0
      in if hfid = [] then
           Inl (Refused 400 ''invalid_request_error'' (Msg (''hf_id is required, for example '' @ quote_q ''Qwen/Qwen3-8B'')))
         else case hf_Fetch h hfid of
           Inl e \<Rightarrow> Inl (Refused 400 ''invalid_request_error'' (Msg e))
         | Inr info \<Rightarrow>
             let sts = Statuses ord (si_nodes s);
                 raw = raw_plans info want sts;
                 gguf = (if needGGUF info raw then ResolveGGUF (hf_client h) (hf_reg h) (i_ID info) else Inr []);
                 wanted = (\<lambda>c. contains (runnable_quants raw) (q_Quant c));
                 quant = (if list_ex p_NeedsQuantized raw then
                            (case ResolveQuantized (hf_client h) (hf_reg h) (i_ID info) of
                               Inl e \<Rightarrow> Inl e
                             | Inr cs \<Rightarrow>
                                 if filter wanted cs = []
                                 then Inl (''found pre-quantized publications of this model, but none in a '' @
                                           ''format your GPUs can run'')
                                 else Inr (filter wanted cs))
                          else Inr [])
             in Inr \<lparr>ir_Info = info, ir_SuggestedID = SuggestModelID (i_ID info),
                     ir_SuggestedName = SuggestDisplayName (i_ID info), ir_Pricing = SuggestPricing info,
                     ir_Plans = map (node_plan info want) sts,
                     ir_GGUFCandidates = (case gguf of Inr cs \<Rightarrow> cs | Inl _ \<Rightarrow> []),
                     ir_GGUFError = (case gguf of Inl e \<Rightarrow> e | Inr _ \<Rightarrow> []),
                     ir_QuantCandidates = (case quant of Inr cs \<Rightarrow> cs | Inl _ \<Rightarrow> []),
                     ir_QuantError = (case quant of Inl e \<Rightarrow> e | Inr _ \<Rightarrow> []),
                     ir_AlreadyInstalled = (Catalog_Get (si_catalog s) (SuggestModelID (i_ID info)) \<noteq> None)\<rparr>)"

subsection \<open>Installing\<close>

record InstallRequest =
  iq_Node :: string
  iq_HFID :: string
  iq_ModelID :: string
  iq_Name :: string
  iq_Engine :: string
  iq_Quantization :: string
  iq_Hybrid :: bool
  iq_QuantFromCkpt :: bool
  iq_KVCacheDType :: string
  iq_TensorParallel :: int
  iq_MaxModelLen :: int
  iq_MaxNumSeqs :: int
  iq_GGUFRepo :: string
  iq_LocalGGUF :: string
  iq_PromptUSD :: string
  iq_CompletionUSD :: string
  iq_CachedUSD :: string
  iq_Tools :: bool
  iq_Reasoning :: bool
  iq_ZDR :: bool
  iq_HIPAA :: bool
  iq_StageHidden :: bool

text \<open>The quantization a GGUF repository really publishes, and the facts of the checkpoint over the page's.\<close>

definition pick_published :: "hf_world \<Rightarrow> InstallRequest \<Rightarrow> InstallRequest" where
  "pick_published h req =
     (if iq_Engine req = ''llamacpp'' \<and> iq_GGUFRepo req \<noteq> [] \<and> iq_LocalGGUF req = [] then
        (case ResolveGGUF (hf_client h) (hf_reg h) (iq_HFID req) of
           Inl _ \<Rightarrow> req
         | Inr cs \<Rightarrow>
             (case find (\<lambda>c. g_Repo c = iq_GGUFRepo req) cs of
                None \<Rightarrow> req
              | Some c \<Rightarrow> req\<lparr>iq_Quantization := PickQuant c (iq_Quantization req)\<rparr>))
      else req)"

definition trust_checkpoint :: "hf_world \<Rightarrow> InstallRequest \<Rightarrow> InstallRequest" where
  "trust_checkpoint h req =
     (case hf_Fetch h (iq_HFID req) of
        Inl _ \<Rightarrow> req
      | Inr info \<Rightarrow>
          req\<lparr>iq_LocalGGUF := (if i_LocalGGUF info \<noteq> [] \<and> iq_LocalGGUF req = [] then i_LocalGGUF info else iq_LocalGGUF req),
              iq_Hybrid := i_IsHybrid info, iq_QuantFromCkpt := (i_PublishedQuant info \<noteq> []),
              iq_KVCacheDType := (if i_IsHybrid info then ''auto'' else iq_KVCacheDType req)\<rparr>)"

definition install_spec :: "InstallRequest \<Rightarrow> Spec" where
  "install_spec req =
     \<lparr>s_HFID = iq_HFID req, s_ServedName = iq_ModelID req, s_Engine = iq_Engine req,
      s_Quantization = iq_Quantization req, s_KVCacheDType = iq_KVCacheDType req,
      s_TensorParallel = iq_TensorParallel req, s_MaxModelLen = iq_MaxModelLen req,
      s_MaxNumSeqs = iq_MaxNumSeqs req, s_Hybrid = iq_Hybrid req,
      s_QuantFromCheckpoint = iq_QuantFromCkpt req, s_GGUFRepo = iq_GGUFRepo req,
      s_LocalGGUF = iq_LocalGGUF req, s_ExtraArgs = []\<rparr>"

definition staged_model :: "InstallRequest \<Rightarrow> Model" where
  "staged_model req =
     \<lparr>m_ID = iq_ModelID req, m_Name = orDefault (iq_Name req) (SuggestDisplayName (iq_HFID req)),
      m_UpstreamModel = iq_ModelID req, m_Backends = [iq_Node req], m_HuggingFaceID = iq_HFID req,
      m_Created = [], m_Quantization = normalizeQuant (iq_Quantization req), m_Tokenizer = [],
      m_Description = [], m_ContextLength = iq_MaxModelLen req,
      m_MaxOutputTokens = minPositive (iq_MaxModelLen req) 32768,
      m_Pricing = \<lparr>pr_Prompt = iq_PromptUSD req, pr_Completion = iq_CompletionUSD req,
        pr_CachedPrompt = iq_CachedUSD req, pr_CacheWrite = [], pr_InternalReasoning = [], pr_ImagePrompt = []\<rparr>,
      m_Capacity = \<lparr>cap_PromptTPM = 0, cap_CachedPromptTPM = 0, cap_CompletionTPM = 0, cap_RequestsPerMin = 0,
        cap_Concurrency = iq_MaxNumSeqs req\<rparr>,
      m_Features = \<lparr>f_Tools = iq_Tools req, f_StructuredOutputs = False, f_Reasoning = iq_Reasoning req,
        f_ResponseFormat = False, f_Logprobs = False, f_Seed = False\<rparr>,
      m_Vision = None, m_Datacenters = [], m_Compliance = \<lparr>co_ZDR = iq_ZDR req, co_HIPAA = iq_HIPAA req\<rparr>,
      m_IsReady = Some False, m_IsFree = False, m_DiscountToUser = 0, m_DeprecationDate = [],
      m_OpenRouterSlug = []\<rparr>"

definition site_WriteModel :: "files \<Rightarrow> Model \<Rightarrow> site \<Rightarrow> (config_error + string) \<times> site" where
  "site_WriteModel w m s =
     (case WriteModel (fw_decode w) (fw_encode w) (fw_mkdir_ok w) (fw_write_ok w) (fw_rename_ok w)
             (si_modelDir s) (si_dir s) m of
        (r, d) \<Rightarrow> (r, s\<lparr>si_dir := d\<rparr>))"

text \<open>The node's answer to the installation is an argument: an error, or the agent's document.\<close>

definition adminInstall ::
  "files \<Rightarrow> hf_world \<Rightarrow> (Spec \<Rightarrow> string option) \<Rightarrow> InstallRequest option \<Rightarrow> site \<Rightarrow>
   admin_reply \<times> Spec option \<times> site" where
  "adminInstall w h install body s =
     (case body of
        None \<Rightarrow> (Refused 400 ''invalid_request_error'' (Msg ''invalid request body''), None, s)
      | Some req \<Rightarrow>
          if \<not> Has (si_nodes s) (iq_Node req) then
            (Refused 400 ''invalid_request_error'' (Msg (''unknown node '' @ iq_Node req)), None, s)
          else
            let req = (if iq_ModelID req = [] then req\<lparr>iq_ModelID := SuggestModelID (iq_HFID req)\<rparr> else req)
            in if iq_MaxModelLen req \<le> 0 then
                 (Refused 400 ''invalid_request_error'' (Msg ''max_model_len is required''), None, s)
               else if si_modelDir s = [] then
                 (Refused 412 ''config_error''
                    (Msg ''server.model_dir is not set, so models cannot be installed from the admin UI''), None, s)
               else
                 let req = trust_checkpoint h (pick_published h req); spec = install_spec req
                 in case install spec of
                      Some e \<Rightarrow> (Refused 502 ''server_error'' (Msg e), Some spec, s)
                    | None \<Rightarrow>
                        (case site_WriteModel w (staged_model req) s of
                           (Inl e, s') \<Rightarrow>
                             (Refused 500 ''server_error''
                                (ConfigMsg ''the engine started but the catalog entry could not be written: '' e),
                              Some spec, s')
                         | (Inr path, s') \<Rightarrow> (Granted 202, Some spec, snd (ReloadFromDisk w s'))))"

subsection \<open>Publishing and uninstalling\<close>

definition adminPublish :: "files \<Rightarrow> (string \<times> bool) option \<Rightarrow> site \<Rightarrow> admin_reply \<times> site" where
  "adminPublish w body s =
     (case body of
        None \<Rightarrow> (Refused 400 ''invalid_request_error'' (Msg ''model_id is required''), s)
      | Some (mid, ready) \<Rightarrow>
          if mid = [] then (Refused 400 ''invalid_request_error'' (Msg ''model_id is required''), s)
          else case find_model (si_cfg s) mid of
            None \<Rightarrow> (Refused 404 ''invalid_request_error'' (Msg (''unknown model '' @ mid)), s)
          | Some m \<Rightarrow>
              (case site_WriteModel w (m\<lparr>m_IsReady := Some ready\<rparr>) s of
                 (Inl e, s') \<Rightarrow> (Refused 500 ''server_error'' (ConfigMsg [] e), s')
               | (Inr _, s') \<Rightarrow>
                   (case ReloadFromDisk w s' of
                      (Some e, s'') \<Rightarrow> (Refused 500 ''server_error'' (ReloadMsg e), s'')
                    | (None, s'') \<Rightarrow> (Granted 200, s''))))"

datatype removal = Removed | RemovedWithWarning string | NotRemoved admin_reply

definition adminUninstall ::
  "files \<Rightarrow> (string \<Rightarrow> string \<Rightarrow> string option) \<Rightarrow> (string \<times> string) option \<Rightarrow> site \<Rightarrow> removal \<times> site" where
  "adminUninstall w stop body s =
     (case body of
        None \<Rightarrow> (NotRemoved (Refused 400 ''invalid_request_error'' (Msg ''model_id is required'')), s)
      | Some (mid, node) \<Rightarrow>
          if mid = [] then (NotRemoved (Refused 400 ''invalid_request_error'' (Msg ''model_id is required'')), s)
          else case RemoveModel (fw_decode w) (si_modelDir s) (si_dir s) mid of
            (Some e, _) \<Rightarrow> (NotRemoved (Refused 400 ''invalid_request_error'' (ConfigMsg [] e)), s)
          | (None, d) \<Rightarrow>
              (let s' = snd (ReloadFromDisk w (s\<lparr>si_dir := d\<rparr>))
               in if node = [] then (Removed, s')
                  else case stop node mid of
                    Some e \<Rightarrow> (RemovedWithWarning (''the engine could not be stopped: '' @ e), s')
                  | None \<Rightarrow> (Removed, s')))"

subsection \<open>Requests passed on to a node\<close>

definition passed_on :: "int \<Rightarrow> string \<Rightarrow> string + 'a \<Rightarrow> admin_reply + 'a" where
  "passed_on status typ r = (case r of Inl e \<Rightarrow> Inl (Refused status typ (Msg e)) | Inr a \<Rightarrow> Inr a)"

definition adminNodes :: "(NodeStatus list \<Rightarrow> NodeStatus list) \<Rightarrow> site \<Rightarrow> NodeStatus list" where
  "adminNodes ord s = Statuses ord (si_nodes s)"

definition adminNodeLogs ::
  "(string \<Rightarrow> string) \<Rightarrow> (call_out \<Rightarrow> 'a exchange) \<Rightarrow> string \<Rightarrow> string \<Rightarrow> string \<Rightarrow> site \<Rightarrow> admin_reply + 'a" where
  "adminNodeLogs escape send node served num s =
     (let n = fst (Atoi num); n = (if n \<le> 0 then 150 else n)
      in passed_on 502 ''server_error'' (node_Logs escape send (si_nodes s) node served n))"

definition adminNodeStop ::
  "(string \<Rightarrow> call_out \<Rightarrow> unit exchange) \<Rightarrow> string \<Rightarrow> string option \<Rightarrow> site \<Rightarrow> admin_reply" where
  "adminNodeStop send node served s =
     (case served of
        None \<Rightarrow> Refused 400 ''invalid_request_error'' (Msg ''served_name is required'')
      | Some name \<Rightarrow>
          if name = [] then Refused 400 ''invalid_request_error'' (Msg ''served_name is required'')
          else case StopModel send (si_nodes s) node name of
            Some e \<Rightarrow> Refused 502 ''server_error'' (Msg e) | None \<Rightarrow> Granted 200)"

definition adminNodeCache :: "(call_out \<Rightarrow> 'a exchange) \<Rightarrow> string \<Rightarrow> site \<Rightarrow> admin_reply + 'a" where
  "adminNodeCache send node s = passed_on 502 ''server_error'' (node_Cache send (si_nodes s) node)"

definition adminNodeCacheDelete ::
  "(string \<Rightarrow> call_out \<Rightarrow> 'a exchange) \<Rightarrow> string \<Rightarrow> string \<Rightarrow> site \<Rightarrow> admin_reply + 'a" where
  "adminNodeCacheDelete send node repo s =
     passed_on 400 ''invalid_request_error'' (node_DeleteCache send (si_nodes s) node repo)"


subsection \<open>What is written is what is served\<close>

lemma load_models_mem:
  "load_models decode es acc = Inr ms \<Longrightarrow>
   set acc \<subseteq> set ms \<and>
   (\<forall>name raw m. (name, File raw) \<in> set es \<and> is_yaml_name name \<and> decode raw = Inr m \<longrightarrow> m \<in> set ms)"
  by (induction decode es acc rule: load_models.induct) (auto split: if_splits sum.splits dentry.splits)

lemma load_models_only:
  "load_models decode es acc = Inr ms \<Longrightarrow> m \<in> set ms \<Longrightarrow>
   m \<in> set acc \<or> (\<exists>name raw. (name, File raw) \<in> set es \<and> is_yaml_name name \<and> decode raw = Inr m)"
proof (induction es arbitrary: acc)
  case (Cons e es)
  obtain name d where e: "e = (name, d)" by (cases e)
  from Cons.prems(1) consider (skip) "load_models decode es acc = Inr ms"
    | (read) raw m' where "d = File raw" "is_yaml_name name" "decode raw = Inr m'" "load_models decode es (acc @ [m']) = Inr ms"
    by (auto simp: e split: if_splits sum.splits dentry.splits)
  then show ?case
  proof cases
    case skip
    from Cons.IH [OF this Cons.prems(2)] show ?thesis by auto
  next
    case read
    from Cons.IH [OF read(4) Cons.prems(2)] read(1-3) show ?thesis by (auto simp: e)
  qed
qed simp

lemma default_model_sel' [simp]:
  "m_ID (default_model m) = m_ID m" "m_IsReady (default_model m) = m_IsReady m" "m_Backends (default_model m) = m_Backends m"
  by (simp_all add: default_model_def)

lemma do_ID_BuildOne [simp]: "do_ID (BuildOne tp m) = m_ID m" "do_IsReady (BuildOne tp m) = m_IsReady m"
  by (simp_all add: BuildOne_def)

text \<open>A load that succeeds: the models are those of the file and of the directory the configuration names.\<close>

lemma Load_models:
  assumes "Load env au readFile decodeConfig decode readDir path = Inr cfg"
  obtains c ms where "c_Models cfg = map default_model ms" and "readFile path \<noteq> None"
    and "decodeConfig (the (readFile path)) = Inr c"
    and "s_ModelDir (c_Server cfg) = s_ModelDir (c_Server c)"
    and "s_ModelDir (c_Server cfg) = [] \<Longrightarrow> ms = map default_model (c_Models c)"
    and "\<And>es. s_ModelDir (c_Server cfg) \<noteq> [] \<Longrightarrow> readDir (ModelDirPath cfg path) = Listing es \<Longrightarrow>
          load_models decode es (map default_model (c_Models c)) = Inr ms"
proof -
  obtain raw c where c: "readFile path = Some raw" "decodeConfig raw = Inr c"
    using assms by (auto simp: Load_def split: option.splits sum.splits)
  let ?c = "applyDefaults env c"
  obtain c' where c': "loadModelDir decode readDir (path_dir path) ?c = Inr c'" "cfg = applyDefaults env c'"
    using assms c by (auto simp: Load_def Let_def split: option.splits sum.splits)
  have server: "s_ModelDir (c_Server (applyDefaults env x)) = s_ModelDir (c_Server x)" for x
    by (simp add: applyDefaults_def default_server_def)
  have same: "c_Server c' = c_Server ?c"
    using c'(1) by (auto simp: loadModelDir_def Let_def split: if_splits dir_state.splits sum.splits)
  then have dir: "s_ModelDir (c_Server cfg) = s_ModelDir (c_Server c)" by (simp add: c'(2) server same)
  have models: "c_Models ?c = map default_model (c_Models c)" by (simp add: applyDefaults_def)
  show thesis
  proof (rule that [of "c_Models c'" c])
    show "c_Models cfg = map default_model (c_Models c')" by (simp add: c'(2) applyDefaults_def)
    show "readFile path \<noteq> None" "decodeConfig (the (readFile path)) = Inr c"
      "s_ModelDir (c_Server cfg) = s_ModelDir (c_Server c)" using c dir by simp_all
    show "c_Models c' = map default_model (c_Models c)" if "s_ModelDir (c_Server cfg) = []"
      using c'(1) server that dir models by (auto simp: loadModelDir_def)
    show "load_models decode es (map default_model (c_Models c)) = Inr (c_Models c')"
      if "s_ModelDir (c_Server cfg) \<noteq> []" "readDir (ModelDirPath cfg path) = Listing es" for es
      using c'(1) that server
      by (auto simp: loadModelDir_def ModelDirPath_def dir models Let_def split: if_splits dir_state.splits sum.splits)
  qed
qed


text \<open>
  A site that keeps its model directory: the configuration on disk names the directory the gateway
  writes to, the directory can be read, and the YAML library decodes what it encoded.
\<close>

definition keeps_dir :: "files \<Rightarrow> site \<Rightarrow> site \<Rightarrow> bool" where
  "keeps_dir w s s' \<longleftrightarrow> s_ModelDir (c_Server (si_cfg s')) \<noteq> [] \<and>
     ModelDirPath (si_cfg s') (si_configPath s) = si_modelDir s \<and> (\<forall>e. si_dir s \<noteq> ReadError e)"

definition yaml_ok :: "files \<Rightarrow> bool" where
  "yaml_ok w \<longleftrightarrow> (\<forall>m doc. fw_encode w m = Inr doc \<longrightarrow> fw_decode w (model_file_header @ doc) = Inr m)"

lemma site_WriteModel_sel:
  assumes "site_WriteModel w m s = (r, t)"
  shows "si_configPath t = si_configPath s" "si_modelDir t = si_modelDir s" "si_cfg t = si_cfg s"
    "si_catalog t = si_catalog s" "si_models t = si_models s"
  using assms by (auto simp: site_WriteModel_def split: prod.splits)

lemma written_is_served:
  assumes "yaml_ok w" and "site_WriteModel w m s = (Inr name, t)" and "ReloadFromDisk w t = (None, s')"
    and "keeps_dir w s s'"
  shows "Catalog_Get (si_catalog s') (m_ID m) = Some (mk_entry (default_model m))"
    and "BuildOne (fw_time_parse w) (default_model m) \<in> set (handleModels s')"
    and "\<forall>d \<in> set (handleModels s'). do_ID d = m_ID m \<longrightarrow> d = BuildOne (fw_time_parse w) (default_model m)"
proof -
  obtain d' where wr: "WriteModel (fw_decode w) (fw_encode w) (fw_mkdir_ok w) (fw_write_ok w) (fw_rename_ok w)
      (si_modelDir s) (si_dir s) m = (Inr name, d')" "t = s\<lparr>si_dir := d'\<rparr>"
    using assms(2) by (auto simp: site_WriteModel_def split: prod.splits)
  obtain es doc where enc: "fw_encode w m = Inr doc" and n: "name = target_name (fw_decode w) es (m_ID m)"
    and d': "d' = Listing (install_file es name (model_file_header @ doc))"
    by (rule WriteModel_ok [OF wr(1)]) (use assms(4) in \<open>auto simp: keeps_dir_def\<close>)
  have dec: "fw_decode w (model_file_header @ doc) = Inr m" using assms(1) enc by (simp add: yaml_ok_def)
  from assms(3) obtain cfg where cfg: "s' = Reload w cfg t"
    "Load (fw_env w) (fw_absolute_url w) (fw_readFile w) (fw_decodeConfig w) (fw_decode w) (site_readDir w t) (si_configPath t) = Inr cfg"
    by (cases rule: ReloadFromDisk_cases [of w t]) auto
  have dir: "s_ModelDir (c_Server cfg) \<noteq> []" "site_readDir w t (ModelDirPath cfg (si_configPath t)) = d'"
    using assms(4) by (auto simp: keeps_dir_def cfg(1) wr(2) site_readDir_def)
  obtain c :: Config and ms where ms: "c_Models cfg = map default_model ms"
    "load_models (fw_decode w) (install_file es name (model_file_header @ doc)) (map default_model (c_Models c)) = Inr ms"
    by (rule Load_models [OF cfg(2)]) (use dir(1) dir(2) [unfolded d'] in blast)
  have "(name, File (model_file_header @ doc)) \<in> set (install_file es name (model_file_header @ doc))"
    by (rule map_of_SomeD) (simp add: install_file_def)
  then have m: "default_model m \<in> set (c_Models cfg)"
    using load_models_mem [OF ms(2)] dec is_yaml_target [of "fw_decode w" es "m_ID m", folded n] by (auto simp: ms(1))
  have "distinct (map m_ID (c_Models cfg))" using Load_config_ok [OF cfg(2)] by (simp add: config_ok_def)
  then have uniq: "x = default_model m" if "x \<in> set (c_Models cfg)" "m_ID x = m_ID m" for x
    using that m inj_onD [of m_ID "set (c_Models cfg)" x "default_model m"] by (simp add: distinct_map)
  have "find_model cfg (m_ID m) = Some (default_model m)"
  proof -
    have "find_model cfg (m_ID m) \<noteq> None" using m by (auto simp: find_model_def find_None_iff)
    then obtain x where "find_model cfg (m_ID m) = Some x" by auto
    moreover from this have "x \<in> set (c_Models cfg)" "m_ID x = m_ID m" by (auto simp: find_model_def dest: find_SomeD)
    ultimately show ?thesis by (simp add: uniq)
  qed
  then show "Catalog_Get (si_catalog s') (m_ID m) = Some (mk_entry (default_model m))"
    by (simp add: cfg(1) Catalog_Get_NewCatalog \<open>distinct (map m_ID (c_Models cfg))\<close>)
  show "BuildOne (fw_time_parse w) (default_model m) \<in> set (handleModels s')"
    using m by (simp add: cfg(1) handleModels_def Build_def)
  show "\<forall>d \<in> set (handleModels s'). do_ID d = m_ID m \<longrightarrow> d = BuildOne (fw_time_parse w) (default_model m)"
    by (auto simp: cfg(1) handleModels_def Build_def dest: uniq)
qed


lemma trust_checkpoint_keeps [simp]:
  "iq_ModelID (trust_checkpoint h (pick_published h req)) = iq_ModelID req"
  "iq_Node (trust_checkpoint h (pick_published h req)) = iq_Node req"
  "iq_MaxModelLen (trust_checkpoint h (pick_published h req)) = iq_MaxModelLen req"
  by (simp_all add: trust_checkpoint_def pick_published_def split: sum.split option.split)

text \<open>What an installation that is granted has done.\<close>

lemma adminInstall_granted:
  assumes "adminInstall w h install (Some req) s = (Granted st, sent, s')"
  obtains req' name t where "sent = Some (install_spec req')" and "install (install_spec req') = None"
    and "site_WriteModel w (staged_model req') s = (Inr name, t)" and "s' = snd (ReloadFromDisk w t)"
    and "iq_Node req' = iq_Node req" and "Has (si_nodes s) (iq_Node req)"
    and "iq_ModelID req \<noteq> [] \<Longrightarrow> iq_ModelID req' = iq_ModelID req"
proof -
  define req1 where "req1 = (if iq_ModelID req = [] then req\<lparr>iq_ModelID := SuggestModelID (iq_HFID req)\<rparr> else req)"
  let ?req' = "trust_checkpoint h (pick_published h req1)"
  have "Has (si_nodes s) (iq_Node req)" "install (install_spec ?req') = None"
    using assms by (auto simp: adminInstall_def Let_def req1_def split: if_splits option.splits)
  moreover from this obtain name t where "site_WriteModel w (staged_model ?req') s = (Inr name, t)"
      "s' = snd (ReloadFromDisk w t)" "sent = Some (install_spec ?req')"
    using assms by (auto simp: adminInstall_def Let_def req1_def [symmetric] split: if_splits prod.splits sum.splits)
  moreover have "iq_Node ?req' = iq_Node req" "iq_ModelID req \<noteq> [] \<Longrightarrow> iq_ModelID ?req' = iq_ModelID req"
    by (simp_all add: req1_def)
  ultimately show thesis by (intro that)
qed

text \<open>
  C24: Installing starts the engine first and advertises it last. When the node refuses the engine nothing
  of the gateway has changed; when the installation is granted, the engine was told to serve under the
  model's own id, the catalog entry asks for that name on that node, and after the reload the model is in the
  catalog and in the published document, marked not ready.
\<close>

theorem install_staged:
  assumes "yaml_ok w" and "iq_ModelID req \<noteq> []"
    and "adminInstall w h install (Some req) s = (reply, sent, s')"
  shows "(\<forall>spec e. sent = Some spec \<and> install spec = Some e \<longrightarrow> s' = s \<and> reply = Refused 502 ''server_error'' (Msg e))
    \<and> (reply = Granted 202 \<and> keeps_dir w s s' \<and> fst (ReloadFromDisk w (s\<lparr>si_dir := si_dir s'\<rparr>)) = None \<longrightarrow>
        (\<exists>spec e. sent = Some spec \<and> install spec = None \<and> s_ServedName spec = iq_ModelID req
           \<and> Catalog_Get (si_catalog s') (iq_ModelID req) = Some e \<and> e_UpstreamModel e = s_ServedName spec
           \<and> (\<forall>d \<in> set (handleModels s'). do_ID d = iq_ModelID req \<longrightarrow> do_IsReady d = Some False)
           \<and> (\<exists>d \<in> set (handleModels s'). do_ID d = iq_ModelID req)))"
proof (intro conjI allI impI)
  fix spec e
  assume "sent = Some spec \<and> install spec = Some e"
  then show "s' = s" "reply = Refused 502 ''server_error'' (Msg e)"
    using assms(3) by (auto simp: adminInstall_def Let_def split: if_splits option.splits prod.splits sum.splits)
next
  assume "reply = Granted 202 \<and> keeps_dir w s s' \<and> fst (ReloadFromDisk w (s\<lparr>si_dir := si_dir s'\<rparr>)) = None"
  then have granted: "reply = Granted 202" and keeps: "keeps_dir w s s'"
    and reload: "fst (ReloadFromDisk w (s\<lparr>si_dir := si_dir s'\<rparr>)) = None" by auto
  show "\<exists>spec e. sent = Some spec \<and> install spec = None \<and> s_ServedName spec = iq_ModelID req
       \<and> Catalog_Get (si_catalog s') (iq_ModelID req) = Some e \<and> e_UpstreamModel e = s_ServedName spec
       \<and> (\<forall>d \<in> set (handleModels s'). do_ID d = iq_ModelID req \<longrightarrow> do_IsReady d = Some False)
       \<and> (\<exists>d \<in> set (handleModels s'). do_ID d = iq_ModelID req)"
  proof (rule adminInstall_granted [OF assms(3) [unfolded granted]])
    fix req' name t
    assume *: "sent = Some (install_spec req')" "install (install_spec req') = None"
      "site_WriteModel w (staged_model req') s = (Inr name, t)" "s' = snd (ReloadFromDisk w t)"
      "iq_ModelID req \<noteq> [] \<Longrightarrow> iq_ModelID req' = iq_ModelID req"
    have t: "t = s\<lparr>si_dir := si_dir t\<rparr>" using *(3) by (auto simp: site_WriteModel_def split: prod.splits)
    have "si_dir s' = si_dir t" unfolding *(4) by (cases rule: ReloadFromDisk_cases [of w t]) auto
    then have "ReloadFromDisk w t = (None, s')" using reload t *(4) by (metis prod.collapse)
    note served = written_is_served [OF assms(1) *(3) this keeps]
    have id: "m_ID (staged_model req') = iq_ModelID req" using *(5) assms(2) by (simp add: staged_model_def)
    have "s_ServedName (install_spec req') = iq_ModelID req" using *(5) assms(2) by (simp add: install_spec_def)
    moreover have "e_UpstreamModel (mk_entry (default_model (staged_model req'))) = iq_ModelID req"
      using id assms(2) by (simp add: mk_entry_def default_model_def staged_model_def Let_def)
    moreover have "do_IsReady (BuildOne tp (default_model (staged_model req'))) = Some False"
      "do_ID (BuildOne tp (default_model (staged_model req'))) = iq_ModelID req" for tp
      using id by (simp_all add: BuildOne_def) (simp add: staged_model_def)
    ultimately show ?thesis using served [unfolded id] *(1,2) by metis
  qed
qed

text \<open>
  Publishing does what it says: when it is granted, the model is in the catalog and every document of its
  id, of which there is one, carries the requested readiness.
\<close>

theorem publish_exact:
  assumes "yaml_ok w" and "adminPublish w (Some (mid, ready)) s = (Granted 200, s')" and "keeps_dir w s s'"
  shows "Catalog_Get (si_catalog s') mid \<noteq> None
    \<and> (\<exists>d \<in> set (handleModels s'). do_ID d = mid)
    \<and> (\<forall>d \<in> set (handleModels s'). do_ID d = mid \<longrightarrow> do_IsReady d = Some ready)"
proof -
  from assms(2) obtain m name t where m: "find_model (si_cfg s) mid = Some m"
    and wr: "site_WriteModel w (m\<lparr>m_IsReady := Some ready\<rparr>) s = (Inr name, t)" "ReloadFromDisk w t = (None, s')"
    by (auto simp: adminPublish_def split: if_splits option.splits prod.splits sum.splits)
  have id: "m_ID (m\<lparr>m_IsReady := Some ready\<rparr>) = mid"
    using m by (auto simp: find_model_def dest: find_SomeD)
  note served = written_is_served [OF assms(1) wr assms(3), unfolded id]
  have doc: "do_ID (BuildOne tp (default_model (m\<lparr>m_IsReady := Some ready\<rparr>))) = mid"
    "do_IsReady (BuildOne tp (default_model (m\<lparr>m_IsReady := Some ready\<rparr>))) = Some ready" for tp
    using id by simp_all
  show ?thesis
  proof (intro conjI)
    show "Catalog_Get (si_catalog s') mid \<noteq> None" using served(1) by simp
    show "\<exists>d \<in> set (handleModels s'). do_ID d = mid" using served(2) doc(1) by blast
    show "\<forall>d \<in> set (handleModels s'). do_ID d = mid \<longrightarrow> do_IsReady d = Some ready" using served(3) doc(2) by metis
  qed
qed


subsection \<open>Witnesses\<close>

definition sample_install :: InstallRequest where
  "sample_install =
     \<lparr>iq_Node = ''gpu'', iq_HFID = ''q/m'', iq_ModelID = ''q/m'', iq_Name = [], iq_Engine = ''vllm'',
      iq_Quantization = ''bf16'', iq_Hybrid = False, iq_QuantFromCkpt = False, iq_KVCacheDType = [],
      iq_TensorParallel = 1, iq_MaxModelLen = 4096, iq_MaxNumSeqs = 8, iq_GGUFRepo = [], iq_LocalGGUF = [],
      iq_PromptUSD = [], iq_CompletionUSD = [], iq_CachedUSD = [], iq_Tools = False, iq_Reasoning = False,
      iq_ZDR = False, iq_HIPAA = False, iq_StageHidden = True\<rparr>"

definition sample_hf :: hf_world where
  "sample_hf = \<lparr>hf_client = \<lparr>c_Token = []\<rparr>,
     hf_reg = \<lparr>reg_model = (\<lambda>_. Model_Spec.NoAnswer []), reg_config = (\<lambda>_. Model_Spec.NoAnswer []),
       reg_files = (\<lambda>_. Model_Spec.NoAnswer []), reg_search = (\<lambda>_. Model_Spec.NoAnswer [])\<rparr>,
     hf_disk = \<lparr>dk_home = None, dk_stat = (\<lambda>_. StatError []), dk_config = (\<lambda>_. Inl []), dk_decode = (\<lambda>_. Inl []),
       dk_entries = (\<lambda>_. [])\<rparr>,
     hf_ord = (\<lambda>x. x), hf_ord2 = (\<lambda>x. x)\<rparr>"

text \<open>Two documents: the staged model and the same model published.\<close>

definition two_encode :: "Model \<Rightarrow> string + bytes" where
  "two_encode m =
     (if m = staged_model sample_install then Inr ''staged''
      else if m = (staged_model sample_install)\<lparr>m_IsReady := Some True\<rparr> then Inr ''ready'' else Inl [])"

definition two_decode :: "bytes \<Rightarrow> string + Model" where
  "two_decode raw =
     (if raw = model_file_header @ ''staged'' then Inr (staged_model sample_install)
      else if raw = model_file_header @ ''ready'' then Inr ((staged_model sample_install)\<lparr>m_IsReady := Some True\<rparr>)
      else Inl [])"

definition provision_config :: Config where
  "provision_config = sample_config\<lparr>c_Models := [], c_Nodes := [gpu_node]\<rparr>"

definition provision_files :: files where
  "provision_files = sample_files\<lparr>fw_decodeConfig := (\<lambda>_. Inr provision_config), fw_decode := two_decode,
     fw_encode := two_encode\<rparr>"

definition provision_site :: site where
  "provision_site = SetConfigPath ''config.yaml'' (New provision_files provision_config sample_gateway empty_pool (Listing []) 0)"

definition installed_site :: site where
  "installed_site = snd (snd (adminInstall provision_files sample_hf (\<lambda>_. None) (Some sample_install) provision_site))"

lemma provision_yaml: "yaml_ok provision_files"
  by (auto simp: yaml_ok_def provision_files_def two_encode_def two_decode_def split: if_splits)

lemma provision_run:
  "(fst (adminInstall provision_files sample_hf (\<lambda>_. None) (Some sample_install) provision_site),
    s_ModelDir (c_Server (si_cfg installed_site)),
    ModelDirPath (si_cfg installed_site) (si_configPath provision_site), si_modelDir provision_site,
    fst (ReloadFromDisk provision_files (provision_site\<lparr>si_dir := si_dir installed_site\<rparr>))) =
   (Granted 202, ''models'', ''models'', ''models'', None)"
  by code_simp

theorem install_staged_witness:
  "\<exists>e. Catalog_Get (si_catalog installed_site) ''q/m'' = Some e"
proof -
  have k: "keeps_dir provision_files provision_site installed_site"
    using provision_run by (simp add: keeps_dir_def provision_site_def SetConfigPath_def New_def rebuildModels_def)
  obtain reply sent where r: "adminInstall provision_files sample_hf (\<lambda>_. None) (Some sample_install) provision_site =
      (reply, sent, installed_site)"
    unfolding installed_site_def by (metis prod.collapse)
  have "iq_ModelID sample_install = ''q/m''" by (simp add: sample_install_def)
  with install_staged [OF provision_yaml _ r] provision_run k r show ?thesis by auto
qed

end
