(* ===== verification/Gateway_Admin.thy ===== *)
theory Gateway_Admin
  imports Gateway_Server Store_Stats Gateway_Limits Gateway_Proxy
begin

text \<open>
  The admin pages and the usage pages of an account (\<^verbatim>\<open>src/internal/gateway/admin.go\<close>,
  \<^verbatim>\<open>playground.go\<close>, \<^verbatim>\<open>account.go\<close>): the dashboard windows, the series with its gaps filled, the listings,
  the management of keys and the handler of embedded files. \<^verbatim>\<open>AddDate\<close>, which counts days of the local
  calendar, is an argument; a query that fails answers 500 with its error, which \<open>w_io\<close> decides.
\<close>

subsection \<open>Windows\<close>

datatype rollup_table = NoTable | StatsHourly | StatsDaily

record window =
  win_from :: time
  win_to :: time
  win_bucket :: int
  win_raw :: bool
  win_table :: rollup_table
  win_label :: string

definition raw_window :: "time \<Rightarrow> duration \<Rightarrow> int \<Rightarrow> string \<Rightarrow> window" where
  "raw_window now back bucket label =
     \<lparr>win_from = now - back, win_to = now, win_bucket = bucket, win_raw = True, win_table = NoTable, win_label = label\<rparr>"

definition rollup_window :: "time \<Rightarrow> time \<Rightarrow> int \<Rightarrow> rollup_table \<Rightarrow> string \<Rightarrow> window" where
  "rollup_window start now bucket table label =
     \<lparr>win_from = start, win_to = now, win_bucket = bucket, win_raw = False, win_table = table, win_label = label\<rparr>"

definition parseWindow :: "(int \<Rightarrow> time \<Rightarrow> time) \<Rightarrow> time \<Rightarrow> string \<Rightarrow> window" where
  "parseWindow add_days now s =
     (if s = ''1h'' then raw_window now hour 60 ''1h''
      else if s = ''6h'' then raw_window now (6 * hour) 300 ''6h''
      else if s = ''7d'' then rollup_window (add_days (-7) now) now Hour StatsHourly ''7d''
      else if s = ''30d'' then rollup_window (add_days (-30) now) now Day StatsDaily ''30d''
      else if s = ''all'' then rollup_window 0 now Day StatsDaily ''all''
      else raw_window now (24 * hour) Hour ''24h'')"

definition table_of :: "rollup_table \<Rightarrow> stats_db \<Rightarrow> stats_table" where
  "table_of t d = (case t of StatsHourly \<Rightarrow> sd_hourly d | StatsDaily \<Rightarrow> sd_daily d | NoTable \<Rightarrow> [])"

subsection \<open>Dashboard\<close>

definition zero_point :: "int \<Rightarrow> Point" where
  "zero_point b = \<lparr>pt_Bucket = b, pt_Requests = 0, pt_Errors = 0, pt_RateLimited = 0, pt_UserErrors = 0,
     pt_PromptTokens = 0, pt_CompletionTokens = 0, pt_CachedTokens = 0, pt_TTFTp50 = 0, pt_TTFTp95 = 0,
     pt_TTFTp99 = 0, pt_TPSAvg = 0, pt_CostUSD = 0\<rparr>"

text \<open>The map by bucket keeps the last point of a bucket; the loop runs from the first to the last bucket.\<close>

definition gap_index :: "Point list \<Rightarrow> int \<Rightarrow> Point option" where
  "gap_index points b = find (\<lambda>p. pt_Bucket p = b) (rev points)"

definition fillGaps :: "Point list \<Rightarrow> window \<Rightarrow> Point list" where
  "fillGaps points win =
     (if win_bucket win \<le> 0 then points
      else
        let bk = win_bucket win;
            start = go_div (Unix (win_from win)) bk * bk;
            stop = go_div (Unix (win_to win)) bk * bk
        in if go_div (stop - start) bk > 5000 then points
           else map (\<lambda>i. let b = start + int i * bk
                         in case gap_index points b of Some p \<Rightarrow> p | None \<Rightarrow> zero_point b)
                  [0 ..< (if stop < start then 0 else nat (go_div (stop - start) bk) + 1)])"

record overview =
  ov_range :: string
  ov_totals :: Totals
  ov_by_model :: "ModelStat list"
  ov_backends :: "backendHealth list"
  ov_model_count :: int
  ov_dropped :: nat
  ov_uptime :: rat

definition adminOverview ::
  "sql_real \<Rightarrow> (ModelStat list \<Rightarrow> ModelStat list) \<Rightarrow> (bref list \<Rightarrow> bref list) \<Rightarrow> (int \<Rightarrow> time \<Rightarrow> time) \<Rightarrow>
   world \<Rightarrow> string \<Rightarrow> stats_db \<Rightarrow> site \<Rightarrow> response + overview" where
  "adminOverview R ord ordb add_days w rng d s =
     (let win = parseWindow add_days (w_now w) rng
      in if \<not> w_io w then Inl (writeError 500 ''server_error'' (w_dberr w))
         else Inr
           \<lparr>ov_range = win_label win, ov_totals = store_Totals R (win_from win) (win_to win) (sd_requests d),
            ov_by_model =
              (if win_raw win then ByModelRaw R ord (win_from win) (win_to win) (sd_requests d)
               else ByModel R ord (table_of (win_table win) d) (win_from win) (win_to win)),
            ov_backends = map (\<lambda>b. backend_health (p_heap (si_pool s) ! b)) (Backends ordb (si_pool s)),
            ov_model_count = int (length (Catalog_IDs (\<lambda>xs. xs) (si_catalog s))),
            ov_dropped = Dropped (g_log (si_gateway s)),
            ov_uptime = seconds_between (si_startedAt s) (w_now w)\<rparr>)"

record series_page =
  sp_range :: string
  sp_bucket :: int
  sp_from :: int
  sp_to :: int
  sp_points :: "Point list"

definition adminSeries ::
  "sql_real \<Rightarrow> (int \<Rightarrow> time \<Rightarrow> time) \<Rightarrow> world \<Rightarrow> string \<Rightarrow> string \<Rightarrow> stats_db \<Rightarrow> response + series_page" where
  "adminSeries R add_days w rng model d =
     (let win = parseWindow add_days (w_now w) rng;
          points = (if win_raw win then SeriesRaw R (win_bucket win) model (win_from win) (win_to win) (sd_requests d)
                    else Series R (table_of (win_table win) d) model (win_from win) (win_to win))
      in if \<not> w_io w then Inl (writeError 500 ''server_error'' (w_dberr w))
         else Inr \<lparr>sp_range = win_label win, sp_bucket = win_bucket win, sp_from = Unix (win_from win),
                   sp_to = Unix (win_to win), sp_points = fillGaps points win\<rparr>)"

record modelView =
  mv_ID :: string
  mv_Name :: string
  mv_UpstreamModel :: string
  mv_Backends :: "string list"
  mv_ContextLength :: int
  mv_MaxOutput :: int
  mv_Quantization :: string
  mv_PromptUSD :: string
  mv_CompletionUSD :: string
  mv_IsFree :: bool
  mv_Ready :: bool
  mv_Tools :: bool
  mv_Reasoning :: bool

definition is_ready :: "Model \<Rightarrow> bool" where
  "is_ready m = (case m_IsReady m of None \<Rightarrow> True | Some b \<Rightarrow> b)"

definition adminModels :: "site \<Rightarrow> modelView list" where
  "adminModels s =
     map (\<lambda>m. \<lparr>mv_ID = m_ID m, mv_Name = m_Name m, mv_UpstreamModel = m_UpstreamModel m, mv_Backends = m_Backends m,
               mv_ContextLength = m_ContextLength m, mv_MaxOutput = m_MaxOutputTokens m,
               mv_Quantization = m_Quantization m, mv_PromptUSD = pr_Prompt (m_Pricing m),
               mv_CompletionUSD = pr_Completion (m_Pricing m), mv_IsFree = m_IsFree m, mv_Ready = is_ready m,
               mv_Tools = f_Tools (m_Features m), mv_Reasoning = f_Reasoning (m_Features m)\<rparr>)
       (c_Models (si_cfg s))"

definition adminBackends :: "(bref list \<Rightarrow> bref list) \<Rightarrow> site \<Rightarrow> (string \<times> backendHealth) list" where
  "adminBackends ord s =
     map (\<lambda>b. (b_BaseURL (p_heap (si_pool s) ! b), backend_health (p_heap (si_pool s) ! b))) (Backends ord (si_pool s))"

definition adminRequests :: "world \<Rightarrow> string \<Rightarrow> string \<Rightarrow> stats_db \<Rightarrow> response + RecentRequest list" where
  "adminRequests w num model d =
     (if \<not> w_io w then Inl (writeError 500 ''server_error'' (w_dberr w))
      else Inr (Recent (fst (Atoi num)) model (sd_requests d)))"

definition adminModelDoc :: "files \<Rightarrow> site \<Rightarrow> Document list" where
  "adminModelDoc w s = Build (fw_time_parse w) (si_cfg s)"

subsection \<open>Keys\<close>

definition adminListKeys :: "world \<Rightarrow> gateway \<Rightarrow> response" where
  "adminListKeys w g =
     (if \<not> w_io w then writeError 500 ''server_error'' (w_dberr w) else writeJSON 200 (PKeys (ListKeys (g_db g))))"

definition adminCreateKey :: "(string \<Rightarrow> string) \<Rightarrow> world \<Rightarrow> string \<Rightarrow> int \<Rightarrow> gateway \<Rightarrow> response \<times> gateway" where
  "adminCreateKey sha w name0 rpm g =
     (let name = (if name0 = [] then ''unnamed'' else name0)
      in case CreateKey sha (w_io w) (w_rand w) (unix (w_now w)) name rpm (g_db g) of
           (Inl e, d) \<Rightarrow> (writeError 500 ''server_error'' (error_text (w_dberr w) e), g\<lparr>g_db := d\<rparr>)
         | (Inr (key, secret), d) \<Rightarrow> (writeJSON 201 (PSecret key secret), g\<lparr>g_db := d\<rparr>))"

definition adminDeleteKey :: "world \<Rightarrow> string \<Rightarrow> gateway \<Rightarrow> response \<times> gateway" where
  "adminDeleteKey w path_id g =
     (case Atoi path_id of (i, ok) \<Rightarrow>
        if \<not> ok then (writeError 400 ''invalid_request_error'' ''Invalid key id.'', g)
        else if \<not> w_io w then (writeError 500 ''server_error'' (w_dberr w), g)
        else (writeJSON 200 POk, cache_purge (g\<lparr>g_db := DeleteKey i (g_db g)\<rparr>)))"

definition adminToggleKey :: "world \<Rightarrow> string \<Rightarrow> bool \<Rightarrow> gateway \<Rightarrow> response \<times> gateway" where
  "adminToggleKey w path_id disabled g =
     (case Atoi path_id of (i, ok) \<Rightarrow>
        if \<not> ok then (writeError 400 ''invalid_request_error'' ''Invalid key id.'', g)
        else if \<not> w_io w then (writeError 500 ''server_error'' (w_dberr w), g)
        else (writeJSON 200 POk, cache_purge (g\<lparr>g_db := SetKeyDisabled i disabled (g_db g)\<rparr>)))"

definition admin_guard ::
  "(string \<Rightarrow> string) \<Rightarrow> world \<Rightarrow> request \<Rightarrow> (gateway \<Rightarrow> response \<times> gateway) \<Rightarrow> gateway \<Rightarrow> response \<times> gateway" where
  "admin_guard sha w r h g = (case requireAdmin sha w r g of Some refusal \<Rightarrow> (refusal, g) | None \<Rightarrow> h g)"

subsection \<open>An account's own pages\<close>

definition userUsage ::
  "sql_real \<Rightarrow> (UsageByModel list \<Rightarrow> UsageByModel list) \<Rightarrow> (int \<Rightarrow> time \<Rightarrow> time) \<Rightarrow> world \<Rightarrow> string \<Rightarrow> AdminUser \<Rightarrow>
   gateway \<Rightarrow> Record list \<Rightarrow> response + Usage \<times> UsageByModel list" where
  "userUsage R ord add_days w rng u g rs =
     (let win = parseWindow add_days (w_now w) rng
      in if \<not> w_io w then Inl (writeError 500 ''server_error'' (w_dberr w))
         else Inr (UsageFor R (u_ID u) (win_from win) (win_to win) (db_keys (g_db g)) rs,
                   UsageByModelFor R ord (u_ID u) (win_from win) (win_to win) (db_keys (g_db g)) rs))"

definition userRequests ::
  "(Record list \<Rightarrow> Record list) \<Rightarrow> world \<Rightarrow> string \<Rightarrow> AdminUser \<Rightarrow> gateway \<Rightarrow> Record list \<Rightarrow> response + RecentRequest list" where
  "userRequests ord w num u g rs =
     (if \<not> w_io w then Inl (writeError 500 ''server_error'' (w_dberr w))
      else Inr (RecentFor ord (u_ID u) (fst (Atoi num)) (db_keys (g_db g)) rs))"

subsection \<open>Playground\<close>

definition playgroundKeyID :: int where "playgroundKeyID = -1"

definition adminPlayground ::
  "(bytes \<Rightarrow> bytes option) \<Rightarrow> (Backend \<Rightarrow> string \<Rightarrow> bytes \<Rightarrow> upstream_reply) \<Rightarrow> (server \<Rightarrow> server) \<Rightarrow>
   inference \<Rightarrow> server \<Rightarrow> reply \<times> server" where
  "adminPlayground fmt send meanwhile i sv =
     serveInference fmt send meanwhile
       (i\<lparr>i_path := ''/chat/completions'', i_keyID := playgroundKeyID, i_rpmLimit := 0\<rparr>) sv"

record PlaygroundModel =
  pg_ID :: string
  pg_Name :: string
  pg_Available :: bool
  pg_Ready :: bool
  pg_ContextLength :: int
  pg_MaxOutput :: int
  pg_Tools :: bool
  pg_Reasoning :: bool
  pg_PromptUSD :: string
  pg_CompletionUSD :: string
  pg_Reason :: string

definition adminPlaygroundModels :: "site \<Rightarrow> PlaygroundModel list" where
  "adminPlaygroundModels s =
     map (\<lambda>m. let up = Available (si_pool s) (m_ID m) in
            \<lparr>pg_ID = m_ID m, pg_Name = m_Name m, pg_Available = up, pg_Ready = is_ready m,
             pg_ContextLength = m_ContextLength m, pg_MaxOutput = m_MaxOutputTokens m,
             pg_Tools = f_Tools (m_Features m), pg_Reasoning = f_Reasoning (m_Features m),
             pg_PromptUSD = pr_Prompt (m_Pricing m), pg_CompletionUSD = pr_Completion (m_Pricing m),
             pg_Reason = (if up then [] else ''no healthy backend is serving this model right now'')\<rparr>)
       (c_Models (si_cfg s))"

subsection \<open>Embedded files\<close>

text \<open>
  \<^verbatim>\<open>staticHandler\<close>: \<open>embedded\<close> has the files by path without the leading slash; \<open>sha8\<close> is the hexadecimal text of the
  first eight bytes of the SHA-256 digest. The page shell is never stored, a known file is revalidated by its tag.
\<close>

datatype static_reply =
    NotModified string
  | ServeFile string "string option" "string option"

definition etag :: "(bytes \<Rightarrow> string) \<Rightarrow> (string \<times> bytes) list \<Rightarrow> string \<Rightarrow> string option" where
  "etag sha8 embedded p =
     (if p \<noteq> [] \<and> hd p = CHR ''/''
      then map_option (\<lambda>b. [CHR 0x22] @ sha8 b @ [CHR 0x22]) (map_of embedded (tl p)) else None)"

definition staticHandler :: "(bytes \<Rightarrow> string) \<Rightarrow> (string \<times> bytes) list \<Rightarrow> string \<Rightarrow> string \<Rightarrow> static_reply" where
  "staticHandler sha8 embedded path if_none_match =
     (let p = (if path = ''/'' then ''/index.html'' else path)
      in if p = ''/index.html'' then ServeFile path None (Some ''no-store, must-revalidate'')
         else case etag sha8 embedded p of
           Some tag \<Rightarrow> if if_none_match = tag then NotModified tag else ServeFile path (Some tag) (Some ''no-cache'')
         | None \<Rightarrow> ServeFile path None None)"

subsection \<open>The chart agrees with the totals\<close>

lemma Unix_mono: "s \<le> t \<Longrightarrow> Unix s \<le> Unix t"
  by (simp add: Unix_def second_def zdiv_mono1)

lemma ts_seconds: "ts r div 1000 = Unix (r_TS r)"
  by (simp add: UnixMilli_def Unix_def millisecond_def second_def zdiv_zmult2_eq [symmetric])

lemma UnixMilli_less: "UnixMilli s < UnixMilli t \<Longrightarrow> s \<le> t"
  by (simp add: UnixMilli_def millisecond_def)

definition grid :: "int \<Rightarrow> int \<Rightarrow> int \<Rightarrow> int list" where
  "grid bk lo hi = map (\<lambda>i. lo * bk + int i * bk) [0 ..< nat (hi - lo) + 1]"

lemma grid_distinct: "0 < bk \<Longrightarrow> distinct (grid bk lo hi)"
  by (auto simp: grid_def distinct_map inj_on_def)

lemma grid_mem:
  assumes "lo \<le> q" "q \<le> hi"
  shows "q * bk \<in> set (grid bk lo hi)"
proof -
  have "nat (q - lo) < nat (hi - lo) + 1" "lo * bk + int (nat (q - lo)) * bk = q * bk"
    using assms by (simp_all add: algebra_simps)
  then show ?thesis unfolding grid_def set_map set_upt by (intro image_eqI [where x = "nat (q - lo)"]) simp_all
qed

lemma filter_find:
  "distinct (map key xs) \<Longrightarrow> filter (\<lambda>x. key x = b) xs = (case find (\<lambda>x. key x = b) xs of None \<Rightarrow> [] | Some x \<Rightarrow> [x])"
  by (induction xs) (auto simp: image_iff split: option.splits dest!: find_SomeD)

lemma gap_index_filter:
  assumes "distinct (map pt_Bucket points)"
  shows "filter (\<lambda>p. pt_Bucket p = b) points = (case gap_index points b of None \<Rightarrow> [] | Some p \<Rightarrow> [p])"
  using filter_find [of pt_Bucket "rev points" b] assms
  by (auto simp: gap_index_def rev_map [symmetric] rev_filter [symmetric] split: option.splits)

text \<open>Filling the gaps adds nothing to a figure that is 0 on an empty bucket, and loses no point that lies on the grid.\<close>

lemma fillGaps_sum:
  fixes f :: "Point \<Rightarrow> int"
  assumes "distinct (map pt_Bucket points)" and "set (map pt_Bucket points) \<subseteq> set ks" and "distinct ks"
    and "\<And>b. f (zero_point b) = 0"
  shows "sum_list (map f (map (\<lambda>b. case gap_index points b of Some p \<Rightarrow> p | None \<Rightarrow> zero_point b) ks)) = sum_list (map f points)"
proof -
  have "f (case gap_index points b of Some p \<Rightarrow> p | None \<Rightarrow> zero_point b) =
      sum_list (map f (filter (\<lambda>p. pt_Bucket p = b) points))" for b
    using assms(4) by (simp add: gap_index_filter [OF assms(1)] split: option.split)
  then show ?thesis
    using sum_list_groups [OF assms(3), of pt_Bucket points f] assms(2) by (simp add: comp_def)
qed

lemma fillGaps_grid:
  assumes "0 < win_bucket win" and "0 \<le> win_from win" and "win_from win \<le> win_to win"
    and "Unix (win_to win) div win_bucket win - Unix (win_from win) div win_bucket win \<le> 5000"
  shows "fillGaps points win =
    map (\<lambda>b. case gap_index points b of Some p \<Rightarrow> p | None \<Rightarrow> zero_point b)
      (grid (win_bucket win) (Unix (win_from win) div win_bucket win) (Unix (win_to win) div win_bucket win))"
proof -
  let ?bk = "win_bucket win" and ?a = "Unix (win_from win)" and ?z = "Unix (win_to win)"
  have u: "0 \<le> ?a" "0 \<le> ?z" "?a \<le> ?z"
    using assms(2,3) Unix_mono [OF assms(3)] by (simp_all add: Unix_def second_def)
  then have le: "?a div ?bk \<le> ?z div ?bk" using assms(1) by (simp add: zdiv_mono1)
  have d: "go_div (?z div ?bk * ?bk - ?a div ?bk * ?bk) ?bk = ?z div ?bk - ?a div ?bk"
    using assms(1) by (simp add: left_diff_distrib [symmetric] go_div_mult)
  have "\<not> ?z div ?bk * ?bk < ?a div ?bk * ?bk" using le assms(1) by (simp add: not_less mult_right_mono)
  then show ?thesis
    using assms(1,4) u by (simp add: fillGaps_def grid_def Let_def d comp_def del: upt_Suc)
qed

lemma SeriesRaw_buckets:
  assumes "0 < n"
  shows "map pt_Bucket (SeriesRaw R n model frm till rs) = sort (remdups (map (\<lambda>r. bucketOf n (ts r))
    (filter (\<lambda>r. UnixMilli frm \<le> ts r \<and> ts r < UnixMilli till \<and> (model = [] \<or> r_Model r = model)) rs)))"
  using assms by (simp add: SeriesRaw_def agg_def Let_def comp_def)

lemma SeriesRaw_on_grid:
  assumes "0 < n" and "0 \<le> frm" and "frm \<le> till"
  shows "set (map pt_Bucket (SeriesRaw R n model frm till rs)) \<subseteq> set (grid n (Unix frm div n) (Unix till div n))"
proof -
  have "bucketOf n (ts r) \<in> set (grid n (Unix frm div n) (Unix till div n))"
    if r: "UnixMilli frm \<le> ts r" "ts r < UnixMilli till" for r
  proof -
    have "0 \<le> UnixMilli frm" using assms(2) by (simp add: UnixMilli_def millisecond_def)
    then have nn: "0 \<le> ts r" using r by simp
    have "Unix frm \<le> ts r div 1000"
      using zdiv_mono1 [OF r(1), of 1000]
      by (simp add: UnixMilli_def Unix_def millisecond_def second_def zdiv_zmult2_eq [symmetric])
    moreover have "ts r div 1000 \<le> Unix till"
      unfolding ts_seconds using UnixMilli_less [OF r(2)] by (rule Unix_mono)
    ultimately show ?thesis
      unfolding bucketOf_nonneg [OF nn assms(1)] by (intro grid_mem) (simp_all add: assms(1) zdiv_mono1)
  qed
  then show ?thesis using assms(1) by (auto simp: SeriesRaw_buckets)
qed

lemma zero_counts: "f \<in> set point_counts \<Longrightarrow> f (zero_point b) = 0"
  by (auto simp: point_counts_def zero_point_def)

definition raw_shape :: "time \<Rightarrow> window \<Rightarrow> bool" where
  "raw_shape now win \<longleftrightarrow> win_raw win \<and> 0 < win_bucket win \<and> win_to win = now \<and>
     (\<exists>k \<in> {0 .. 72}. win_from win = now - k * win_bucket win * second \<and> k * win_bucket win * second \<le> 24 * hour)"

lemma raw_window_shape:
  assumes "0 < n" and "back = k * n * second" and "k \<in> {0 .. 72}" and "back \<le> 24 * hour"
  shows "raw_shape now (raw_window now back n label)"
  using assms unfolding raw_shape_def by (auto simp: raw_window_def intro!: bexI [where x = k])

lemma parseWindow_raw:
  assumes "rng \<notin> {''7d'', ''30d'', ''all''}"
  shows "raw_shape now (parseWindow add_days now rng)"
proof -
  have "raw_shape now (raw_window now hour 60 ''1h'')"
    by (rule raw_window_shape [where k = 60]) (simp_all add: duration_defs)
  moreover have "raw_shape now (raw_window now (6 * hour) 300 ''6h'')"
    by (rule raw_window_shape [where k = 72]) (simp_all add: duration_defs)
  moreover have "raw_shape now (raw_window now (24 * hour) Hour ''24h'')"
    by (rule raw_window_shape [where k = 24]) (simp_all add: duration_defs Hour_def)
  ultimately show ?thesis using assms unfolding parseWindow_def by simp
qed

lemma raw_shapeD:
  assumes "raw_shape now win" and "24 * hour \<le> now"
  shows "win_raw win" and "0 < win_bucket win" and "0 \<le> win_from win" and "win_from win \<le> win_to win"
    and "Unix (win_to win) div win_bucket win - Unix (win_from win) div win_bucket win \<le> 72"
proof -
  obtain k where k: "0 \<le> k" "k \<le> 72" "win_from win = now - k * win_bucket win * second" "k * win_bucket win * second \<le> 24 * hour"
      and w: "win_raw win" "0 < win_bucket win" "win_to win = now"
    using assms(1) by (auto simp: raw_shape_def)
  show "win_raw win" "0 < win_bucket win" by (fact w)+
  show "0 \<le> win_from win" using k(3,4) assms(2) by simp
  have "0 \<le> k * win_bucket win * second" using k(1) w(2) by (simp add: second_def)
  then show "win_from win \<le> win_to win" using k(3) w(3) by simp
  have "Unix (win_from win) = Unix now + (- k) * win_bucket win"
    using div_mult_self1 [of second now "- k * win_bucket win"] by (simp add: k(3) Unix_def second_def)
  then have "Unix (win_from win) div win_bucket win = - k + Unix now div win_bucket win"
    using w(2) div_mult_self1 [of "win_bucket win" "Unix now" "- k"] by (simp add: mult.commute)
  then show "Unix (win_to win) div win_bucket win - Unix (win_from win) div win_bucket win \<le> 72"
    using k(2) w(3) by simp
qed

text \<open>
  C38: the chart of a short range and the figures above it agree: on the same clock, the requests, errors, rate-limited
  requests and tokens summed over the points of \<open>adminSeries\<close> are the totals of \<open>adminOverview\<close>, although
  the chart fills the quiet periods with empty points and the totals come from another query. The points are spaced by
  exactly one bucket, from the bucket of the start of the range to the bucket of its end, at most 73 of them.
\<close>

theorem chart_matches_totals:
  assumes "rng \<notin> {''7d'', ''30d'', ''all''}" and "24 * hour \<le> w_now w" and "w_io w"
  shows "\<exists>page ov. adminSeries R add_days w rng [] d = Inr page \<and> adminOverview R ord ordb add_days w rng d s = Inr ov \<and>
    map (\<lambda>f. sum_list (map f (sp_points page))) point_counts = map (\<lambda>f. f (ov_totals ov)) totals_counts \<and>
    map pt_Bucket (sp_points page) =
      grid (sp_bucket page) (sp_from page div sp_bucket page) (sp_to page div sp_bucket page) \<and>
    length (sp_points page) \<le> 73"
proof -
  define win where "win = parseWindow add_days (w_now w) rng"
  note win = raw_shapeD [OF parseWindow_raw [OF assms(1)] assms(2), of add_days, folded win_def]
  define points where "points = SeriesRaw R (win_bucket win) [] (win_from win) (win_to win) (sd_requests d)"
  let ?g = "grid (win_bucket win) (Unix (win_from win) div win_bucket win) (Unix (win_to win) div win_bucket win)"
  have on: "set (map pt_Bucket points) \<subseteq> set ?g" unfolding points_def by (rule SeriesRaw_on_grid [OF win(2,3,4)])
  have dist: "distinct (map pt_Bucket points)" unfolding points_def by (simp add: SeriesRaw_buckets [OF win(2)])
  have filled: "fillGaps points win = map (\<lambda>b. case gap_index points b of Some p \<Rightarrow> p | None \<Rightarrow> zero_point b) ?g"
    by (rule fillGaps_grid [OF win(2,3,4)]) (use win(5) in simp)
  have sums: "sum_list (map f (fillGaps points win)) = sum_list (map f points)" if "f \<in> set point_counts" for f
    unfolding filled by (rule fillGaps_sum [OF dist on grid_distinct [OF win(2)]]) (rule zero_counts [OF that])
  have buckets: "map pt_Bucket (fillGaps points win) = ?g"
    unfolding filled by (auto simp: gap_index_def zero_point_def find_Some_iff intro!: map_idI split: option.split)
  have "length (fillGaps points win) \<le> 73"
    unfolding filled using win(5) by (simp add: grid_def)
  moreover have "map (\<lambda>f. sum_list (map f (fillGaps points win))) point_counts =
      map (\<lambda>f. f (store_Totals R (win_from win) (win_to win) (sd_requests d))) totals_counts"
    unfolding SeriesRaw_Totals [of R "win_bucket win", symmetric] points_def [symmetric]
    by (rule map_cong [OF refl]) (rule sums)
  ultimately show ?thesis
    using assms(3) win(1) buckets
    by (simp add: adminSeries_def adminOverview_def win_def [symmetric] points_def [symmetric] Let_def)
qed

subsection \<open>Revoking a key from the admin pages\<close>

lemma LookupKey_revoked:
  assumes "db_inv d" and "row \<in> set (db_keys d)" and "kr_hash row = HashKey sha secret"
  shows "LookupKey sha io secret (SetKeyDisabled (kr_id row) True d) = Inl ErrKeyNotFound"
    and "LookupKey sha io secret (DeleteKey (kr_id row) d) = Inl ErrKeyNotFound"
proof -
  have uniq: "x = row" if "x \<in> set (db_keys d)" "kr_hash x = HashKey sha secret" for x
    using assms that unfolding db_inv_def keys_ok_def by (metis inj_onD distinct_map)
  then show "LookupKey sha io secret (SetKeyDisabled (kr_id row) True d) = Inl ErrKeyNotFound"
    by (force simp: LookupKey_def SetKeyDisabled_def split: option.splits if_splits dest!: find_SomeD)
  show "LookupKey sha io secret (DeleteKey (kr_id row) d) = Inl ErrKeyNotFound"
    using uniq by (auto simp: LookupKey_def DeleteKey_def split: option.splits dest!: find_SomeD)
qed

lemma admin_guard_ok:
  assumes "admin_guard sha w r h g = (resp, g')" and "rs_status resp = 200"
  shows "h g = (resp, g')"
  using assms by (auto simp: admin_guard_def requireAdmin_def writeError_def Let_def split: option.splits if_splits)


subsection \<open>Concrete pages\<close>

definition chart_world :: world where
  "chart_world = \<lparr>w_now = 172800 * second, w_io = True, w_io2 = True, w_dberr = [], w_rand = None\<rparr>"

theorem chart_matches_totals_witness:
  "\<exists>page ov. adminSeries exact_real (\<lambda>n t. t) chart_world ''24h'' [] sample_stats = Inr page \<and>
    adminOverview exact_real (\<lambda>x. x) (\<lambda>x. x) (\<lambda>n t. t) chart_world ''24h'' sample_stats sample_site = Inr ov \<and>
    map (\<lambda>f. sum_list (map f (sp_points page))) point_counts = map (\<lambda>f. f (ov_totals ov)) totals_counts"
proof -
  have "24 * hour \<le> w_now chart_world" "w_io chart_world" by (simp_all add: chart_world_def duration_defs)
  from chart_matches_totals [OF _ this, where rng = "''24h''" and R = exact_real and add_days = "\<lambda>n t. t"
      and d = sample_stats and ord = "\<lambda>x. x" and ordb = "\<lambda>x. x" and s = sample_site]
  show ?thesis by auto
qed

definition leaked_row :: key_row where
  "leaked_row = \<lparr>kr_id = 7, kr_name = ''laptop'', kr_hash = HashKey toy_sha ''k'', kr_prefix = ''k'', kr_created_at = 0,
     kr_disabled = False, kr_rpm_limit = 60, kr_user_id = 1\<rparr>"

definition leaked_gateway :: gateway where
  "leaked_gateway = (plain_gateway (empty_db\<lparr>db_keys := [leaked_row], db_next_key := 8\<rparr>))\<lparr>g_AdminToken := ''t''\<rparr>"

definition token_request :: request where
  "token_request = plain_request\<lparr>rq_Authorization := ''Bearer t''\<rparr>"

lemma token_bearer: "ExtractBearer (rq_Authorization token_request) = ''t''"
  by code_simp


end
