(* ===== verification/Gateway_Economics.thy ===== *)
theory Gateway_Economics
  imports Gateway_Server Store_Stats Go_Format
begin

text \<open>
  The profitability calculator (\<^verbatim>\<open>src/internal/gateway/economics.go\<close>) in float64. A body that does not decode is
  \<open>None\<close>.
\<close>

record EconomicsRequest =
  ec_Model :: string
  ec_GPUCostPerMonth :: rat
  ec_AggregateTPS :: rat
  ec_Utilisation :: rat
  ec_InputRatio :: rat
  ec_CacheHitRate :: rat

record EconomicsResult =
  er_Model :: string
  er_PromptUSDPerM :: rat
  er_CompletionUSDPerM :: rat
  er_CachedUSDPerM :: rat
  er_OutputTokensPerMonth :: rat
  er_InputTokensPerMonth :: rat
  er_RevenueOutput :: rat
  er_RevenueInput :: rat
  er_RevenueTotal :: rat
  er_Cost :: rat
  er_Margin :: rat
  er_MarginPercent :: rat
  er_RevenuePerDay :: rat
  er_MarginPerDay :: rat
  er_BreakEvenUtilisation :: rat
  er_BreakEvenTPS :: rat
  er_Verdict :: string
  er_Notes :: "string list"

text \<open>The constant \<^verbatim>\<open>secondsPerMonth\<close>: 730 hours.\<close>

definition secondsPerMonth :: rat where "secondsPerMonth = 2628000"

definition zero_price_verdict :: string where
  "zero_price_verdict = ''This model is priced at zero, so it cannot cover any hardware cost.''"

definition economics_verdict :: "rat \<Rightarrow> rat \<Rightarrow> rat \<Rightarrow> string" where
  "economics_verdict breakEvenUtilisation breakEvenTPS aggregateTPS =
     (if breakEvenUtilisation \<le> 0 then zero_price_verdict
      else if breakEvenUtilisation > 1 then
        ''Loses money even at 100% utilisation. You would need '' @ fmt_fixed 0 breakEvenTPS @
        '' tok/s aggregate to break even, against the '' @ fmt_fixed 0 aggregateTPS @ '' measured.''
      else if breakEvenUtilisation > 1 / 2 then
        ''Break-even needs '' @ fmt_fixed 0 (f_mul breakEvenUtilisation 100) @
        ''% utilisation. That is a lot of traffic for a new provider; treat this as marginal.''
      else
        ''Break-even at '' @ fmt_fixed 0 (f_mul breakEvenUtilisation 100) @
        ''% utilisation, so there is real headroom above it.'')"

definition economics_notes :: "EconomicsRequest \<Rightarrow> string list" where
  "economics_notes req =
     [''Utilisation is the share of the month the GPU is actually generating tokens. A new provider competing for routed traffic will not be busy: assume low and be pleased to be wrong.''] @
     (if ec_CacheHitRate req > 0
      then [''A '' @ fmt_fixed 0 (f_mul (ec_CacheHitRate req) 100) @
            ''% prefix-cache hit rate lowers revenue here because cached tokens bill cheaper '' @ em_dash @
            '' but it also raises the throughput you can serve from the same GPU, which this figure does not credit you for.'']
      else []) @
     [''Revenue assumes you are paid your published prices for every token. Verify what OpenRouter actually remits before relying on it.'']"

definition computeEconomics :: "EconomicsRequest \<Rightarrow> Entry \<Rightarrow> EconomicsResult" where
  "computeEconomics req e =
     (let out = f_mul (f_mul (ec_AggregateTPS req) secondsPerMonth) (ec_Utilisation req);
          inp = f_mul out (ec_InputRatio req);
          hits = f_mul inp (ec_CacheHitRate req);
          full = f_sub inp hits;
          revOut = f_mul out (e_CompletionUSD e);
          revIn = f_add (f_mul full (e_PromptUSD e)) (f_mul hits (e_CachedPromptUSD e));
          rev = f_add revOut revIn;
          cost = ec_GPUCostPerMonth req;
          margin = f_sub rev cost;
          beu = (if rev > 0 then f_div (f_mul (ec_Utilisation req) cost) rev else 0);
          betps = (if ec_Utilisation req > 0 \<and> rev > 0 then f_div cost (f_div rev (ec_AggregateTPS req)) else 0)
      in \<lparr>er_Model = [], er_PromptUSDPerM = f_mul (e_PromptUSD e) 1000000,
          er_CompletionUSDPerM = f_mul (e_CompletionUSD e) 1000000, er_CachedUSDPerM = f_mul (e_CachedPromptUSD e) 1000000,
          er_OutputTokensPerMonth = out, er_InputTokensPerMonth = inp, er_RevenueOutput = revOut, er_RevenueInput = revIn,
          er_RevenueTotal = rev, er_Cost = cost, er_Margin = margin,
          er_MarginPercent = (if rev > 0 then f_mul (f_div margin rev) 100 else 0),
          er_RevenuePerDay = f_div rev 30, er_MarginPerDay = f_div margin 30,
          er_BreakEvenUtilisation = beu, er_BreakEvenTPS = betps,
          er_Verdict = economics_verdict beu betps (ec_AggregateTPS req), er_Notes = economics_notes req\<rparr>)"

definition normalise_request :: "EconomicsRequest \<Rightarrow> EconomicsRequest" where
  "normalise_request req =
     (let req = (if ec_Utilisation req \<le> 0 \<or> ec_Utilisation req > 1 then req\<lparr>ec_Utilisation := 1 / 4\<rparr> else req);
          req = (if ec_InputRatio req \<le> 0 then req\<lparr>ec_InputRatio := 5\<rparr> else req)
      in if ec_CacheHitRate req < 0 \<or> ec_CacheHitRate req > 1 then req\<lparr>ec_CacheHitRate := 0\<rparr> else req)"

definition adminEconomics :: "EconomicsRequest option \<Rightarrow> Catalog \<Rightarrow> response + EconomicsResult" where
  "adminEconomics body cat =
     (case body of
        None \<Rightarrow> Inl (writeError 400 ''invalid_request_error'' ''invalid request body'')
      | Some req \<Rightarrow>
          (case Catalog_Get cat (ec_Model req) of
             None \<Rightarrow> Inl (writeError 404 ''invalid_request_error'' (''unknown model '' @ ec_Model req))
           | Some entry \<Rightarrow>
               if ec_AggregateTPS req \<le> 0 then
                 Inl (writeError 400 ''invalid_request_error''
                   ''aggregate_tps is required; run a benchmark first rather than guessing it'')
               else Inr ((computeEconomics (normalise_request req) entry)\<lparr>er_Model := ec_Model req\<rparr>)))"

definition economicsSeed :: "sql_real \<Rightarrow> world \<Rightarrow> duration \<Rightarrow> Record list \<Rightarrow> rat \<times> rat \<times> rat" where
  "economicsSeed R w win rs =
     (let t = store_Totals R (w_now w - win) (w_now w) rs
      in if \<not> w_io w \<or> to_Requests t = 0 then (0, 0, 0)
         else (to_TPSAvg t,
               (if to_CompTok t > 0 then f_div (f_of_int (to_PromptTok t)) (f_of_int (to_CompTok t)) else 0),
               (if to_PromptTok t > 0 then f_div (f_of_int (to_CachedTok t)) (f_of_int (to_PromptTok t)) else 0)))"

subsection \<open>The verdict\<close>

lemma f_nonneg [intro]:
  "0 \<le> a \<Longrightarrow> 0 \<le> b \<Longrightarrow> 0 \<le> f_mul a b" "0 \<le> a \<Longrightarrow> 0 \<le> b \<Longrightarrow> 0 \<le> f_add a b" "b \<le> a \<Longrightarrow> 0 \<le> f_sub a b"
  using fl64_mono [of 0 "a * b"] fl64_mono [of 0 "a + b"] fl64_mono [of 0 "a - b"]
  by (simp_all add: f_defs)

lemma f_mul_share:
  assumes "fl64 a = a" and "0 \<le> a" and "s \<le> 1"
  shows "f_mul a s \<le> a" and "f_mul s a \<le> a"
proof -
  have "a * s \<le> a" using mult_left_mono [OF assms(3,2)] by simp
  then show "f_mul a s \<le> a" "f_mul s a \<le> a"
    using fl64_mono [of "a * s" a] assms(1) by (simp_all add: f_mul_def mult.commute)
qed

text \<open>Revenue cannot be negative: the tokens billed at the full rate are what the cached ones leave.\<close>

lemma revenue_nonneg:
  assumes "0 \<le> ec_AggregateTPS req" "0 \<le> ec_Utilisation req" "0 \<le> ec_InputRatio req"
    and "0 \<le> ec_CacheHitRate req" "ec_CacheHitRate req \<le> 1"
    and "0 \<le> e_PromptUSD e" "0 \<le> e_CompletionUSD e" "0 \<le> e_CachedPromptUSD e"
  shows "0 \<le> er_RevenueTotal (computeEconomics req e)"
proof -
  define out where "out = f_mul (f_mul (ec_AggregateTPS req) secondsPerMonth) (ec_Utilisation req)"
  define inp where "inp = f_mul out (ec_InputRatio req)"
  have "0 \<le> out" unfolding out_def by (intro f_nonneg) (use assms in \<open>simp_all add: secondsPerMonth_def\<close>)
  then have inp: "0 \<le> inp" using assms by (auto simp: inp_def)
  have "f_mul inp (ec_CacheHitRate req) \<le> inp"
    using inp assms(5) by (intro f_mul_share) (simp_all add: inp_def f_mul_def fl64_idem)
  then have "0 \<le> f_sub inp (f_mul inp (ec_CacheHitRate req))" by (rule f_nonneg)
  with \<open>0 \<le> out\<close> inp assms show ?thesis
    by (auto simp: computeEconomics_def Let_def out_def [symmetric] inp_def [symmetric])
qed

text \<open>
  The calculator does not contradict itself. Whenever a request is answered and the monthly revenue covers the cost,
  the margin is not negative and the break-even share of the month is at most the whole month, so the verdict is not
  that the model loses money at full utilisation; and whenever the cost exceeds the revenue, the margin is not positive.
  This holds with every rounding of float64 accounted for.
\<close>

theorem verdict_consistent:
  assumes "adminEconomics (Some req) cat = Inr res" and "fl64 (ec_GPUCostPerMonth req) = ec_GPUCostPerMonth req"
    and "0 \<le> ec_GPUCostPerMonth req"
  shows "er_Cost res = ec_GPUCostPerMonth req \<and>
    (er_Cost res \<le> er_RevenueTotal res \<longrightarrow> 0 \<le> er_Margin res \<and> er_BreakEvenUtilisation res \<le> 1) \<and>
    (er_RevenueTotal res \<le> er_Cost res \<longrightarrow> er_Margin res \<le> 0)"
proof -
  obtain entry where res: "res = (computeEconomics (normalise_request req) entry)\<lparr>er_Model := ec_Model req\<rparr>"
    using assms(1) by (auto simp: adminEconomics_def split: option.splits if_splits)
  define q where "q = normalise_request req"
  have u: "0 < ec_Utilisation q" "ec_Utilisation q \<le> 1" and c: "ec_GPUCostPerMonth q = ec_GPUCostPerMonth req"
    by (simp_all add: q_def normalise_request_def Let_def)
  let ?rev = "er_RevenueTotal res" and ?cost = "ec_GPUCostPerMonth req"
  have cost: "er_Cost res = ?cost" and margin: "er_Margin res = f_sub ?rev ?cost"
    and beu: "er_BreakEvenUtilisation res = (if ?rev > 0 then f_div (f_mul (ec_Utilisation q) ?cost) ?rev else 0)"
    by (simp_all add: res computeEconomics_def Let_def c [unfolded q_def] q_def)
  have "er_BreakEvenUtilisation res \<le> 1" if "?cost \<le> ?rev"
  proof (cases "0 < ?rev")
    case True
    have "f_mul (ec_Utilisation q) ?cost \<le> ?rev"
      using f_mul_share(2) [OF assms(2,3) u(2)] that by linarith
    then have "f_mul (ec_Utilisation q) ?cost / ?rev \<le> 1" using True by simp
    then show ?thesis using True beu fl64_mono [of _ 1] fl64_of_int [of 1] by (simp add: f_div_def)
  qed (simp add: beu)
  moreover have "0 \<le> er_Margin res" if "?cost \<le> ?rev" using that by (auto simp: margin)
  moreover have "er_Margin res \<le> 0" if "?rev \<le> ?cost"
    using that fl64_mono [of "?rev - ?cost" 0] by (simp add: margin f_sub_def)
  ultimately show ?thesis using cost by simp
qed

text \<open>
  Hardware that costs nothing is reported as a model priced at zero, whatever its prices: the verdict looks at the
  break-even share, which is 0 for both.
\<close>

theorem free_hardware_verdict:
  assumes "adminEconomics (Some req) cat = Inr res" and "ec_GPUCostPerMonth req = 0"
  shows "er_Verdict res = zero_price_verdict"
proof -
  obtain entry where res: "res = (computeEconomics (normalise_request req) entry)\<lparr>er_Model := ec_Model req\<rparr>"
    using assms(1) by (auto simp: adminEconomics_def split: option.splits if_splits)
  have "ec_GPUCostPerMonth (normalise_request req) = 0" using assms(2) by (simp add: normalise_request_def Let_def)
  then show ?thesis unfolding res by (simp add: computeEconomics_def economics_verdict_def f_mul_def f_div_def Let_def)
qed

subsection \<open>A concrete request\<close>

definition sample_economics :: EconomicsRequest where
  "sample_economics = \<lparr>ec_Model = ''m'', ec_GPUCostPerMonth = 1024, ec_AggregateTPS = 1000, ec_Utilisation = 1 / 2,
     ec_InputRatio = 4, ec_CacheHitRate = 0\<rparr>"

definition sample_prices :: Entry where
  "sample_prices = \<lparr>e_ID = ''m'', e_UpstreamModel = ''m'', e_ContextLength = 4096, e_MaxOutput = 1024, e_IsFree = False,
     e_PromptUSD = pow2 (-20), e_CompletionUSD = pow2 (-19), e_CachedPromptUSD = pow2 (-21), e_ReasoningUSD = 0,
     e_DiscountToUser = 0, e_RewriteModel = False, e_modelNeedles = [], e_modelRepls = []\<rparr>"

theorem verdict_consistent_witness:
  "\<exists>res. adminEconomics (Some sample_economics) [(''m'', sample_prices)] = Inr res \<and> er_Cost res = 1024 \<and>
     (er_Cost res \<le> er_RevenueTotal res \<longrightarrow> 0 \<le> er_Margin res)"
proof -
  obtain res where r: "adminEconomics (Some sample_economics) [(''m'', sample_prices)] = Inr res"
    by (simp add: adminEconomics_def sample_economics_def Catalog_Get_def)
  have "fl64 1024 = 1024" using fl64_of_int [of 1024] by simp
  with verdict_consistent [OF r] r show ?thesis by (auto simp: sample_economics_def)
qed

end
