(* ===== verification/Gateway_Bench.thy ===== *)
theory Gateway_Bench
  imports Gateway_Proxy Gateway_Admin Go_Format
begin

text \<open>
  The load test (\<^verbatim>\<open>src/internal/gateway/benchmark.go\<close>): the writer that stands in for a client, one call through the real
  request path, a level of concurrent calls, the sweep and the recommendation. The requests of a level are counted in
  the order in which they take the mutex; the semaphore that bounds them is a step relation.
\<close>

record BenchRequest =
  br_Model :: string
  br_Concurrency :: "int list"
  br_RequestsPerLevel :: int
  br_PromptTokens :: int
  br_MaxTokens :: int

record BenchLevel =
  lv_Concurrency :: int
  lv_Requests :: int
  lv_Errors :: int
  lv_TTFTp50 :: int
  lv_TTFTp95 :: int
  lv_TTFTp99 :: int
  lv_PerRequestTPS :: rat
  lv_AggregateTPS :: rat
  lv_CompletionTok :: int
  lv_PromptTok :: int
  lv_CachedTok :: int
  lv_WallMs :: int

record BenchResult =
  be_Model :: string
  be_Levels :: "BenchLevel list"
  be_BestConcurrency :: int
  be_PeakAggregate :: rat
  be_Note :: string

subsection \<open>The stand-in for a client\<close>

record benchWriter =
  bw_status :: int
  bw_start :: time
  bw_firstToken :: "time option"
  bw_lastToken :: "time option"
  bw_usage :: "usageInfo option"
  bw_partial :: bytes

definition newBenchWriter :: "time \<Rightarrow> benchWriter" where
  "newBenchWriter now = \<lparr>bw_status = 200, bw_start = now, bw_firstToken = None, bw_lastToken = None, bw_usage = None, bw_partial = []\<rparr>"

definition WriteHeader :: "int \<Rightarrow> benchWriter \<Rightarrow> benchWriter" where
  "WriteHeader code b = b\<lparr>bw_status := code\<rparr>"

text \<open>One line of the loop of \<^verbatim>\<open>Write\<close>; \<open>now\<close> is what the clock says when it is looked at.\<close>

definition bench_line :: "time \<Rightarrow> bytes \<Rightarrow> benchWriter \<Rightarrow> benchWriter" where
  "bench_line now line b =
     (case sseData line of
        None \<Rightarrow> b
      | Some payload \<Rightarrow>
          if payload = doneMarker then b
          else if hasUsage payload then (case parseUsage payload of Some u \<Rightarrow> b\<lparr>bw_usage := Some u\<rparr> | None \<Rightarrow> b)
          else if carriesToken payload
          then b\<lparr>bw_firstToken := (case bw_firstToken b of None \<Rightarrow> Some now | Some t \<Rightarrow> Some t), bw_lastToken := Some now\<rparr>
          else b)"

text \<open>
  The loop takes one line after the other from the buffered text, and keeps what has no end yet. \<open>clock\<close> says what
  time it is when a given text is left, so that the clock may advance between two lines of one call.
\<close>

function bench_loop :: "(bytes \<Rightarrow> time) \<Rightarrow> bytes \<Rightarrow> benchWriter \<Rightarrow> benchWriter" where
  "bench_loop clock buf b =
     (case first_index (\<lambda>c. c = newline) buf of
        None \<Rightarrow> b\<lparr>bw_partial := buf\<rparr>
      | Some i \<Rightarrow> bench_loop clock (drop (Suc i) buf) (bench_line (clock (drop (Suc i) buf)) (take (Suc i) buf) b))"
  by pat_completeness auto
termination
  by (relation "measure (\<lambda>(_, buf, _). length buf)") (auto dest: first_index_Some)

declare bench_loop.simps [simp del]

definition bench_Write :: "(bytes \<Rightarrow> time) \<Rightarrow> bytes \<Rightarrow> benchWriter \<Rightarrow> benchWriter" where
  "bench_Write clock p b = bench_loop clock (bw_partial b @ p) b"

subsection \<open>One request\<close>

definition prompt_filler :: string where
  "prompt_filler = ''The quick brown fox jumps over the lazy dog while the system processes tokens and measures latency under sustained load. ''"

function prompt_loop :: "int \<Rightarrow> string \<Rightarrow> string" where
  "prompt_loop target b = (if int (length b) < target then prompt_loop target (b @ prompt_filler) else b)"
  by pat_completeness auto
termination
  by (relation "measure (\<lambda>(target, b). nat (target - int (length b)))") (auto simp: prompt_filler_def)

declare prompt_loop.simps [simp del]

definition syntheticPrompt :: "int \<Rightarrow> string" where
  "syntheticPrompt n = prompt_loop (int64 (n * 4)) (''Summarise the following text.'' @ [newline, newline])"

text \<open>The encoding of the body, whose map is written in the order of its keys.\<close>

definition json_text :: "string \<Rightarrow> bytes" where
  "json_text s = quoted (quote_go s)"

definition bench_body :: "BenchRequest \<Rightarrow> string \<Rightarrow> bytes" where
  "bench_body req prompt =
     ''{'' @ json_key ''max_tokens'' @ Itoa (br_MaxTokens req) @
     '','' @ json_key ''messages'' @ ''[{'' @ json_key ''content'' @ json_text prompt @ '','' @ json_key ''role'' @ json_text ''user'' @ ''}]'' @
     '','' @ json_key ''model'' @ json_text (br_Model req) @
     '','' @ json_key ''stream'' @ ''true'' @
     '','' @ json_key ''stream_options'' @ ''{'' @ json_key ''include_usage'' @ ''true}'' @
     '','' @ json_key ''temperature'' @ ''0}''"

text \<open>What the reply of the request path does to the writer: its status, and each of its writes.\<close>

definition bench_receive :: "(bytes \<Rightarrow> time) \<Rightarrow> (response \<Rightarrow> bytes) \<Rightarrow> reply \<Rightarrow> benchWriter \<Rightarrow> benchWriter" where
  "bench_receive clock render reply b =
     (case reply of
        Refused _ resp \<Rightarrow> bench_Write clock (render resp) (WriteHeader (rs_status resp) b)
      | Relayed status _ body \<Rightarrow> bench_Write clock body (WriteHeader status b)
      | Streamed frames \<Rightarrow> foldl (\<lambda>b frame. bench_Write clock frame b) (WriteHeader 200 b) frames
      | Silent \<Rightarrow> b | Crashed \<Rightarrow> b | Pending \<Rightarrow> b)"

definition bench_call ::
  "(bytes \<Rightarrow> bytes option) \<Rightarrow> (Backend \<Rightarrow> string \<Rightarrow> bytes \<Rightarrow> upstream_reply) \<Rightarrow> (server \<Rightarrow> server) \<Rightarrow> (response \<Rightarrow> bytes) \<Rightarrow>
   (bytes \<Rightarrow> time) \<Rightarrow> BenchRequest \<Rightarrow> string \<Rightarrow> inference \<Rightarrow> server \<Rightarrow> benchWriter \<times> server" where
  "bench_call fmt send meanwhile render clock req prompt i sv =
     (case serveInference fmt send meanwhile
             (i\<lparr>i_body := Body (bench_body req prompt), i_path := ''/chat/completions'', i_keyID := playgroundKeyID, i_rpmLimit := 0\<rparr>) sv of
        (reply, sv') \<Rightarrow> (bench_receive clock render reply (newBenchWriter (i_start i)), sv'))"

subsection \<open>A level\<close>

text \<open>The requests of a level that wait for the semaphore, run, and are done.\<close>

inductive sem_step :: "nat \<Rightarrow> nat \<times> nat \<times> nat \<Rightarrow> nat \<times> nat \<times> nat \<Rightarrow> bool" for concurrency where
  start: "running < concurrency \<Longrightarrow> sem_step concurrency (Suc waiting, running, done) (waiting, Suc running, done)"
| finish: "sem_step concurrency (waiting, Suc running, done) (waiting, running, Suc done)"

inductive_simps sem_step_iff: "sem_step c (w, r, d) s'"

definition pct :: "int list \<Rightarrow> rat \<Rightarrow> int" where
  "pct vals p =
     (if vals = [] then 0
      else let i = f_trunc (f_mul (f_of_int (int (length vals))) (fl64 p));
               i = (if i \<ge> int (length vals) then int (length vals) - 1 else i)
           in sort vals ! nat i)"

definition medianFloat :: "rat list \<Rightarrow> rat" where
  "medianFloat v = (if v = [] then 0 else sort v ! (length v div 2))"

text \<open>A finished request: its writer and the time at which its duration is taken.\<close>

type_synonym bench_outcome = "benchWriter \<times> time"

definition count_outcome :: "int \<Rightarrow> bench_outcome \<Rightarrow> BenchLevel \<times> int list \<times> rat list \<Rightarrow> BenchLevel \<times> int list \<times> rat list" where
  "count_outcome maxTokens oc acc =
     (case (oc, acc) of ((bw, fin), (lv, ttfts, perReq)) \<Rightarrow>
        (case bw_firstToken bw of
           None \<Rightarrow> (lv\<lparr>lv_Errors := lv_Errors lv + 1\<rparr>, ttfts, perReq)
         | Some first \<Rightarrow>
             if bw_status bw \<noteq> 200 then (lv\<lparr>lv_Errors := lv_Errors lv + 1\<rparr>, ttfts, perReq)
             else
               let out = (case bw_usage bw of Some u \<Rightarrow> u_CompletionTokens u | None \<Rightarrow> maxTokens);
                   lv' = (case bw_usage bw of
                            Some u \<Rightarrow> lv\<lparr>lv_CompletionTok := lv_CompletionTok lv + u_CompletionTokens u,
                                         lv_PromptTok := lv_PromptTok lv + u_PromptTokens u,
                                         lv_CachedTok := lv_CachedTok lv + cached u\<rparr>
                          | None \<Rightarrow> lv\<lparr>lv_CompletionTok := lv_CompletionTok lv + out\<rparr>);
                   secs = seconds_between (bw_start bw) fin
               in (lv', ttfts @ [Milliseconds (first - bw_start bw)],
                   (if secs > 0 then perReq @ [f_div (f_of_int out) secs] else perReq))))"

datatype level_run = LevelDone BenchLevel | LevelPanics | LevelHangs

text \<open>
  A channel cannot have a negative capacity; one of capacity 0 takes no element while nobody receives, so that no
  request of the level ever starts.
\<close>

definition runBenchLevel :: "BenchRequest \<Rightarrow> int \<Rightarrow> bench_outcome list \<Rightarrow> int \<Rightarrow> level_run" where
  "runBenchLevel req concurrency outcomes wallMs =
     (if concurrency < 0 then LevelPanics
      else if concurrency = 0 then LevelHangs
      else
        let lv0 = \<lparr>lv_Concurrency = concurrency, lv_Requests = br_RequestsPerLevel req, lv_Errors = 0, lv_TTFTp50 = 0, lv_TTFTp95 = 0,
                   lv_TTFTp99 = 0, lv_PerRequestTPS = 0, lv_AggregateTPS = 0, lv_CompletionTok = 0, lv_PromptTok = 0,
                   lv_CachedTok = 0, lv_WallMs = wallMs\<rparr>
        in case foldl (\<lambda>acc oc. count_outcome (br_MaxTokens req) oc acc) (lv0, [], []) outcomes of
             (lv, ttfts, perReq) \<Rightarrow>
               LevelDone (lv\<lparr>lv_AggregateTPS :=
                              (if wallMs > 0 then f_div (f_of_int (lv_CompletionTok lv)) (f_div (f_of_int wallMs) 1000) else 0),
                            lv_TTFTp50 := pct ttfts (50 / 100), lv_TTFTp95 := pct ttfts (95 / 100),
                            lv_TTFTp99 := pct ttfts (99 / 100), lv_PerRequestTPS := medianFloat perReq\<rparr>))"

subsection \<open>The sweep\<close>

definition best_level :: "BenchLevel list \<Rightarrow> rat \<times> int" where
  "best_level levels =
     foldl (\<lambda>(peak, best) lv.
       if lv_Errors lv = 0 \<and> lv_AggregateTPS lv \<ge> peak then (lv_AggregateTPS lv, lv_Concurrency lv) else (peak, best))
       (0, 0) levels"

definition clean_levels :: "BenchLevel list \<Rightarrow> BenchLevel list" where
  "clean_levels levels = filter (\<lambda>lv. lv_Errors lv = 0) levels"

definition bench_knee :: "rat \<Rightarrow> BenchLevel list \<Rightarrow> BenchLevel" where
  "bench_knee peak clean =
     (case find (\<lambda>lv. lv_AggregateTPS lv \<ge> f_mul peak (fl64 (95 / 100))) clean of Some lv \<Rightarrow> lv | None \<Rightarrow> last clean)"

definition err_note :: "BenchLevel list \<Rightarrow> string" where
  "err_note errored =
     (case errored of
        [] \<Rightarrow> []
      | e # _ \<Rightarrow>
          '' Concurrency '' @ Itoa (lv_Concurrency e) @ '' and above returned errors ('' @ Itoa (lv_Errors e) @ '' at '' @
          Itoa (lv_Concurrency e) @ '') and is excluded: a rejected request finishes instantly and inflates the aggregate. That is the engine refusing load past its slot count -- raise its own limit (llama.cpp --parallel, vLLM --max-num-seqs) if you want to serve more at once.'')"

text \<open>
  A quotient by a first aggregate of 0 is infinite or not a number, and no such value is below 1.25.
\<close>

definition trade_note :: "BenchLevel \<Rightarrow> BenchLevel \<Rightarrow> string" where
  "trade_note first best =
     (if lv_Concurrency best > lv_Concurrency first \<and> lv_PerRequestTPS best > 0 \<and> lv_PerRequestTPS first > 0 \<and>
         lv_AggregateTPS first \<noteq> 0
      then let gain = f_div (lv_AggregateTPS best) (lv_AggregateTPS first);
               loss = f_div (lv_PerRequestTPS first) (lv_PerRequestTPS best)
           in if gain < 5 / 4 \<and> loss > 3 / 2
              then '' Going from '' @ Itoa (lv_Concurrency first) @ '' to '' @ Itoa (lv_Concurrency best) @
                   '' concurrent raised aggregate throughput only '' @ fmt_fixed 0 (f_mul (f_sub gain 1) 100) @ ''% ('' @
                   fmt_fixed 0 (lv_AggregateTPS first) @ '' to '' @ fmt_fixed 0 (lv_AggregateTPS best) @
                   '' tok/s) while cutting per-request throughput '' @ fmt_fixed 1 loss @ ''x ('' @
                   fmt_fixed 0 (lv_PerRequestTPS first) @ '' to '' @ fmt_fixed 0 (lv_PerRequestTPS best) @
                   '' tok/s). OpenRouter ranks you on per-request, so on this hardware concurrency buys almost nothing and costs a great deal.''
              else []
      else [])"

definition benchNote :: "BenchResult \<Rightarrow> string" where
  "benchNote r =
     (if length (be_Levels r) < 2 then []
      else
        let clean = clean_levels (be_Levels r); errored = filter (\<lambda>lv. lv_Errors lv \<noteq> 0) (be_Levels r); errNote = err_note errored
        in if clean = [] then ''Every level returned errors, so none of them is a safe setting.'' @ errNote
           else
             let best = last clean; prev = clean ! (length clean - 2)
             in if errored = [] \<and> length clean \<ge> 2 \<and> lv_AggregateTPS best > f_mul (lv_AggregateTPS prev) (fl64 (105 / 100))
                then ''Aggregate throughput was still climbing at '' @ Itoa (lv_Concurrency best) @ '' concurrent ('' @
                     fmt_fixed 0 (lv_AggregateTPS best) @ '' tok/s, up from '' @ fmt_fixed 0 (lv_AggregateTPS prev) @
                     ''), so the backend is not yet saturated. Re-run with higher levels to find the ceiling.''
                else
                  let knee = bench_knee (be_PeakAggregate r) clean
                  in ''Aggregate throughput flattened at about '' @ Itoa (lv_Concurrency knee) @ '' concurrent ('' @
                     fmt_fixed 0 (be_PeakAggregate r) @ '' tok/s); the peak of '' @ fmt_fixed 0 (be_PeakAggregate r) @ '' tok/s at '' @
                     Itoa (be_BestConcurrency r) @ '' is within noise of it. Set the backend's max_concurrency near '' @
                     Itoa (lv_Concurrency knee) @
                     '': beyond the knee the backend is saturated and extra concurrency only costs latency.'' @
                     trade_note (hd clean) best @ errNote)"

datatype bench_event = Progress int | Level BenchLevel | Result BenchResult | BenchDone

datatype bench_end = Completed | ClientLeft | SweepPanicked | SweepHung

text \<open>
  The loop over the levels: \<open>gone n\<close> says whether the operator has left before level \<open>n\<close>, \<open>measure n\<close> gives the outcomes
  and the duration of its requests.
\<close>

fun sweep :: "BenchRequest \<Rightarrow> (nat \<Rightarrow> bool) \<Rightarrow> (nat \<Rightarrow> bench_outcome list \<times> int) \<Rightarrow> nat \<Rightarrow> int list \<Rightarrow>
    bench_event list \<times> BenchLevel list \<times> bench_end" where
  "sweep req gone meas n [] = ([], [], Completed)"
| "sweep req gone meas n (level # rest) =
     (if gone n then ([], [], ClientLeft)
      else case runBenchLevel req level (fst (meas n)) (snd (meas n)) of
        LevelPanics \<Rightarrow> ([Progress level], [], SweepPanicked)
      | LevelHangs \<Rightarrow> ([Progress level], [], SweepHung)
      | LevelDone lv \<Rightarrow>
          (case sweep req gone meas (Suc n) rest of
             (evs, lvs, fin) \<Rightarrow> (Progress level # Level lv # evs, lv # lvs, fin)))"

definition bench_defaults :: "BenchRequest \<Rightarrow> BenchRequest" where
  "bench_defaults req =
     req\<lparr>br_Concurrency := (if br_Concurrency req = [] then [1, 4, 8, 16] else br_Concurrency req),
         br_RequestsPerLevel := (if br_RequestsPerLevel req \<le> 0 then 8 else br_RequestsPerLevel req),
         br_PromptTokens := (if br_PromptTokens req \<le> 0 then 512 else br_PromptTokens req),
         br_MaxTokens := (if br_MaxTokens req \<le> 0 then 128 else br_MaxTokens req)\<rparr>"

definition adminBenchmark ::
  "BenchRequest option \<Rightarrow> Pool \<Rightarrow> (nat \<Rightarrow> bool) \<Rightarrow> (nat \<Rightarrow> bench_outcome list \<times> int) \<Rightarrow>
   response + bench_event list \<times> bench_end" where
  "adminBenchmark body pool gone meas =
     (case body of
        None \<Rightarrow> Inl (writeError 400 ''invalid_request_error'' ''invalid request body'')
      | Some req0 \<Rightarrow>
          if br_Model req0 = [] then Inl (writeError 400 ''invalid_request_error'' ''model is required'')
          else if \<not> Available pool (br_Model req0) then
            Inl (writeError 412 ''server_error'' (''no healthy backend is serving '' @ br_Model req0 @ '' right now''))
          else
            let req = bench_defaults req0; amount = int64 (int (length (br_Concurrency req)) * br_RequestsPerLevel req)
            in if \<exists>c \<in> set (br_Concurrency req). c > 128 then
                 Inl (writeError 400 ''invalid_request_error''
                   ''concurrency above 128 is not accepted; it would saturate the endpoint'')
               else if amount > 512 then
                 Inl (writeError 400 ''invalid_request_error''
                   (''that sweep is '' @ Itoa amount @ '' requests; keep it under 512''))
               else
                 (case sweep req gone meas 0 (br_Concurrency req) of
                    (evs, levels, Completed) \<Rightarrow>
                      (case best_level levels of
                         (peak, best) \<Rightarrow>
                           let r = \<lparr>be_Model = br_Model req, be_Levels = levels, be_BestConcurrency = best,
                                    be_PeakAggregate = peak, be_Note = []\<rparr>
                           in Inr (evs @ [Result (r\<lparr>be_Note := benchNote r\<rparr>), BenchDone], Completed))
                  | (evs, levels, fin) \<Rightarrow> Inr (evs, fin)))"

subsection \<open>The stand-in sees the stream, not its pieces\<close>

lemma bench_line_partial: "bench_line now l (b\<lparr>bw_partial := x\<rparr>) = (bench_line now l b)\<lparr>bw_partial := x\<rparr>"
  by (simp add: bench_line_def split: option.split)

lemma bench_loop_partial: "bench_loop clock buf (b\<lparr>bw_partial := x\<rparr>) = bench_loop clock buf b"
proof (induction clock buf b rule: bench_loop.induct)
  case (1 clock buf b)
  show ?case
  proof (cases "first_index (\<lambda>c. c = newline) buf")
    case None
    then show ?thesis by (simp add: bench_loop.simps [of clock buf])
  next
    case (Some i)
    then show ?thesis using "1.IH" [OF Some]
      by (simp add: bench_loop.simps [of clock buf] bench_line_partial)
  qed
qed

lemma first_index_append: "first_index P xs = Some i \<Longrightarrow> first_index P (xs @ ys) = Some i"
  by (induction xs arbitrary: i) (auto split: if_splits)

lemma bench_loop_append:
  assumes "clock = (\<lambda>_. t)"
  shows "bench_loop clock (buf @ q) b = bench_loop clock (bw_partial (bench_loop clock buf b) @ q) (bench_loop clock buf b)"
  using assms
proof (induction clock buf b rule: bench_loop.induct)
  case (1 clock buf b)
  show ?case
  proof (cases "first_index (\<lambda>c. c = newline) buf")
    case None
    then have "bench_loop clock buf b = b\<lparr>bw_partial := buf\<rparr>" by (simp add: bench_loop.simps)
    then show ?thesis by (simp add: bench_loop_partial)
  next
    case (Some i)
    have i: "Suc i \<le> length buf" using first_index_Some [OF Some] by simp
    have "bench_loop clock (buf @ q) b = bench_loop clock (drop (Suc i) buf @ q) (bench_line t (take (Suc i) buf) b)"
      using i "1.prems" by (subst bench_loop.simps) (simp add: first_index_append [OF Some])
    moreover have "bench_loop clock buf b = bench_loop clock (drop (Suc i) buf) (bench_line t (take (Suc i) buf) b)"
      using "1.prems" by (subst bench_loop.simps) (simp add: Some)
    ultimately show ?thesis using "1.IH" [OF Some "1.prems"] "1.prems" by simp
  qed
qed

text \<open>
  What the load test measures does not depend on how the relay's output is cut into writes: writing a stream in two
  pieces leaves the stand-in for the client in exactly the state that writing it at once does, with the same usage, the
  same first token and the same unfinished line, wherever the cut falls, even in the middle of a frame.
\<close>

theorem bench_Write_pieces:
  "bench_Write (\<lambda>_. t) q (bench_Write (\<lambda>_. t) p b) = bench_Write (\<lambda>_. t) (p @ q) b"
  using bench_loop_append [OF refl, of t "bw_partial b @ p" q b] by (simp add: bench_Write_def)

subsection \<open>A level ends\<close>

lemma sem_step_inv:
  assumes "(sem_step c)\<^sup>*\<^sup>* (n, 0, 0) (w, r, d)"
  shows "w + r + d = n \<and> r \<le> c"
  using assms
proof (induction "(w, r, d)" arbitrary: w r d rule: rtranclp_induct)
  case (step y)
  then show ?case by (cases y) (auto elim!: sem_step.cases)
qed simp

lemma sem_step_decreases: "sem_step c (w, r, d) (w', r', d') \<Longrightarrow> 2 * w' + r' < 2 * w + r"
  by (auto elim: sem_step.cases)


subsection \<open>The recommendation\<close>

text \<open>The fold keeps the highest aggregate of the levels without errors, and the last level that has it.\<close>

lemma best_level_snoc:
  "best_level (xs @ [lv]) =
     (if lv_Errors lv = 0 \<and> lv_AggregateTPS lv \<ge> fst (best_level xs) then (lv_AggregateTPS lv, lv_Concurrency lv) else best_level xs)"
  by (simp add: best_level_def split_def)

lemma best_level_none: "clean_levels xs = [] \<Longrightarrow> best_level xs = (0, 0)"
  by (induction xs rule: rev_induct) (simp_all add: best_level_snoc clean_levels_def best_level_def [of "[]"] split: if_splits)

lemma best_level_clean:
  assumes "\<forall>lv \<in> set levels. 0 \<le> lv_AggregateTPS lv" and "clean_levels levels \<noteq> []"
  shows "\<exists>lv \<in> set (clean_levels levels). best_level levels = (lv_AggregateTPS lv, lv_Concurrency lv) \<and>
    (\<forall>other \<in> set (clean_levels levels). lv_AggregateTPS other \<le> lv_AggregateTPS lv)"
  using assms
proof (induction levels rule: rev_induct)
  case (snoc x xs)
  show ?case
  proof (cases "clean_levels xs = []")
    case True
    then have "best_level xs = (0, 0)" by (rule best_level_none)
    with True snoc.prems show ?thesis by (auto simp: best_level_snoc clean_levels_def split: if_splits)
  next
    case False
    with snoc obtain lv where lv: "lv \<in> set (clean_levels xs)" "best_level xs = (lv_AggregateTPS lv, lv_Concurrency lv)"
        "\<forall>other \<in> set (clean_levels xs). lv_AggregateTPS other \<le> lv_AggregateTPS lv"
      by auto
    show ?thesis
    proof (cases "lv_Errors x = 0 \<and> lv_AggregateTPS x \<ge> lv_AggregateTPS lv")
      case True
      with lv show ?thesis
        by (intro bexI [where x = x]) (auto simp: best_level_snoc clean_levels_def intro: order_trans)
    next
      case False
      with lv show ?thesis
        by (intro bexI [where x = lv]) (auto simp: best_level_snoc clean_levels_def)
    qed
  qed
qed (simp add: clean_levels_def)

lemma knee_threshold:
  assumes "0 \<le> peak" and "fl64 peak = peak"
  shows "f_mul peak (fl64 (95 / 100)) \<le> peak"
proof -
  have "fl64 (95 / 100) \<le> fl64 1" by (rule fl64_mono) simp
  then have "fl64 (95 / 100) \<le> 1" using fl64_of_int [of 1] by simp
  from mult_left_mono [OF this assms(1)] have "peak * fl64 (95 / 100) \<le> peak" by simp
  from fl64_mono [OF this] show ?thesis by (simp add: f_mul_def assms(2))
qed

definition sane_level :: "BenchLevel \<Rightarrow> bool" where
  "sane_level lv \<longleftrightarrow> 0 \<le> lv_AggregateTPS lv \<and> fl64 (lv_AggregateTPS lv) = lv_AggregateTPS lv"

text \<open>
  The recommendation never comes from a level that failed requests. When some level served everything, the best
  concurrency of the sweep is that of an error-free level whose throughput no other error-free level exceeds; and the
  level the note recommends is the first error-free one, in the order of the sweep, that reaches 95 percent of this peak.
\<close>

theorem recommendation_clean:
  assumes "\<forall>lv \<in> set levels. sane_level lv" and "clean_levels levels \<noteq> []" and "best_level levels = (peak, best)"
  shows "(\<exists>lv \<in> set levels. lv_Errors lv = 0 \<and> lv_AggregateTPS lv = peak \<and> lv_Concurrency lv = best) \<and>
    (\<forall>lv \<in> set levels. lv_Errors lv = 0 \<longrightarrow> lv_AggregateTPS lv \<le> peak) \<and>
    (\<exists>before after. clean_levels levels = before @ bench_knee peak (clean_levels levels) # after \<and>
       f_mul peak (fl64 (95 / 100)) \<le> lv_AggregateTPS (bench_knee peak (clean_levels levels)) \<and>
       (\<forall>lv \<in> set before. lv_AggregateTPS lv < f_mul peak (fl64 (95 / 100))))"
proof -
  obtain top where top: "top \<in> set (clean_levels levels)" "peak = lv_AggregateTPS top" "best = lv_Concurrency top"
      "\<forall>other \<in> set (clean_levels levels). lv_AggregateTPS other \<le> peak"
    using best_level_clean [of levels] assms by (auto simp: sane_level_def)
  let ?P = "\<lambda>lv. lv_AggregateTPS lv \<ge> f_mul peak (fl64 (95 / 100))"
  have "?P top"
    using knee_threshold [of peak] assms(1) top(1,2) by (auto simp: clean_levels_def sane_level_def)
  then obtain knee where k: "find ?P (clean_levels levels) = Some knee"
    using top(1) by (cases "find ?P (clean_levels levels)") (auto simp: find_None_iff)
  then obtain i where i: "i < length (clean_levels levels)" "?P knee" "knee = clean_levels levels ! i"
      "\<forall>j < i. \<not> ?P (clean_levels levels ! j)"
    by (auto simp: find_Some_iff)
  have knee: "bench_knee peak (clean_levels levels) = knee" unfolding bench_knee_def k by simp
  have "clean_levels levels = take i (clean_levels levels) @ knee # drop (Suc i) (clean_levels levels)"
    using i(1,3) by (simp add: id_take_nth_drop)
  moreover have "\<forall>lv \<in> set (take i (clean_levels levels)). lv_AggregateTPS lv < f_mul peak (fl64 (95 / 100))"
    using i(1,4) by (auto simp: in_set_conv_nth not_le)
  ultimately have "\<exists>before after. clean_levels levels = before @ knee # after \<and>
      (\<forall>lv \<in> set before. lv_AggregateTPS lv < f_mul peak (fl64 (95 / 100)))" by blast
  then show ?thesis unfolding knee using i(2) top by (auto simp: clean_levels_def)
qed

subsection \<open>A concrete sweep\<close>

definition sample_level :: "int \<Rightarrow> int \<Rightarrow> rat \<Rightarrow> BenchLevel" where
  "sample_level c errs tps = \<lparr>lv_Concurrency = c, lv_Requests = 8, lv_Errors = errs, lv_TTFTp50 = 0, lv_TTFTp95 = 0, lv_TTFTp99 = 0,
     lv_PerRequestTPS = 1, lv_AggregateTPS = tps, lv_CompletionTok = 0, lv_PromptTok = 0, lv_CachedTok = 0, lv_WallMs = 1\<rparr>"

definition sample_levels :: "BenchLevel list" where
  "sample_levels = [sample_level 1 0 40, sample_level 4 0 100, sample_level 8 0 101, sample_level 16 3 400]"


theorem recommendation_clean_witness:
  "\<exists>lv \<in> set sample_levels. lv_Errors lv = 0 \<and> lv_AggregateTPS lv = 101 \<and> lv_Concurrency lv = 8"
proof -
  have "\<forall>lv \<in> set sample_levels. sane_level lv"
    using fl64_of_int [of 40] fl64_of_int [of 100] fl64_of_int [of 101] fl64_of_int [of 400]
    by (simp add: sample_levels_def sample_level_def sane_level_def)
  moreover have "clean_levels sample_levels \<noteq> []" "best_level sample_levels = (101, 8)"
    by (simp_all add: sample_levels_def sample_level_def clean_levels_def best_level_def)
  ultimately show ?thesis using recommendation_clean [of sample_levels 101 8] by blast
qed

end
