(* ===== verification/Gateway_Background.thy ===== *)
theory Gateway_Background
  imports Gateway_Server Store_Stats
begin

text \<open>
  The background jobs of the gateway (\<^verbatim>\<open>StartBackground\<close> in \<^verbatim>\<open>src/internal/gateway/server.go\<close>): the rollup at start, and the
  loop that serves the three tickers one tick at a time. \<^verbatim>\<open>AddDate\<close> counts days of the local calendar and is an
  argument, as are the failures of the database statements of a tick.
\<close>

datatype tick = RollupTick | PurgeTick | SweepTick

record job =
  jb_now :: time
  jb_fail_sessions :: "string option"
  jb_fail_hourly :: "string option"
  jb_fail_daily :: "string option"
  jb_fail_purge :: "string option"

definition retention_cutoff :: "(int \<Rightarrow> time \<Rightarrow> time) \<Rightarrow> Config \<Rightarrow> time \<Rightarrow> time" where
  "retention_cutoff add_days cfg now = add_days (- s_RawRetentionDays (c_Server cfg)) now"

definition startup_rollup :: "sql_real \<Rightarrow> (int \<Rightarrow> time \<Rightarrow> time) \<Rightarrow> Config \<Rightarrow> job \<Rightarrow> stats_db \<Rightarrow> stats_db" where
  "startup_rollup R add_days cfg j d =
     snd (Rollup R (retention_cutoff add_days cfg (jb_now j)) (jb_fail_hourly j) (jb_fail_daily j) d)"

definition background_tick ::
  "sql_real \<Rightarrow> (int \<Rightarrow> time \<Rightarrow> time) \<Rightarrow> Config \<Rightarrow> tick \<times> job \<Rightarrow> stats_db \<times> gateway \<Rightarrow> stats_db \<times> gateway" where
  "background_tick R add_days cfg e st =
     (case (e, st) of ((t, j), (d, g)) \<Rightarrow>
        (case t of
           RollupTick \<Rightarrow> (snd (Rollup R (jb_now j - 2 * hour) (jb_fail_hourly j) (jb_fail_daily j) d), g)
         | PurgeTick \<Rightarrow>
             (purge_pass R (retention_cutoff add_days cfg (jb_now j)) (jb_fail_hourly j) (jb_fail_daily j) (jb_fail_purge j) d,
              case jb_fail_sessions j of
                Some _ \<Rightarrow> g | None \<Rightarrow> g\<lparr>g_db := PurgeExpiredSessions (unix (jb_now j)) (g_db g)\<rparr>)
         | SweepTick \<Rightarrow> (d, g\<lparr>g_windows := rl_sweep (jb_now j) (g_windows g)\<rparr>)))"

definition StartBackground ::
  "sql_real \<Rightarrow> (int \<Rightarrow> time \<Rightarrow> time) \<Rightarrow> Config \<Rightarrow> job \<Rightarrow> (tick \<times> job) list \<Rightarrow> stats_db \<times> gateway \<Rightarrow> stats_db \<times> gateway" where
  "StartBackground R add_days cfg boot ticks st =
     fold (background_tick R add_days cfg) ticks (apfst (startup_rollup R add_days cfg boot) st)"

subsection \<open>What the jobs leave alone\<close>

lemma Rollup_requests [simp]: "sd_requests (snd (Rollup R since fh fd d)) = sd_requests d"
  by (auto simp: Rollup_def rollupInto_def split: option.split)

lemma purge_pass_requests:
  "set (sd_requests (purge_pass R cutoff fh fd fp d)) \<subseteq> set (sd_requests d)"
  "r \<in> set (sd_requests d) \<Longrightarrow> UnixMilli cutoff \<le> ts r \<Longrightarrow> r \<in> set (sd_requests (purge_pass R cutoff fh fd fp d))"
  using Rollup_requests [of R cutoff fh fd d]
  by (auto simp: purge_pass_def Purge_def split: prod.split option.split simp del: Rollup_requests)

definition spared :: "(int \<Rightarrow> time \<Rightarrow> time) \<Rightarrow> Config \<Rightarrow> Record \<Rightarrow> tick \<times> job \<Rightarrow> bool" where
  "spared add_days cfg r e \<longleftrightarrow> (fst e = PurgeTick \<longrightarrow> UnixMilli (retention_cutoff add_days cfg (jb_now (snd e))) \<le> ts r)"

definition unexpired :: "session_row \<Rightarrow> tick \<times> job \<Rightarrow> bool" where
  "unexpired s e \<longleftrightarrow> unix (jb_now (snd e)) < sr_expires_at s"

definition keeps ::
  "(int \<Rightarrow> time \<Rightarrow> time) \<Rightarrow> Config \<Rightarrow> (tick \<times> job) list \<Rightarrow> stats_db \<times> gateway \<Rightarrow> stats_db \<times> gateway \<Rightarrow> bool" where
  "keeps add_days cfg es st st' \<longleftrightarrow>
     (\<forall>r \<in> set (sd_requests (fst st)). (\<forall>e \<in> set es. spared add_days cfg r e) \<longrightarrow> r \<in> set (sd_requests (fst st'))) \<and>
     set (sd_requests (fst st')) \<subseteq> set (sd_requests (fst st)) \<and>
     db_users (g_db (snd st')) = db_users (g_db (snd st)) \<and> db_keys (g_db (snd st')) = db_keys (g_db (snd st)) \<and>
     (\<forall>s \<in> set (db_sessions (g_db (snd st))). (\<forall>e \<in> set es. unexpired s e) \<longrightarrow> s \<in> set (db_sessions (g_db (snd st'))))"

lemma background_tick_keeps: "keeps add_days cfg [e] st (background_tick R add_days cfg e st)"
proof -
  obtain t j d and g :: gateway where e: "e = (t, j)" and st: "st = (d, g)" by (metis surj_pair)
  show ?thesis
  proof (cases t)
    case PurgeTick
    have "set (sd_requests (fst (background_tick R add_days cfg e st))) \<subseteq> set (sd_requests d)"
      by (simp add: background_tick_def e st PurgeTick purge_pass_requests(1))
    moreover have "r \<in> set (sd_requests (fst (background_tick R add_days cfg e st)))"
      if "r \<in> set (sd_requests d)" "spared add_days cfg r e" for r
      using that by (simp add: background_tick_def spared_def e st PurgeTick purge_pass_requests(2))
    moreover have "snd (background_tick R add_days cfg e st) = g \<or>
        snd (background_tick R add_days cfg e st) = g\<lparr>g_db := PurgeExpiredSessions (unix (jb_now j)) (g_db g)\<rparr>"
      by (simp add: background_tick_def e st PurgeTick split: option.split)
    then have "db_users (g_db (snd (background_tick R add_days cfg e st))) = db_users (g_db g)"
      "db_keys (g_db (snd (background_tick R add_days cfg e st))) = db_keys (g_db g)"
      "s \<in> set (db_sessions (g_db g)) \<Longrightarrow> unexpired s e \<Longrightarrow> s \<in> set (db_sessions (g_db (snd (background_tick R add_days cfg e st))))" for s
      by (auto simp: PurgeExpiredSessions_def unexpired_def e)
    ultimately show ?thesis unfolding keeps_def st by simp
  next
    case RollupTick
    show ?thesis by (simp add: keeps_def background_tick_def e st RollupTick)
  next
    case SweepTick
    show ?thesis by (simp add: keeps_def background_tick_def e st SweepTick)
  qed
qed

lemma keeps_trans: "keeps add_days cfg es a b \<Longrightarrow> keeps add_days cfg fs b c \<Longrightarrow> keeps add_days cfg (es @ fs) a c"
  unfolding keeps_def set_append
  by (elim conjE, intro conjI) (blast, blast, erule (1) trans, erule (1) trans, blast)

lemma background_run_keeps: "keeps add_days cfg es st (fold (background_tick R add_days cfg) es st)"
proof (induction es arbitrary: st)
  case (Cons e es)
  from keeps_trans [OF background_tick_keeps [of add_days cfg e st R] Cons.IH] show ?case by simp
qed (simp add: keeps_def)


text \<open>
  A negative number of retention days, which the configuration accepts, puts the cutoff into the future: a purge then
  deletes every raw request, and its rollup from the cutoff has aggregated none of them.
\<close>

lemma negative_retention_erases:
  assumes "\<forall>r \<in> set (sd_requests d). ts r < UnixMilli (retention_cutoff add_days cfg (jb_now j))"
    and "jb_fail_hourly j = None" "jb_fail_daily j = None" "jb_fail_purge j = None"
  shows "fst (background_tick R add_days cfg (PurgeTick, j) (d, g)) = d\<lparr>sd_requests := []\<rparr>"
proof -
  let ?c = "retention_cutoff add_days cfg (jb_now j)"
  have "filter (\<lambda>r. UnixMilli ?c \<le> ts r) (sd_requests d) = []" using assms(1) by (auto simp: filter_empty_conv)
  moreover have "filter (\<lambda>r. \<not> ts r < UnixMilli ?c) (sd_requests d) = []" using assms(1) by (auto simp: filter_empty_conv)
  ultimately show ?thesis
    using assms(2-4) by (simp add: background_tick_def purge_pass_def Rollup_def rollupInto_def rollup_rows_def Purge_def)
qed

subsection \<open>A concrete day\<close>

definition purge_job :: job where
  "purge_job = \<lparr>jb_now = 90000 * second, jb_fail_sessions = None, jb_fail_hourly = None, jb_fail_daily = None, jb_fail_purge = None\<rparr>"


end
