(* ===== verification/Gateway_Routes.thy ===== *)
theory Gateway_Routes
  imports Gateway_Admin Access_Guard
begin

text \<open>
  The routing tables of the two listeners (\<^verbatim>\<open>AdminHandler\<close> in \<^verbatim>\<open>src/internal/gateway/admin.go\<close>, \<^verbatim>\<open>PublicHandler\<close> in
  \<^verbatim>\<open>server.go\<close>, \<^verbatim>\<open>publicRoutes\<close> in \<^verbatim>\<open>account.go\<close>): every pattern with the handler it names and the guard around it.
  \<open>handlers\<close> gives what the named handler does to the gateway; its own theory defines it.
\<close>

datatype access = Open | Admin | Customer

type_synonym route = "string \<times> string \<times> access \<times> string"

definition admin_routes :: "route list" where
  "admin_routes =
     [(''POST'', ''/admin/api/login'', Open, ''adminLogin''),
      (''GET'', ''/admin/api/overview'', Admin, ''adminOverview''),
      (''GET'', ''/admin/api/series'', Admin, ''adminSeries''),
      (''GET'', ''/admin/api/models'', Admin, ''adminModels''),
      (''GET'', ''/admin/api/backends'', Admin, ''adminBackends''),
      (''GET'', ''/admin/api/requests'', Admin, ''adminRequests''),
      (''GET'', ''/admin/api/modeldoc'', Admin, ''adminModelDoc''),
      (''GET'', ''/admin/api/nodes'', Admin, ''adminNodes''),
      (''POST'', ''/admin/api/inspect'', Admin, ''adminInspect''),
      (''POST'', ''/admin/api/install'', Admin, ''adminInstall''),
      (''POST'', ''/admin/api/publish'', Admin, ''adminPublish''),
      (''POST'', ''/admin/api/uninstall'', Admin, ''adminUninstall''),
      (''GET'', ''/admin/api/nodes/{node}/logs'', Admin, ''adminNodeLogs''),
      (''GET'', ''/admin/api/nodes/{node}/cache'', Admin, ''adminNodeCache''),
      (''POST'', ''/admin/api/nodes/{node}/cache/delete'', Admin, ''adminNodeCacheDelete''),
      (''POST'', ''/admin/api/nodes/{node}/stop'', Admin, ''adminNodeStop''),
      (''GET'', ''/admin/api/playground/models'', Admin, ''adminPlaygroundModels''),
      (''POST'', ''/admin/api/playground'', Admin, ''adminPlayground''),
      (''POST'', ''/admin/api/benchmark'', Admin, ''adminBenchmark''),
      (''POST'', ''/admin/api/economics'', Admin, ''adminEconomics''),
      (''GET'', ''/admin/api/keys'', Admin, ''adminListKeys''),
      (''POST'', ''/admin/api/keys'', Admin, ''adminCreateKey''),
      (''DELETE'', ''/admin/api/keys/{id}'', Admin, ''adminDeleteKey''),
      (''POST'', ''/admin/api/keys/{id}/toggle'', Admin, ''adminToggleKey''),
      (''GET'', ''/admin/api/auth'', Open, ''adminAuthState''),
      (''POST'', ''/admin/api/setup'', Open, ''adminSetup''),
      (''POST'', ''/admin/api/logout'', Open, ''adminLogout''),
      (''GET'', ''/admin/api/users'', Admin, ''adminListUsers''),
      (''POST'', ''/admin/api/users'', Admin, ''adminCreateUser''),
      (''POST'', ''/admin/api/users/password'', Admin, ''adminChangePassword''),
      (''DELETE'', ''/admin/api/users/{id}'', Admin, ''adminDeleteUser'')]"

definition publicRoutes :: "route list" where
  "publicRoutes =
     [(''POST'', ''/api/register'', Open, ''userRegister''),
      (''POST'', ''/api/login'', Open, ''userLogin''),
      (''POST'', ''/api/logout'', Open, ''userLogout''),
      (''GET'', ''/api/me'', Open, ''userMe''),
      (''GET'', ''/api/keys'', Customer, ''userListKeys''),
      (''POST'', ''/api/keys'', Customer, ''userCreateKey''),
      (''DELETE'', ''/api/keys/{id}'', Customer, ''userDeleteKey''),
      (''GET'', ''/api/usage'', Customer, ''userUsage''),
      (''GET'', ''/api/requests'', Customer, ''userRequests''),
      (''POST'', ''/api/password'', Customer, ''userChangePassword'')]"

definition public_routes :: "route list" where
  "public_routes =
     [(''POST'', ''/v1/chat/completions'', Open, ''handleInference''),
      (''POST'', ''/v1/completions'', Open, ''handleInference''),
      (''GET'', ''/v1/models'', Open, ''handleModels''),
      (''GET'', ''/models'', Open, ''handleModels''),
      (''GET'', ''/health'', Open, ''handleHealth'')] @ publicRoutes"

subsection \<open>The multiplexer\<close>

text \<open>
  A wildcard matches one nonempty segment, a \<^verbatim>\<open>GET\<close> pattern also \<^verbatim>\<open>HEAD\<close>. What no pattern of the table matches falls to
  \<^verbatim>\<open>GET /\<close>, which serves files or the root page, and any other method is refused with 405.
\<close>

definition is_wildcard :: "string \<Rightarrow> bool" where
  "is_wildcard p \<longleftrightarrow> HasPrefix p ''{'' \<and> HasSuffix p ''}''"

definition path_matches :: "string \<Rightarrow> string \<Rightarrow> bool" where
  "path_matches pat path \<longleftrightarrow>
     list_all2 (\<lambda>p s. if is_wildcard p then s \<noteq> [] else s = p) (Split pat (CHR ''/'')) (Split path (CHR ''/''))"

datatype target = Handler access string | Files | NotAllowed

definition dispatch :: "route list \<Rightarrow> string \<Rightarrow> string \<Rightarrow> target" where
  "dispatch table method path =
     (case find (\<lambda>(m, pat, acc, name). method_matches m method \<and> path_matches pat path) table of
        Some (m, pat, acc, name) \<Rightarrow> Handler acc name
      | None \<Rightarrow> if method_matches ''GET'' method then Files else NotAllowed)"

datatype reply_to = FilePage | MethodNotAllowed | Reply response

definition serve ::
  "route list \<Rightarrow> (string \<Rightarrow> string) \<Rightarrow> (string \<Rightarrow> world \<Rightarrow> request \<Rightarrow> gateway \<Rightarrow> response \<times> gateway) \<Rightarrow>
   (string \<Rightarrow> world \<Rightarrow> request \<Rightarrow> AdminUser \<Rightarrow> gateway \<Rightarrow> response \<times> gateway) \<Rightarrow> world \<Rightarrow> string \<Rightarrow> string \<Rightarrow> request \<Rightarrow>
   gateway \<Rightarrow> reply_to \<times> gateway" where
  "serve table sha handlers customer w method path r g =
     (case dispatch table method path of
        Files \<Rightarrow> (FilePage, g)
      | NotAllowed \<Rightarrow> (MethodNotAllowed, g)
      | Handler acc name \<Rightarrow>
          apfst Reply
            (case acc of
               Open \<Rightarrow> handlers name w r g
             | Admin \<Rightarrow> admin_guard sha w r (handlers name w r) g
             | Customer \<Rightarrow> userGuard sha (customer name) w r g))"

definition AdminHandler ::
  "(string \<Rightarrow> string) \<Rightarrow> (string \<Rightarrow> world \<Rightarrow> request \<Rightarrow> gateway \<Rightarrow> response \<times> gateway) \<Rightarrow> world \<Rightarrow> string \<Rightarrow> string \<Rightarrow> request \<Rightarrow>
   gateway \<Rightarrow> reply_to \<times> gateway" where
  "AdminHandler sha handlers = serve admin_routes sha handlers (\<lambda>name w r u. handlers name w r)"

definition PublicHandler ::
  "(string \<Rightarrow> string) \<Rightarrow> (string \<Rightarrow> world \<Rightarrow> request \<Rightarrow> gateway \<Rightarrow> response \<times> gateway) \<Rightarrow>
   (string \<Rightarrow> world \<Rightarrow> request \<Rightarrow> AdminUser \<Rightarrow> gateway \<Rightarrow> response \<times> gateway) \<Rightarrow> world \<Rightarrow> string \<Rightarrow> string \<Rightarrow> request \<Rightarrow>
   gateway \<Rightarrow> reply_to \<times> gateway" where
  "PublicHandler = serve public_routes"

subsection \<open>What is reachable without signing in\<close>

definition open_handlers :: "route list \<Rightarrow> string list" where
  "open_handlers table = map (\<lambda>(m, pat, acc, name). name) (filter (\<lambda>(m, pat, acc, name). acc = Open) table)"

lemma dispatch_Handler: "dispatch table method path = Handler acc name \<Longrightarrow> \<exists>m pat. (m, pat, acc, name) \<in> set table"
  by (auto simp: dispatch_def split: option.splits if_splits dest!: find_SomeD)

interpretation admin: access_guard
  "\<lambda>h wr. admin_guard sha (fst wr) (snd wr) (h () wr)"
  "\<lambda>wr g. case requireAdmin sha (fst wr) (snd wr) g of None \<Rightarrow> Some () | Some _ \<Rightarrow> None"
  "\<lambda>resp. rs_status resp \<in> {401, 403}" for sha
  by unfold_locales
    (auto simp: admin_guard_def requireAdmin_def writeError_def Let_def split: option.splits if_splits)

interpretation customer: access_guard
  "\<lambda>h wr. userGuard sha (\<lambda>w r u. h u (w, r)) (fst wr) (snd wr)" "\<lambda>wr. currentUser sha (fst wr) (snd wr)"
  "\<lambda>resp. rs_status resp = 401" for sha
  by unfold_locales (auto simp: userGuard_def writeError_def)

lemma serve_stranger:
  assumes "requireAdmin sha w r g = Some refusal" and "currentUser sha w r g = None"
    and "serve table sha handlers customer w method path r g = (reply, g')"
  shows "g' = g \<and> (reply = FilePage \<or> reply = MethodNotAllowed \<or> (\<exists>resp. reply = Reply resp \<and> rs_status resp \<in> {401, 403})) \<or>
    (\<exists>name \<in> set (open_handlers table). (reply, g') = apfst Reply (handlers name w r g))"
proof (cases "dispatch table method path")
  case (Handler acc name)
  show ?thesis
  proof (cases acc)
    case Open
    with dispatch_Handler [OF Handler] have "name \<in> set (open_handlers table)" by (force simp: open_handlers_def)
    moreover have "(reply, g') = apfst Reply (handlers name w r g)" using assms(3) Handler Open by (simp add: serve_def)
    ultimately show ?thesis by blast
  next
    case Admin
    from admin.refuses [of sha "(w, r)" g "\<lambda>_ wr. handlers name (fst wr) (snd wr)"] assms(1,3) Handler Admin
    show ?thesis by (auto simp: serve_def)
  next
    case Customer
    from customer.refuses [of sha "(w, r)" g "\<lambda>u wr. customer name (fst wr) (snd wr) u"] assms(2,3) Handler Customer
    show ?thesis by (auto simp: serve_def)
  qed
qed (use assms(3) in \<open>simp_all add: serve_def\<close>)

text \<open>
  C12: without a session and without the admin token, the private listener runs nothing but the four handlers of signing
  in: any other request, whatever its method and path, reads only embedded files or is refused with 401, 403 or 405, and
  leaves accounts, keys, sessions and the log of the gateway as they were.
\<close>

theorem admin_surface_guarded:
  assumes "requireAdmin sha w r g = Some refusal" and "currentUser sha w r g = None"
    and "AdminHandler sha handlers w method path r g = (reply, g')"
  shows "g' = g \<and> (reply = FilePage \<or> reply = MethodNotAllowed \<or> (\<exists>resp. reply = Reply resp \<and> rs_status resp \<in> {401, 403})) \<or>
    (\<exists>name \<in> {''adminLogin'', ''adminAuthState'', ''adminSetup'', ''adminLogout''}. (reply, g') = apfst Reply (handlers name w r g))"
proof -
  have "open_handlers admin_routes = [''adminLogin'', ''adminAuthState'', ''adminSetup'', ''adminLogout'']"
    by (simp add: open_handlers_def admin_routes_def)
  with serve_stranger [OF assms(1,2) assms(3) [unfolded AdminHandler_def]] show ?thesis by simp
qed

subsection \<open>A concrete stranger\<close>

definition wiping :: "string \<Rightarrow> world \<Rightarrow> request \<Rightarrow> gateway \<Rightarrow> response \<times> gateway" where
  "wiping name w r g = (writeJSON 200 POk, g\<lparr>g_AdminToken := name\<rparr>)"

lemma stranger_refused: "\<exists>refusal. requireAdmin toy_sha chart_world bearer_request leaked_gateway = Some refusal"
proof -
  have "ExtractBearer (rq_Authorization bearer_request) = ''k''" by code_simp
  then show ?thesis
    by (simp add: requireAdmin_def sessionUser_def cookie_def bearer_request_def plain_request_def leaked_gateway_def Let_def)
qed

theorem admin_surface_guarded_witness:
  "\<exists>reply g'. AdminHandler toy_sha wiping chart_world ''DELETE'' ''/admin/api/keys/7'' bearer_request leaked_gateway = (reply, g') \<and>
     (g' = leaked_gateway \<or>
      (\<exists>name \<in> {''adminLogin'', ''adminAuthState'', ''adminSetup'', ''adminLogout''}.
         (reply, g') = apfst Reply (wiping name chart_world bearer_request leaked_gateway)))"
proof -
  obtain refusal where refused: "requireAdmin toy_sha chart_world bearer_request leaked_gateway = Some refusal"
    using stranger_refused by blast
  have stranger: "currentUser toy_sha chart_world bearer_request leaked_gateway = None"
    by (simp add: currentUser_def sessionUser_def cookie_def bearer_request_def plain_request_def)
  obtain reply g' where a: "AdminHandler toy_sha wiping chart_world ''DELETE'' ''/admin/api/keys/7'' bearer_request leaked_gateway = (reply, g')"
    by (metis surj_pair)
  from admin_surface_guarded [OF refused stranger a] a show ?thesis by blast
qed

end
