(* ===== verification/Agent_Hardware.thy ===== *)
theory Agent_Hardware
  imports Agent_Server Go_Regexp Go_Format
begin

text \<open>
  What the agent finds out about its machine (\<^verbatim>\<open>src/internal/agent/hardware.go\<close>). The machine is the argument \<open>host\<close>:
  the output of the commands the agent runs (\<open>None\<close> when the command fails or is missing), the files below
  \<^verbatim>\<open>/proc\<close> and \<^verbatim>\<open>/sys\<close>, and \<^verbatim>\<open>statfs\<close>. The import of torch in the background is the state \<open>torch_probe\<close>.
\<close>

record host =
  ho_GOOS :: string
  ho_NumCPU :: int
  ho_smi_query :: "string option"
  ho_smi :: "string option"
  ho_file :: "string \<Rightarrow> bytes option"
  ho_sysctl :: "string \<Rightarrow> string option"
  ho_statfs :: "string \<Rightarrow> (int \<times> int) option"
  ho_block :: "string list option"
  ho_python :: "string \<Rightarrow> string option"

text \<open>
  \<^verbatim>\<open>bufio.Scanner\<close>: the lines without their end, until one that does not fit the buffer of 64 KiB.
\<close>

definition scan_lines :: "bytes \<Rightarrow> string list" where
  "scan_lines s =
     map (\<lambda>l. TrimSuffix l [CHR 0x0D])
       (takeWhile (\<lambda>l. length l < 65536)
          (let ls = Split s (CHR 0x0A) in if last ls = [] then butlast ls else ls))"

subsection \<open>Probes\<close>

definition gpu_line :: "string \<Rightarrow> GPU option" where
  "gpu_line line =
     (let parts = Split line (CHR '','')
      in if length parts < 3 then None
         else case Atoi (TrimSpace (parts ! 2)) of (mib, ok) \<Rightarrow>
           if \<not> ok then None
           else Some \<lparr>gpu_Name = TrimSpace (parts ! 1), gpu_VRAMBytes = int64 (mib * 1024 * 1024),
                      gpu_Index = fst (Atoi (TrimSpace (parts ! 0)))\<rparr>)"

definition detectGPUs :: "host \<Rightarrow> GPU list" where
  "detectGPUs h =
     (case ho_smi_query h of
        None \<Rightarrow> []
      | Some out \<Rightarrow> List.map_filter gpu_line (Split (TrimSpace out) (CHR 0x0A)))"

definition detectCPUModel :: "host \<Rightarrow> string" where
  "detectCPUModel h =
     (if ho_GOOS h = ''linux'' then
        (case ho_file h ''/proc/cpuinfo'' of
           None \<Rightarrow> []
         | Some f \<Rightarrow>
             (case find (\<lambda>(name, val, ok). ok \<and> TrimSpace name = ''model name'') (map (\<lambda>l. Cut l '':'') (scan_lines f)) of
                None \<Rightarrow> [] | Some (name, val, ok) \<Rightarrow> TrimSpace val))
      else if ho_GOOS h = ''darwin'' then
        (case ho_sysctl h ''machdep.cpu.brand_string'' of None \<Rightarrow> [] | Some out \<Rightarrow> TrimSpace out)
      else [])"

definition meminfo_line :: "string \<Rightarrow> int option" where
  "meminfo_line l =
     (case Cut l '':'' of (key, val, ok) \<Rightarrow>
        if ok \<and> key = ''MemTotal''
        then (case FieldsFunc val is_space of
                [] \<Rightarrow> None
              | f # _ \<Rightarrow> (case Atoi f of (kb, ok) \<Rightarrow> if ok then Some (int64 (kb * 1024)) else None))
        else None)"

definition hostRAM :: "host \<Rightarrow> int" where
  "hostRAM h =
     (if ho_GOOS h = ''linux'' then
        (case ho_file h ''/proc/meminfo'' of
           None \<Rightarrow> 0
         | Some f \<Rightarrow> (case List.map_filter meminfo_line (scan_lines f) of [] \<Rightarrow> 0 | b # _ \<Rightarrow> b))
      else if ho_GOOS h = ''darwin'' then
        (case ho_sysctl h ''hw.memsize'' of
           None \<Rightarrow> 0 | Some out \<Rightarrow> (case Atoi (TrimSpace out) of (b, ok) \<Rightarrow> if ok then b else 0))
      else 0)"

definition parseCgroupMemoryFile :: "host \<Rightarrow> string \<Rightarrow> int" where
  "parseCgroupMemoryFile h path =
     (case ho_file h path of
        None \<Rightarrow> 0
      | Some raw \<Rightarrow>
          let v = TrimSpace raw
          in if v = ''max'' then 0
             else case Atoi v of (n, ok) \<Rightarrow> if \<not> ok \<or> n \<le> 0 then 0 else if n > 2 ^ 62 then 0 else n)"

definition cgroup_files :: "string list" where
  "cgroup_files = [''/sys/fs/cgroup/memory.max'', ''/sys/fs/cgroup/memory/memory.limit_in_bytes'']"

definition cgroupMemoryLimit :: "host \<Rightarrow> int" where
  "cgroupMemoryLimit h =
     (case find (\<lambda>n. n > 0) (map (parseCgroupMemoryFile h) cgroup_files) of None \<Rightarrow> 0 | Some n \<Rightarrow> n)"

definition detectRAM :: "host \<Rightarrow> int" where
  "detectRAM h =
     (let hostbytes = hostRAM h; lim = cgroupMemoryLimit h
      in if lim > 0 \<and> (hostbytes = 0 \<or> lim < hostbytes) then lim else hostbytes)"

definition networkShareThreshold :: int where
  "networkShareThreshold = 100 * 2 ^ 40"

fun disk_walk :: "nat \<Rightarrow> host \<Rightarrow> string \<Rightarrow> int" where
  "disk_walk 0 h path = 0"
| "disk_walk (Suc n) h path =
     (case ho_statfs h path of
        Some (bavail, bsize) \<Rightarrow>
          (let free = int64 (int64 bavail * int64 bsize) in if free > networkShareThreshold then 0 else free)
      | None \<Rightarrow> let parent = path_dir path in if parent = path then 0 else disk_walk n h parent)"

definition detectDiskFree :: "host \<Rightarrow> string \<Rightarrow> int" where
  "detectDiskFree h path = disk_walk 12 h (if path = [] then ''.'' else path)"

definition detectNVMe :: "host \<Rightarrow> string \<Rightarrow> bool" where
  "detectNVMe h path =
     (if ho_GOOS h \<noteq> ''linux'' then ho_GOOS h = ''darwin''
      else case ho_block h of
        None \<Rightarrow> False
      | Some es \<Rightarrow> list_ex (\<lambda>e. case ho_file h (''/sys/block/'' @ e @ ''/queue/rotational'') of
                               None \<Rightarrow> False | Some b \<Rightarrow> TrimSpace b = ''0'') es)"

definition estimateBandwidth :: "string \<Rightarrow> int \<Rightarrow> rat" where
  "estimateBandwidth cpuModel cores =
     (let m = ToLower cpuModel
      in if Contains m ''apple m'' then 100
         else if Contains m ''epyc'' \<or> Contains m ''xeon platinum'' \<or> Contains m ''xeon gold'' then 150
         else if Contains m ''xeon e5'' then 40
         else if Contains m ''xeon'' then 60
         else if cores \<ge> 32 then 80 else 40)"

text \<open>\<^verbatim>\<open>cudaBanner\<close> is sensitive to case; its blanks are tab, newline, form feed, return and space.\<close>

fun Exact :: "string \<Rightarrow> regexp" where
  "Exact [] = Empty"
| "Exact (c # cs) = Seq (Class (\<lambda>x. x = c)) (Exact cs)"

definition re_blank :: "char \<Rightarrow> bool" where
  "re_blank c = ((of_char c :: nat) \<in> {9, 10, 12, 13, 32})"

definition cudaBanner :: "string \<Rightarrow> string list" where
  "cudaBanner s =
     FindAllSubmatch (Seq (Exact ''CUDA Version:'') (Star (Class re_blank)))
       (Seq (Plus (Class is_digit)) (Seq (Class (\<lambda>c. c = CHR ''.'')) (Plus (Class is_digit)))) Empty s"

definition detectDriverCUDA :: "host \<Rightarrow> string" where
  "detectDriverCUDA h =
     (case ho_smi h of
        None \<Rightarrow> []
      | Some out \<Rightarrow> (case cudaBanner out of [] \<Rightarrow> [] | m # _ \<Rightarrow> m))"

definition detectTorchCUDA :: "host \<Rightarrow> string" where
  "detectTorchCUDA h =
     (case find (\<lambda>v. v \<noteq> []) (List.map_filter (\<lambda>py. map_option TrimSpace (ho_python h py)) [''python3'', ''python'']) of
        None \<Rightarrow> [] | Some v \<Rightarrow> v)"

subsection \<open>The background probe\<close>

record torch_probe =
  tp_started :: bool
  tp_running :: bool
  tp_value :: "string option"

definition TorchCUDA :: "torch_probe \<Rightarrow> string" where
  "TorchCUDA p = (case tp_value p of None \<Rightarrow> [] | Some v \<Rightarrow> v)"

definition startTorchProbe :: "torch_probe \<Rightarrow> torch_probe" where
  "startTorchProbe p = (if tp_started p then p else p\<lparr>tp_started := True, tp_running := True\<rparr>)"

definition torch_probe_done :: "host \<Rightarrow> torch_probe \<Rightarrow> torch_probe" where
  "torch_probe_done h p =
     (if tp_running p
      then let v = detectTorchCUDA h
           in p\<lparr>tp_running := False, tp_value := (if v \<noteq> [] then Some v else tp_value p)\<rparr>
      else p)"

definition DetectHardware :: "host \<Rightarrow> string \<Rightarrow> string \<Rightarrow> rat \<Rightarrow> torch_probe \<Rightarrow> Model_Hardware.Node \<times> torch_probe" where
  "DetectHardware h name dataDir bandwidthOverride p =
     (let gpus = detectGPUs h; cpu = detectCPUModel h;
          n = \<lparr>n_Name = name, n_GPUs = gpus, n_CPUCores = ho_NumCPU h, n_CPUModel = cpu, n_RAMBytes = detectRAM h,
               n_DiskFreeBytes = detectDiskFree h dataDir,
               n_MemBandwidthGBs = (if bandwidthOverride \<le> 0 then estimateBandwidth cpu (ho_NumCPU h) else bandwidthOverride),
               n_HasNVMe = detectNVMe h dataDir, n_GPUFraction = 0, n_DriverCUDA = [], n_TorchCUDA = []\<rparr>
      in if gpus = [] then (n, p)
         else (n\<lparr>n_DriverCUDA := detectDriverCUDA h, n_TorchCUDA := TorchCUDA p\<rparr>, startTorchProbe p))"

subsection \<open>What the figures are bounded by\<close>

lemma cgroupMemoryLimit_nonneg: "0 \<le> cgroupMemoryLimit h"
  by (auto simp: cgroupMemoryLimit_def split: option.split dest!: find_SomeD)

lemma disk_walk_bound: "disk_walk n h path \<le> networkShareThreshold"
  by (induction n arbitrary: path) (auto simp: Let_def networkShareThreshold_def split: option.split)

text \<open>The first ancestor of a path that exists, within twelve steps up.\<close>

lemma disk_walk_ancestor:
  assumes "\<forall>j < i. ho_statfs h ((path_dir ^^ j) path) = None" and "i < n" and "(path_dir ^^ i) path = p"
    and "ho_statfs h p = Some (bavail, bsize)" and "0 \<le> bavail * bsize" "bavail * bsize \<le> networkShareThreshold"
    and "0 \<le> bavail" "bavail < 2 ^ 63" "0 \<le> bsize" "bsize < 2 ^ 63"
  shows "disk_walk n h path = bavail * bsize"
  using assms(1-3)
proof (induction i arbitrary: n path)
  case 0
  then obtain m where "n = Suc m" by (cases n) auto
  have "int64 (bavail * bsize) = bavail * bsize"
    using assms(5,6) by (intro int64_id) (simp_all add: networkShareThreshold_def)
  with \<open>n = Suc m\<close> 0 assms(4-10) show ?case by (simp add: int64_id Let_def)
next
  case (Suc i)
  then obtain m where n: "n = Suc m" by (cases n) auto
  have none: "ho_statfs h path = None" using Suc.prems(1) by (metis funpow_0 zero_less_Suc)
  have up: "\<forall>j < i. ho_statfs h ((path_dir ^^ j) (path_dir path)) = None"
    using Suc.prems(1) by (metis Suc_mono comp_apply funpow_Suc_right)
  have moved: "path_dir path \<noteq> path"
  proof
    assume "path_dir path = path"
    then have "(path_dir ^^ Suc i) path = path" by (induction i) auto
    with none Suc.prems(3) assms(4) show False by (simp del: funpow.simps)
  qed
  have "disk_walk m h (path_dir path) = bavail * bsize"
    using Suc.IH [where n = m and path = "path_dir path"] up Suc.prems(2,3) n by (simp add: funpow_swap1)
  with n none moved show ?case by (simp add: Let_def)
qed

text \<open>
  The planner never sees more than the node may use: inside a container the memory reported is at most the
  limit of the control group, whatever \<^verbatim>\<open>/proc/meminfo\<close> says of the host, and it is exactly the smaller of the two;
  the free space reported is never the figure of a cluster file system, and the memory bandwidth is positive.
\<close>

theorem detected_within_limits:
  assumes "DetectHardware h name dataDir bandwidth p = (n, p')"
  shows "(0 < cgroupMemoryLimit h \<longrightarrow> n_RAMBytes n \<le> cgroupMemoryLimit h) \<and>
    (0 < cgroupMemoryLimit h \<longrightarrow> 0 < hostRAM h \<longrightarrow> n_RAMBytes n = min (hostRAM h) (cgroupMemoryLimit h)) \<and>
    (cgroupMemoryLimit h = 0 \<longrightarrow> n_RAMBytes n = hostRAM h) \<and>
    n_DiskFreeBytes n \<le> networkShareThreshold \<and> 0 < n_MemBandwidthGBs n"
proof -
  have "n_RAMBytes n = detectRAM h" "n_DiskFreeBytes n = detectDiskFree h dataDir"
    "n_MemBandwidthGBs n = (if bandwidth \<le> 0 then estimateBandwidth (detectCPUModel h) (ho_NumCPU h) else bandwidth)"
    using assms by (auto simp: DetectHardware_def Let_def split: if_splits)
  moreover have "0 < estimateBandwidth m c" for m c by (simp add: estimateBandwidth_def Let_def)
  ultimately show ?thesis
    using disk_walk_bound by (auto simp: detectRAM_def detectDiskFree_def Let_def)
qed

subsection \<open>Reading what nvidia-smi prints\<close>

text \<open>The table nvidia-smi prints for the query: a line per device, its fields separated by a comma and a space.\<close>

definition smi_row :: "GPU \<Rightarrow> string" where
  "smi_row g = Itoa (gpu_Index g) @ '', '' @ gpu_Name g @ '', '' @ Itoa (gpu_VRAMBytes g div (1024 * 1024))"

definition smi_table :: "GPU list \<Rightarrow> string" where
  "smi_table gs = Join (map smi_row gs) [CHR 0x0A] @ [CHR 0x0A]"

definition printable_gpu :: "GPU \<Rightarrow> bool" where
  "printable_gpu g \<longleftrightarrow> 0 \<le> gpu_Index g \<and> gpu_Index g \<le> max_int64 \<and> 0 \<le> gpu_VRAMBytes g \<and> gpu_VRAMBytes g \<le> max_int64 \<and>
     1024 * 1024 dvd gpu_VRAMBytes g \<and> gpu_Name g \<noteq> [] \<and> \<not> is_space (hd (gpu_Name g)) \<and> \<not> is_space (last (gpu_Name g)) \<and>
     CHR '','' \<notin> set (gpu_Name g) \<and> CHR 0x0A \<notin> set (gpu_Name g)"

lemma TrimSpace_plain: "s \<noteq> [] \<Longrightarrow> \<not> is_space (hd s) \<Longrightarrow> \<not> is_space (last s) \<Longrightarrow> TrimSpace s = s"
  by (cases s) (simp_all add: TrimSpace_def trim_right_id)

lemma TrimSpace_blank: "TrimSpace (CHR '' '' # s) = TrimSpace s"
  by (simp add: TrimSpace_def is_space_def)

lemma digit_plain: "is_digit c \<Longrightarrow> \<not> is_space c \<and> c \<noteq> CHR '','' \<and> c \<noteq> CHR 0x0A"
  by (auto simp: is_digit_def is_space_def)

lemma Itoa_nonneg: "0 \<le> i \<Longrightarrow> Itoa i = nat_digits (nat i)"
  by (simp add: Itoa_def)

lemma Itoa_digits:
  assumes "0 \<le> i"
  shows "Itoa i \<noteq> []" and "c \<in> set (Itoa i) \<Longrightarrow> is_digit c"
  using assms nat_digits_all_digits [of "nat i"] by (simp_all add: Itoa_nonneg)

lemma Itoa_plain:
  assumes "0 \<le> i"
  shows "\<not> is_space (hd (Itoa i))" and "\<not> is_space (last (Itoa i))" and "CHR '','' \<notin> set (Itoa i)" and "CHR 0x0A \<notin> set (Itoa i)"
    and "TrimSpace (Itoa i) = Itoa i"
proof -
  note dig = Itoa_digits [OF assms]
  show a: "\<not> is_space (hd (Itoa i))" using digit_plain [OF dig(2) [OF hd_in_set [OF dig(1)]]] by blast
  show b: "\<not> is_space (last (Itoa i))" using digit_plain [OF dig(2) [OF last_in_set [OF dig(1)]]] by blast
  show "CHR '','' \<notin> set (Itoa i)" "CHR 0x0A \<notin> set (Itoa i)" using dig(2) digit_plain by blast+
  show "TrimSpace (Itoa i) = Itoa i" by (rule TrimSpace_plain [OF dig(1) a b])
qed

lemma Split_comma: "sep \<notin> set a \<Longrightarrow> Split (a @ sep # b) sep = a # Split b sep"
  by (simp add: Split_append Split_no_sep)

lemma gpu_line_smi_row:
  assumes "printable_gpu g"
  shows "gpu_line (smi_row g) = Some g"
proof -
  let ?mib = "gpu_VRAMBytes g div (1024 * 1024)"
  have mib: "0 \<le> ?mib" "?mib \<le> max_int64" "?mib * (1024 * 1024) = gpu_VRAMBytes g"
    using assms by (auto simp: printable_gpu_def max_int64_def)
  have parts: "Split (smi_row g) (CHR '','') = [Itoa (gpu_Index g), CHR '' '' # gpu_Name g, CHR '' '' # Itoa ?mib]"
  proof -
    have eq: "smi_row g = Itoa (gpu_Index g) @ CHR '','' # (CHR '' '' # gpu_Name g) @ CHR '','' # (CHR '' '' # Itoa ?mib)"
      by (simp add: smi_row_def)
    have c1: "CHR '','' \<notin> set (CHR '' '' # gpu_Name g)" using assms by (simp add: printable_gpu_def)
    have c2: "CHR '','' \<notin> set (CHR '' '' # Itoa ?mib)" using Itoa_plain(3) [OF mib(1)] by simp
    have c3: "CHR '','' \<notin> set (Itoa (gpu_Index g))" using assms by (intro Itoa_plain) (simp add: printable_gpu_def)
    show ?thesis unfolding eq Split_comma [OF c3] Split_comma [OF c1] Split_no_sep [OF c2] by (rule refl)
  qed
  have atoi: "Atoi (Itoa (gpu_Index g)) = (gpu_Index g, True)" "Atoi (Itoa ?mib) = (?mib, True)"
    using assms mib by (auto simp: printable_gpu_def min_int64_def intro!: Atoi_Itoa)
  have "int64 (?mib * 1024 * 1024) = gpu_VRAMBytes g"
    using assms mib(3) int64_id [of "gpu_VRAMBytes g"] by (simp add: printable_gpu_def max_int64_def mult.assoc)
  then show ?thesis
    using assms mib(1) parts atoi
    by (simp add: gpu_line_def Let_def TrimSpace_blank Itoa_plain TrimSpace_plain printable_gpu_def)
qed

lemma Split_Join:
  "xs \<noteq> [] \<Longrightarrow> \<forall>x \<in> set xs. sep \<notin> set x \<Longrightarrow> Split (Join xs [sep]) sep = xs"
proof (induction xs)
  case (Cons x xs)
  then show ?case by (cases "xs = []") (simp_all add: Split_no_sep Join_Cons Split_comma)
qed simp

lemma Join_ends:
  "xs \<noteq> [] \<Longrightarrow> \<forall>x \<in> set xs. x \<noteq> [] \<Longrightarrow>
   Join xs sep \<noteq> [] \<and> hd (Join xs sep) = hd (hd xs) \<and> last (Join xs sep) = last (last xs)"
proof (induction xs)
  case (Cons x xs)
  then show ?case by (cases "xs = []") (simp_all add: Join_Cons)
qed simp

lemma smi_row_ends:
  assumes "printable_gpu g"
  shows "smi_row g \<noteq> []" and "\<not> is_space (hd (smi_row g))" and "\<not> is_space (last (smi_row g))"
    and "CHR 0x0A \<notin> set (smi_row g)"
proof -
  let ?mib = "gpu_VRAMBytes g div (1024 * 1024)"
  have i: "0 \<le> gpu_Index g" and m: "0 \<le> ?mib" and nl: "CHR 0x0A \<notin> set (gpu_Name g)"
    using assms by (auto simp: printable_gpu_def)
  note di = Itoa_digits(1) [OF i] and dm = Itoa_digits(1) [OF m]
  show "smi_row g \<noteq> []" by (simp add: smi_row_def)
  have "hd (smi_row g) = hd (Itoa (gpu_Index g))" "last (smi_row g) = last (Itoa ?mib)"
    using di dm by (simp_all add: smi_row_def)
  then show "\<not> is_space (hd (smi_row g))" "\<not> is_space (last (smi_row g))"
    using Itoa_plain(1) [OF i] Itoa_plain(2) [OF m] by simp_all
  show "CHR 0x0A \<notin> set (smi_row g)"
    using Itoa_plain(4) [OF i] Itoa_plain(4) [OF m] nl by (simp add: smi_row_def)
qed

lemma TrimSpace_newline:
  assumes "s \<noteq> []" and "\<not> is_space (hd s)" and "\<not> is_space (last s)"
  shows "TrimSpace (s @ [CHR 0x0A]) = s"
proof -
  have nl: "is_space (CHR 0x0A)" by (simp add: is_space_def)
  have "dropWhile is_space (s @ [CHR 0x0A]) = s @ [CHR 0x0A]" using assms(1,2) by (cases s) simp_all
  then show ?thesis
    using trim_right_append_out [of "[CHR 0x0A]" is_space s] nl trim_right_id [of s is_space] assms(3)
    by (simp add: TrimSpace_def)
qed

lemma map_filter_all: "\<forall>x \<in> set xs. f (g x) = Some x \<Longrightarrow> List.map_filter f (map g xs) = xs"
  by (induction xs) (simp_all add: List.map_filter_simps)

text \<open>
  The inventory of graphics cards is what nvidia-smi printed: for every list of devices, reading the printed table
  gives back exactly these devices in their order, with index, name and memory in bytes; so does the empty table.
\<close>

theorem detectGPUs_smi_table:
  assumes "\<forall>g \<in> set gs. printable_gpu g" and "ho_smi_query h = Some (smi_table gs)"
  shows "detectGPUs h = gs"
proof (cases "gs = []")
  case True
  have "List.map_filter gpu_line (Split (TrimSpace (smi_table [])) (CHR 0x0A)) = []" by code_simp
  with True assms(2) show ?thesis by (simp add: detectGPUs_def)
next
  case False
  let ?rows = "map smi_row gs"
  have ends: "Join ?rows [CHR 0x0A] \<noteq> []" "\<not> is_space (hd (Join ?rows [CHR 0x0A]))" "\<not> is_space (last (Join ?rows [CHR 0x0A]))"
    using Join_ends [of ?rows "[CHR 0x0A]"] False assms(1) smi_row_ends by (auto simp: hd_map last_map)
  have "Split (TrimSpace (smi_table gs)) (CHR 0x0A) = ?rows"
    unfolding smi_table_def TrimSpace_newline [OF ends] using False assms(1) smi_row_ends(4) by (intro Split_Join) auto
  then show ?thesis
    using assms gpu_line_smi_row by (simp add: detectGPUs_def map_filter_all)
qed

subsection \<open>A concrete machine\<close>

definition sample_gpus :: "GPU list" where
  "sample_gpus = [\<lparr>gpu_Name = ''NVIDIA RTX A6000'', gpu_VRAMBytes = 49140 * 1024 * 1024, gpu_Index = 0\<rparr>,
     \<lparr>gpu_Name = ''Tesla T4'', gpu_VRAMBytes = 15360 * 1024 * 1024, gpu_Index = 1\<rparr>]"

definition pod :: host where
  "pod = \<lparr>ho_GOOS = ''linux'', ho_NumCPU = 16, ho_smi_query = Some (smi_table sample_gpus), ho_smi = Some ''| CUDA Version: 12.4 |'',
     ho_file = (\<lambda>p. if p = ''/proc/meminfo'' then Some (''MemTotal:       528280412 kB'' @ [CHR 0x0A])
                    else if p = ''/sys/fs/cgroup/memory.max'' then Some (Itoa 50000003072 @ [CHR 0x0A]) else None),
     ho_sysctl = (\<lambda>_. None), ho_statfs = (\<lambda>p. if p = ''/'' then Some (1000, 4096) else None), ho_block = None,
     ho_python = (\<lambda>_. None)\<rparr>"

definition fresh_probe :: torch_probe where
  "fresh_probe = \<lparr>tp_started = False, tp_running = False, tp_value = None\<rparr>"

theorem detectGPUs_smi_table_witness: "detectGPUs pod = sample_gpus"
proof -
  have "\<forall>g \<in> set sample_gpus. printable_gpu g"
    by (simp add: sample_gpus_def printable_gpu_def max_int64_def is_space_def)
  then show ?thesis by (intro detectGPUs_smi_table) (simp_all add: pod_def)
qed

lemma pod_limit: "cgroupMemoryLimit pod = 50000003072"
proof -
  have i: "0 \<le> (50000003072 :: int)" by simp
  note plain = Itoa_plain [OF i] and dig = Itoa_digits [OF i]
  have "TrimSpace (Itoa 50000003072 @ [CHR 0x0A]) = Itoa 50000003072"
    by (rule TrimSpace_newline [OF dig(1) plain(1,2)])
  moreover have "Itoa 50000003072 \<noteq> ''max''"
    using dig(2) [of "CHR ''m''"] by (auto simp: is_digit_def)
  moreover have "Atoi (Itoa 50000003072) = (50000003072, True)"
    by (rule Atoi_Itoa) (simp_all add: min_int64_def max_int64_def)
  ultimately show ?thesis by (simp add: cgroupMemoryLimit_def cgroup_files_def parseCgroupMemoryFile_def pod_def Let_def)
qed

theorem detected_within_limits_witness:
  "n_RAMBytes (fst (DetectHardware pod ''n'' ''/workspace/models'' 0 fresh_probe)) \<le> 50000003072"
  using detected_within_limits [of pod "''n''" "''/workspace/models''" 0 fresh_probe, OF prod.collapse [symmetric]]
  by (simp add: pod_limit)

end
