(* ===== verification/Spec2Isabelle.thy ===== *)
theory Spec2Isabelle
  imports Gateway_Config Upstream_Pool Gateway_Catalog Store_Log Store_Accounts Gateway_Auth Gateway_Limits
    Gateway_SSE Gateway_Proxy Model_Spec Model_Search Model_Hardware Model_Plan
    Agent_Engine Agent_Cache Agent_Supervisor Agent_Lifecycle Store_Stats Agent_Server Gateway_Nodes Model_Doc Gateway_Server
    Gateway_Provision Gateway_Admin Gateway_Economics Gateway_Bench Gateway_Background Access_Guard Gateway_Routes
    Agent_Hardware
begin

text \<open>
  \<^bold>\<open>The program.\<close> llmfast is an inference provider in Go: a \<^emph>\<open>gateway\<close> that sells tokens of open models through an
  OpenAI-compatible API, and an \<^emph>\<open>agent\<close> on every machine that runs the engines (vLLM, llama.cpp). A request enters the
  gateway, is authenticated by its API key, rate-limited, admitted to a slot of a backend, sent on with its model name
  rewritten, and its answer is relayed, as JSON or as a stream of server-sent events, while tokens are counted and
  priced; a record of it goes to an asynchronous log, from which statistics are aggregated. The gateway polls its agents
  and mirrors their ready engines into the routing pool. An operator inspects a model on a public registry, gets a plan
  for every node, installs it on one, tests it and publishes it; customers register, create keys and see their usage.

  \<^bold>\<open>How the theories correspond to the sources\<close> (all paths below \<^verbatim>\<open>src/internal\<close>).

  \<^item> Go itself: \<open>LLM_Prelude\<close> (times, fixed-width integers, truncating division, iteration orders of maps, the named
    collections), \<open>Go_Strings\<close>, \<open>Go_Files\<close> (paths, directories), \<open>Go_Encoding\<close> (hex, base64), \<open>Go_Json\<close> (the decoder and
    its case-insensitive field matching), \<open>Go_Float\<close> (float64 with IEEE rounding; the locale \<open>float_rounding\<close> is what
    its clients use), \<open>Go_Format\<close> and \<open>Go_Regexp\<close>.
  \<^item> Configuration: \<open>Gateway_Config\<close> (\<^verbatim>\<open>config/config.go\<close>, \<^verbatim>\<open>config/write.go\<close>).
  \<^item> The request path: \<open>Upstream_Pool\<close> (\<^verbatim>\<open>upstream/pool.go\<close>), \<open>Gateway_Catalog\<close> (\<^verbatim>\<open>gateway/catalog.go\<close>), \<open>Gateway_SSE\<close>
    (\<^verbatim>\<open>sse.go\<close> and the relay of \<^verbatim>\<open>proxy.go\<close>), \<open>Gateway_Proxy\<close> (the rest of \<^verbatim>\<open>proxy.go\<close>).
  \<^item> Storage: \<open>Store_Log\<close> (\<^verbatim>\<open>store/store.go\<close>), \<open>Store_Accounts\<close> (\<^verbatim>\<open>keys.go\<close>, \<^verbatim>\<open>users.go\<close>), \<open>Store_Stats\<close> (\<^verbatim>\<open>stats.go\<close>,
    \<^verbatim>\<open>usage.go\<close>). Tables are lists of row records and each method is its SQL statement written out.
  \<^item> Accounts and sessions on the network: \<open>Gateway_Auth\<close> (\<^verbatim>\<open>gateway/auth.go\<close>, \<^verbatim>\<open>adminauth.go\<close>, \<^verbatim>\<open>account.go\<close>) has the
    handlers, \<open>Gateway_Limits\<close> their properties.
  \<^item> Models: \<open>Model_Spec\<close> and \<open>Model_Search\<close> (\<^verbatim>\<open>modelspec/modelspec.go\<close>), \<open>Model_Hardware\<close> and \<open>Model_Plan\<close>
    (\<^verbatim>\<open>modelspec/plan.go\<close>), \<open>Model_Doc\<close> (\<^verbatim>\<open>modeldoc/modeldoc.go\<close>).
  \<^item> The agent: \<open>Agent_Engine\<close> (\<^verbatim>\<open>agent/engine.go\<close>), \<open>Agent_Cache\<close> (\<^verbatim>\<open>cache.go\<close>), \<open>Agent_Supervisor\<close> and
    \<open>Agent_Lifecycle\<close> (\<^verbatim>\<open>supervisor.go\<close>), \<open>Agent_Server\<close> (\<^verbatim>\<open>server.go\<close>), \<open>Agent_Hardware\<close> (\<^verbatim>\<open>hardware.go\<close>).
  \<^item> Operation of the gateway: \<open>Gateway_Nodes\<close> (\<^verbatim>\<open>gateway/nodes.go\<close>), \<open>Gateway_Server\<close> and \<open>Gateway_Background\<close>
    (\<^verbatim>\<open>server.go\<close>), \<open>Gateway_Provision\<close> (\<^verbatim>\<open>provision.go\<close>), \<open>Gateway_Admin\<close> (\<^verbatim>\<open>admin.go\<close>, \<^verbatim>\<open>playground.go\<close>, the usage pages
    of \<^verbatim>\<open>account.go\<close>), \<open>Gateway_Routes\<close> (the routing tables), \<open>Gateway_Bench\<close> (\<^verbatim>\<open>benchmark.go\<close>), \<open>Gateway_Economics\<close>
    (\<^verbatim>\<open>economics.go\<close>).

  \<^bold>\<open>Conventions.\<close> A struct is a record whose fields carry a short prefix; a method is a definition with the method's name
  that takes the receiver and returns it updated; an error is the left side of a sum, a constructor of an error datatype
  or a response with its status. Pointers shared between objects are indices into a heap (backends of the pool, instances
  of the supervisor). What happens under a mutex is one step; where the interleaving of critical sections matters, a step
  relation has a step for each of them (slots of the pool, the supervisor's threads, the semaphore of the load test, the
  log's writer). The clock, random bytes, database failures, the order in which a map is iterated, HTTP, YAML, SHA-256
  and PBKDF2 are arguments of the definitions that use them.

  \<^bold>\<open>What is shown.\<close>

  \<^item> Requests: a slot is never granted beyond a backend's limit and the counters are exact under every interleaving; every
    request gives its slot back; every request is logged exactly once; the relay forwards the engine's stream unchanged
    except for the frame it asked for itself, counts its tokens exactly and ends when the stream does; the cost in float64
    is within a bound of the exact one; the body sent on differs from the client's only in the fields it must.
  \<^item> Log and statistics: no record is lost but the counted ones; a rollup is exact from an aligned cutoff, and undercounts
    from an unaligned one; the series read from rollups equals the one from raw rows; the filled chart sums to the totals.
  \<^item> Accounts: the tables keep their keys, uniqueness and references through every statement; a revoked key stops within the
    cache lifetime, and at once when an operator revokes it; a key's rate limit holds over every sequence of calls;
    accounts cannot touch each other's keys or see each other's usage; without credentials the private listener runs the
    sign-in handlers only. A customer's session does open the admin pages, and that is a theorem too.
  \<^item> Nodes: the pool implements the specification of what the nodes last reported; a silent node keeps its models for the
    grace period and then loses them; gateway and agent, composed, agree on what is served; nothing on an agent moves
    without its token.
  \<^item> Models: a loaded configuration is well formed; reloading is all or nothing; an installation starts the engine first
    and stages the entry hidden; the published prices are the charged ones; a plan that fits stays within the memory of
    the node; the command line serves the model under the name the catalog asks for.
  \<^item> Supervisor: its invariant holds in every reachable state, a restart restores what was to run, and a stop during the
    restart delay is lost.

  \<^bold>\<open>Interfaces.\<close> Five contracts are locales, each interpreted on the definitions of the model: \<open>float_rounding\<close> (what
  rounding preserves, by \<open>fl64\<close>), \<open>alphabet64\<close> (the two base64 alphabets), \<open>admission\<close> (taking and returning a slot, by
  the pool for the proxy), \<open>routing_table\<close> (the dynamic routes, by the pool for the node monitor) and \<open>access_guard\<close> of the
  theory \<open>Access_Guard\<close> (by the agent's token check, the admin guard and the customer guard, for the routing tables).

  \<^bold>\<open>Bounds and fuel.\<close> The JSON scanner takes twice the length of its text plus two as fuel, which is enough because
  every call consumes a character or goes one level down; a repetition of a regular expression unfolds at most as often as
  the text is long; the walk to an existing directory has the code's own limit of twelve; a relay is a function of the
  finite list of events it sees, and is \<open>None\<close> as long as the stream has not ended.

  \<^bold>\<open>Not modelled.\<close> The commands below \<^verbatim>\<open>src/cmd\<close> (flags, signals, listeners, terminal input, a mock engine), the
  JavaScript of the two interfaces, opening the database, tuning of the HTTP transport, signals to engine processes, and
  the JSON text of the agent's and the admin pages, whose content is modelled as values. Infinities and NaN are not
  values of the float model.
\<close>

end
